(* ===== verification/Prelude.thy ===== *)
theory Prelude
  imports Complex_Main
begin

text \<open>
  Shared vocabulary of the GrubDash development: the rule collections the component
  theories feed, and the list operations of JavaScript's \<open>Array.prototype\<close> that both
  controllers use (\<open>find\<close>/\<open>findIndex\<close> by a predicate, \<open>push\<close>, \<open>splice(i, 1)\<close>),
  with the lemmas about them that the component proofs share, and the view of an array of
  keyed records as a map from keys to records (\<open>key_map\<close>), the abstract store both
  controllers refine.
\<close>

named_theorems chain_simps "equations that evaluate a middleware chain step by step"
named_theorems store_simps "equations about the in-memory collections"

subsection \<open>\<open>findIndex\<close>: the first element that satisfies a predicate\<close>

text \<open>
  \<open>xs.findIndex(p)\<close> returns the index of the first element with \<open>p\<close>, and
  \<open>xs.find(p)\<close> the element at that index (a reference to it: the controllers mutate it
  in place). Both are modelled by the index, \<open>None\<close> standing for \<open>-1\<close>/\<open>undefined\<close>.
\<close>

fun find_index :: "('a \<Rightarrow> bool) \<Rightarrow> 'a list \<Rightarrow> nat option" where
  "find_index P [] = None"
| "find_index P (x # xs) = (if P x then Some 0 else map_option Suc (find_index P xs))"

text \<open>\<open>xs.splice(i, 1)\<close> for an index in range.\<close>

definition remove_nth :: "nat \<Rightarrow> 'a list \<Rightarrow> 'a list" where
  "remove_nth i xs = take i xs @ drop (Suc i) xs"

lemma find_index_None_iff [store_simps]:
  "find_index P xs = None \<longleftrightarrow> (\<forall>x\<in>set xs. \<not> P x)"
  by (induction xs) auto

lemma find_index_Some_lt [store_simps]:
  "find_index P xs = Some i \<Longrightarrow> i < length xs"
  by (induction xs arbitrary: i) (auto split: if_splits)

lemma find_index_Some_nth [store_simps]:
  "find_index P xs = Some i \<Longrightarrow> P (xs ! i)"
  by (induction xs arbitrary: i) (auto split: if_splits)

lemma find_index_Some_first:
  "find_index P xs = Some i \<Longrightarrow> j < i \<Longrightarrow> \<not> P (xs ! j)"
proof (induction xs arbitrary: i j)
  case Nil
  then show ?case by simp
next
  case (Cons x xs)
  then show ?case by (cases j) (auto split: if_splits)
qed

lemma find_index_Some_iff:
  "find_index P xs = Some i \<longleftrightarrow> i < length xs \<and> P (xs ! i) \<and> (\<forall>j<i. \<not> P (xs ! j))"
proof
  assume "find_index P xs = Some i"
  then show "i < length xs \<and> P (xs ! i) \<and> (\<forall>j<i. \<not> P (xs ! j))"
    using find_index_Some_lt find_index_Some_nth find_index_Some_first by metis
next
  assume "i < length xs \<and> P (xs ! i) \<and> (\<forall>j<i. \<not> P (xs ! j))"
  then show "find_index P xs = Some i"
  proof (induction xs arbitrary: i)
    case Nil
    then show ?case by simp
  next
    case (Cons x xs)
    show ?case
    proof (cases i)
      case 0
      with Cons.prems show ?thesis by simp
    next
      case (Suc k)
      with Cons.prems have "\<not> P x" by force
      moreover from Cons.prems Suc have "find_index P xs = Some k"
        by (intro Cons.IH) force
      ultimately show ?thesis using Suc by simp
    qed
  qed
qed

text \<open>Where the key is unique, the first match is the only one.\<close>

lemma find_index_key_distinct:
  assumes "distinct (map key xs)" "i < length xs" "key (xs ! i) = k"
  shows "find_index (\<lambda>x. key x = k) xs = Some i"
proof -
  have "\<forall>j<i. key (xs ! j) \<noteq> k"
  proof (intro allI impI)
    fix j assume "j < i"
    with assms(2) have j: "j < length xs" by simp
    from assms(1) have "\<forall>a<length xs. \<forall>b<length xs. a \<noteq> b \<longrightarrow> key (xs ! a) \<noteq> key (xs ! b)"
      by (simp add: distinct_conv_nth)
    with j assms(2,3) \<open>j < i\<close> show "key (xs ! j) \<noteq> k" by auto
  qed
  with assms(2,3) show ?thesis by (simp add: find_index_Some_iff)
qed

lemma find_index_append_None [store_simps]:
  "\<forall>x\<in>set xs. \<not> P x \<Longrightarrow>
   find_index P (xs @ ys) = map_option (\<lambda>i. i + length xs) (find_index P ys)"
  by (induction xs) (auto simp: option.map_comp comp_def option.map_ident)

subsection \<open>Updating one field of a stored element\<close>

lemma map_update_nth_same [store_simps]:
  "(map f xs)[i := f (xs ! i)] = map f xs"
proof (cases "i < length xs")
  case True
  have "(map f xs)[i := map f xs ! i] = map f xs" by (rule list_update_id)
  with True show ?thesis by simp
next
  case False
  then show ?thesis by (simp add: list_update_beyond)
qed

lemma set_remove_nth_subset [store_simps]:
  "set (remove_nth i xs) \<subseteq> set xs"
  by (auto simp: remove_nth_def dest: in_set_takeD in_set_dropD)

lemma map_remove_nth:
  "map f (remove_nth i xs) = remove_nth i (map f xs)"
  by (simp add: remove_nth_def take_map drop_map)

lemma distinct_remove_nth [store_simps]:
  "distinct xs \<Longrightarrow> distinct (remove_nth i xs)"
proof -
  assume d: "distinct xs"
  then have "set (take i xs) \<inter> set (drop (Suc i) xs) = {}"
    by (simp add: set_take_disj_set_drop_if_distinct)
  with d show ?thesis by (simp add: remove_nth_def)
qed

lemma length_remove_nth [store_simps]:
  "i < length xs \<Longrightarrow> length (remove_nth i xs) = length xs - 1"
  by (simp add: remove_nth_def)

lemma nth_notin_remove_nth:
  assumes "distinct ys" "i < length ys"
  shows "ys ! i \<notin> set (remove_nth i ys)"
proof -
  from assms(2) have "ys = take i ys @ ys ! i # drop (Suc i) ys"
    by (rule id_take_nth_drop)
  then have "distinct (take i ys @ ys ! i # drop (Suc i) ys)"
    using assms(1) by metis
  then show ?thesis by (auto simp: remove_nth_def)
qed

lemma nth_remove_nth_notin:
  assumes "distinct (map key xs)" "i < length xs"
  shows "key (xs ! i) \<notin> key ` set (remove_nth i xs)"
proof -
  have "map key xs ! i \<notin> set (remove_nth i (map key xs))"
    using assms by (intro nth_notin_remove_nth) simp_all
  with assms(2) show ?thesis by (simp add: map_remove_nth[symmetric])
qed

subsection \<open>Reading several fields at once\<close>

lemma those_map_Some [store_simps]: "those (map (\<lambda>x. Some (f x)) xs) = Some (map f xs)"
  by (induction xs) auto

subsection \<open>A collection as a map from keys to elements\<close>

text \<open>
  The store view of an array whose elements carry a key: the element each key finds with
  \<open>find\<close>. With unique keys this is the map the specification's store abstraction has in mind.
\<close>

definition key_map :: "('a \<Rightarrow> 'k) \<Rightarrow> 'a list \<Rightarrow> 'k \<rightharpoonup> 'a" where
  "key_map key xs = map_of (map (\<lambda>x. (key x, x)) xs)"

lemma key_map_find_index:
  "key_map key xs k = map_option (\<lambda>i. xs ! i) (find_index (\<lambda>x. key x = k) xs)"
  by (induction xs) (auto simp: key_map_def option.map_comp comp_def)

lemma key_map_None_iff [store_simps]:
  "key_map key xs k = None \<longleftrightarrow> k \<notin> key ` set xs"
  by (force simp: key_map_def map_of_eq_None_iff)

lemma key_map_split:
  assumes "i < length xs"
  shows "key_map key xs =
           (key_map key (drop (Suc i) xs))(key (xs ! i) \<mapsto> xs ! i) ++ key_map key (take i xs)"
proof -
  have "xs = take i xs @ xs ! i # drop (Suc i) xs" using assms by (rule id_take_nth_drop)
  then have "key_map key xs = key_map key (take i xs @ xs ! i # drop (Suc i) xs)" by simp
  then show ?thesis by (simp add: key_map_def map_add_def)
qed

lemma key_map_append_fresh [store_simps]:
  assumes "key x \<notin> key ` set xs"
  shows "key_map key (xs @ [x]) = (key_map key xs)(key x \<mapsto> x)"
proof -
  have "key_map key xs (key x) = None" using assms by (simp add: key_map_None_iff)
  then show ?thesis by (intro ext) (simp add: key_map_def map_add_def split: option.split)
qed

lemma key_map_nth_fresh:
  assumes "distinct (map key xs)" "i < length xs"
  shows "key (xs ! i) \<notin> key ` set (take i xs)" "key (xs ! i) \<notin> key ` set (drop (Suc i) xs)"
  using nth_remove_nth_notin[OF assms] by (auto simp: remove_nth_def)

lemma key_map_update [store_simps]:
  assumes "distinct (map key xs)" "i < length xs" "key y = key (xs ! i)"
  shows "key_map key (xs[i := y]) = (key_map key xs)(key y \<mapsto> y)"
proof -
  have l: "i < length (xs[i := y])" using assms(2) by simp
  have "key_map key (xs[i := y]) =
          (key_map key (drop (Suc i) xs))(key y \<mapsto> y) ++ key_map key (take i xs)"
    using key_map_split[OF l, of key] assms(2) by simp
  moreover have "key_map key xs =
          (key_map key (drop (Suc i) xs))(key y \<mapsto> xs ! i) ++ key_map key (take i xs)"
    using key_map_split[OF assms(2), of key] assms(3) by simp
  moreover have "key_map key (take i xs) (key y) = None"
    using key_map_nth_fresh(1)[OF assms(1,2)] assms(3) by (simp add: key_map_None_iff)
  ultimately show ?thesis
    by (auto intro!: ext simp: map_add_def split: option.splits)
qed

lemma key_map_remove_nth [store_simps]:
  assumes "distinct (map key xs)" "i < length xs"
  shows "key_map key (remove_nth i xs) = (key_map key xs)(key (xs ! i) := None)"
proof -
  have "key_map key (remove_nth i xs) = key_map key (drop (Suc i) xs) ++ key_map key (take i xs)"
    by (simp add: remove_nth_def key_map_def)
  moreover note key_map_split[OF assms(2), of key]
  moreover have "key_map key (take i xs) (key (xs ! i)) = None"
    "key_map key (drop (Suc i) xs) (key (xs ! i)) = None"
    using key_map_nth_fresh[OF assms] by (simp_all add: key_map_None_iff)
  ultimately show ?thesis
    by (auto intro!: ext simp: map_add_def split: option.splits)
qed

end
