(* ===== verification/Json.thy ===== *)
theory Json
  imports Prelude
begin

text \<open>
  The JavaScript values the controllers read out of \<open>req.body\<close>. Express's JSON body
  parser produces \<open>null\<close>, booleans, finite numbers, strings, arrays and objects; a
  property that is absent reads as \<open>undefined\<close>. A finite IEEE double is a rational
  number, so numbers are \<open>rat\<close>. An object is its list of key/value pairs in source order;
  \<open>JSON.parse\<close> keeps the last of duplicate keys. On top of the values: JavaScript's
  truthiness (\<open>if (v)\<close>, \<open>v || d\<close>), property access (which throws a \<open>TypeError\<close> on
  \<open>undefined\<close> and \<open>null\<close>), \<open>Number.isInteger\<close>, and the decimal rendering a template
  literal gives a non-negative integer, with its inverse.
\<close>

datatype jval =
    JUndef
  | JNull
  | JBool bool
  | JNum rat
  | JStr string
  | JArr "jval list"
  | JObj "(string \<times> jval) list"

subsection \<open>Truthiness\<close>

text \<open>\<open>ToBoolean\<close>: \<open>undefined\<close>, \<open>null\<close>, \<open>false\<close>, \<open>0\<close> and \<open>""\<close> are falsy (a parsed
  number is never \<open>NaN\<close>); every array and object is truthy, empty or not.\<close>

fun truthy :: "jval \<Rightarrow> bool" where
  "truthy JUndef = False"
| "truthy JNull = False"
| "truthy (JBool b) = b"
| "truthy (JNum q) = (q \<noteq> 0)"
| "truthy (JStr s) = (s \<noteq> [])"
| "truthy (JArr vs) = True"
| "truthy (JObj kvs) = True"

text \<open>\<open>a || b\<close>.\<close>

definition js_or :: "jval \<Rightarrow> jval \<Rightarrow> jval" where
  "js_or a b = (if truthy a then a else b)"

subsection \<open>Property access\<close>

text \<open>
  \<open>v[p]\<close> and \<open>const { p } = v\<close>: a \<open>TypeError\<close> (\<open>None\<close>) on \<open>undefined\<close> and \<open>null\<close>;
  the last binding of \<open>p\<close> on an object; \<open>undefined\<close> on any other value, whose
  prototype has none of the property names the controllers read.
\<close>

definition obj_lookup :: "(string \<times> jval) list \<Rightarrow> string \<Rightarrow> jval" where
  "obj_lookup kvs p = (case map_of (rev kvs) p of None \<Rightarrow> JUndef | Some v \<Rightarrow> v)"

fun js_get :: "jval \<Rightarrow> string \<Rightarrow> jval option" where
  "js_get JUndef p = None"
| "js_get JNull p = None"
| "js_get (JObj kvs) p = Some (obj_lookup kvs p)"
| "js_get v p = Some JUndef"

text \<open>A destructuring default, \<open>const { p = d } = v\<close>, applies only to \<open>undefined\<close>.\<close>

definition with_default :: "jval \<Rightarrow> jval \<Rightarrow> jval" where
  "with_default v d = (if v = JUndef then d else v)"

text \<open>\<open>const { data = {} } = req.body\<close>: the payload every validator reads.\<close>

definition body_data :: "jval \<Rightarrow> jval option" where
  "body_data body = map_option (\<lambda>v. with_default v (JObj [])) (js_get body ''data'')"

text \<open>\<open>const { p } = req.body.data || {}\<close>: the form the id and status checks use.\<close>

definition body_field_or :: "jval \<Rightarrow> string \<Rightarrow> jval option" where
  "body_field_or body p =
     (case js_get body ''data'' of
        None \<Rightarrow> None
      | Some d \<Rightarrow> js_get (js_or d (JObj [])) p)"

lemma body_data_obj [simp]:
  "js_get b ''data'' = Some (JObj kvs) \<Longrightarrow> body_data b = Some (JObj kvs)"
  by (simp add: body_data_def with_default_def)

lemma body_field_or_obj [simp]:
  "js_get b ''data'' = Some (JObj kvs) \<Longrightarrow> body_field_or b p = Some (obj_lookup kvs p)"
  by (simp add: body_field_or_def js_or_def)

lemma body_data_null [simp]:
  "js_get b ''data'' = Some JNull \<Longrightarrow> body_data b = Some JNull"
  by (simp add: body_data_def with_default_def)

subsection \<open>Numbers\<close>

text \<open>\<open>Number.isInteger(v)\<close>: a number without fractional part.\<close>

fun js_is_integer :: "jval \<Rightarrow> bool" where
  "js_is_integer (JNum q) = (of_int \<lfloor>q\<rfloor> = q)"
| "js_is_integer v = False"

text \<open>\<open>v > 0\<close> where \<open>v\<close> is already known to be a number.\<close>

fun js_positive :: "jval \<Rightarrow> bool" where
  "js_positive (JNum q) = (0 < q)"
| "js_positive v = False"

subsection \<open>Decimal rendering of indices\<close>

text \<open>\<open>`${i}`\<close> for a loop index \<open>i\<close>: the digits of \<open>i\<close>, most significant first.\<close>

definition digit_char :: "nat \<Rightarrow> char" where
  "digit_char d = char_of (48 + d)"

fun string_of_nat :: "nat \<Rightarrow> string" where
  "string_of_nat n =
     (if n < 10 then [digit_char n] else string_of_nat (n div 10) @ [digit_char (n mod 10)])"

definition digit_val :: "char \<Rightarrow> nat" where
  "digit_val c = of_char c - 48"

definition nat_of_string :: "string \<Rightarrow> nat" where
  "nat_of_string s = foldl (\<lambda>acc c. 10 * acc + digit_val c) 0 s"

declare string_of_nat.simps [simp del]

subsection \<open>\<open>String(v)\<close>: the rendering a template literal gives a value\<close>

text \<open>
  Integers below \<open>10\<^sup>21\<close> in magnitude print as their decimal digits, arrays as
  \<open>join(",")\<close> of their elements (\<open>null\<close> and \<open>undefined\<close> elements as the empty
  string), plain objects as \<open>[object Object]\<close>. The shortest round-trip digits of a
  non-integral double and the exponent form of large ones are not modelled (\<open>None\<close>).
\<close>

text \<open>\<open>Array.prototype.join(sep)\<close> on the rendered elements.\<close>

fun js_join :: "string \<Rightarrow> string list \<Rightarrow> string" where
  "js_join sep [] = []"
| "js_join sep [s] = s"
| "js_join sep (s # ss) = s @ sep @ js_join sep ss"

definition int_to_js_string :: "int \<Rightarrow> string" where
  "int_to_js_string i = (if i < 0 then CHR ''-'' # string_of_nat (nat (- i)) else string_of_nat (nat i))"

fun js_to_string :: "jval \<Rightarrow> string option" where
  "js_to_string JUndef = Some ''undefined''"
| "js_to_string JNull = Some ''null''"
| "js_to_string (JBool b) = Some (if b then ''true'' else ''false'')"
| "js_to_string (JNum q) =
     (if of_int \<lfloor>q\<rfloor> = q \<and> \<bar>q\<bar> < 10 ^ 21 then Some (int_to_js_string \<lfloor>q\<rfloor>) else None)"
| "js_to_string (JStr s) = Some s"
| "js_to_string (JArr vs) =
     map_option (js_join '','')
       (those (map (\<lambda>v. if v = JUndef \<or> v = JNull then Some [] else js_to_string v) vs))"
| "js_to_string (JObj kvs) = Some ''[object Object]''"

subsection \<open>Decimal digits round trip\<close>

lemma digit_val_digit_char [simp]: "d < 10 \<Longrightarrow> digit_val (digit_char d) = d"
  by (simp add: digit_val_def digit_char_def)

lemma nat_of_string_snoc [simp]:
  "nat_of_string (s @ [c]) = 10 * nat_of_string s + digit_val c"
  by (simp add: nat_of_string_def)

lemma string_of_nat_nonempty: "string_of_nat n \<noteq> []"
  by (subst string_of_nat.simps) simp

lemma nat_of_string_of_nat: "nat_of_string (string_of_nat n) = n"
proof (induction n rule: string_of_nat.induct)
  case (1 n)
  show ?case
  proof (cases "n < 10")
    case True
    then show ?thesis
      by (subst string_of_nat.simps) (simp add: nat_of_string_def)
  next
    case False
    then have "nat_of_string (string_of_nat n) =
               10 * nat_of_string (string_of_nat (n div 10)) + n mod 10"
      by (subst string_of_nat.simps) simp
    with False "1.IH" show ?thesis by simp
  qed
qed

lemma string_of_nat_digits:
  "c \<in> set (string_of_nat n) \<Longrightarrow> (48::nat) \<le> of_char c \<and> (of_char c :: nat) < 58"
proof (induction n rule: string_of_nat.induct)
  case (1 n)
  have digit: "d < 10 \<Longrightarrow> of_char (digit_char d) = 48 + d" for d
    by (simp add: digit_char_def)
  from "1.prems" show ?case
    by (subst (asm) string_of_nat.simps)
       (auto split: if_splits dest: "1.IH" simp: digit)
qed

lemma string_of_nat_inj: "string_of_nat m = string_of_nat n \<longleftrightarrow> m = n"
  by (metis nat_of_string_of_nat)

end
