(* ===== verification/Pipeline.thy ===== *)
theory Pipeline
  imports Json
begin

text \<open>
  The request pipeline both controllers are built on. A controller exports, per route,
  an array of middleware functions \<open>(req, res, next)\<close> that Express runs in order;
  each validator either calls \<open>next()\<close> (go on), or \<open>next({status, message})\<close> (stop
  with an error that the application's error handler renders as
  \<open>res.status(status).json({error: message})\<close>), or throws (Express turns the
  exception into \<open>next(err)\<close>, answered with status 500). The last function of the
  array is the handler, which reads or mutates the collection and sends the response.

  A middleware is modelled as a function of the request, the collection and
  \<open>res.locals\<close> to an \<open>outcome\<close>; a handler as a function to an error or a new
  collection with a response. The id-mismatch validators of both controllers call
  \<open>next(err)\<close> and then \<open>next()\<close> without returning in between: the outcome
  \<open>Fail_Pass\<close>, under which (as the specification describes the pattern) the error is
  reported and the rest of the chain still runs. The chain runner, the error handler
  and the id generator live outside \<open>src/\<close> and are modelled from the specification.
\<close>

subsection \<open>Requests, errors, responses\<close>

record request =
  req_param :: string  \<comment> \<open>the route parameter, \<open>req.params.dishId\<close> or \<open>req.params.orderId\<close>\<close>
  req_body :: jval     \<comment> \<open>\<open>req.body\<close> as parsed by \<open>express.json()\<close>\<close>

datatype 'm error =
    Http_Error nat 'm  \<comment> \<open>\<open>next({ status, message })\<close>\<close>
  | Type_Error         \<comment> \<open>a \<open>TypeError\<close> thrown by a property read on \<open>null\<close>/\<open>undefined\<close>\<close>

datatype ('m, 'l) outcome =
    Pass 'l                 \<comment> \<open>\<open>return next()\<close>, with the new \<open>res.locals\<close>\<close>
  | Fail "'m error"         \<comment> \<open>\<open>return next(err)\<close>, or a throw\<close>
  | Fail_Pass "'m error" 'l \<comment> \<open>\<open>next(err); next();\<close>\<close>

datatype ('a, 'm) response =
    Json nat 'a        \<comment> \<open>\<open>res.status(n).json({ data: ... })\<close>\<close>
  | Error_Json nat 'm  \<comment> \<open>the error handler's \<open>{ error: message }\<close>\<close>
  | Server_Error       \<comment> \<open>status 500 for an uncaught exception\<close>
  | Send_Status nat    \<comment> \<open>\<open>res.sendStatus(n)\<close>\<close>

type_synonym ('s, 'l, 'm) middleware = "request \<Rightarrow> 's \<Rightarrow> 'l \<Rightarrow> ('m, 'l) outcome"
type_synonym ('s, 'l, 'm, 'a) handler =
  "request \<Rightarrow> 's \<Rightarrow> 'l \<Rightarrow> 'm error + ('s \<times> ('a, 'm) response)"

text \<open>The application's error handler: \<open>const { status = 500, message } = error\<close>.\<close>

fun error_response :: "'m error \<Rightarrow> ('a, 'm) response" where
  "error_response (Http_Error n m) = Error_Json n m"
| "error_response Type_Error = Server_Error"

subsection \<open>Running a chain\<close>

text \<open>
  The validators of a chain, run in order on the same request, collection and locals:
  the errors reported by \<open>Fail_Pass\<close> steps, and either the error that stopped the chain
  or the locals the handler receives.
\<close>

fun run_mws :: "('s, 'l, 'm) middleware list \<Rightarrow> request \<Rightarrow> 's \<Rightarrow> 'l \<Rightarrow>
                'm error list \<times> ('m error + 'l)" where
  "run_mws [] r s l = ([], Inr l)"
| "run_mws (m # ms) r s l =
     (case m r s l of
        Pass l' \<Rightarrow> run_mws ms r s l'
      | Fail e \<Rightarrow> ([], Inl e)
      | Fail_Pass e l' \<Rightarrow> (let (es, x) = run_mws ms r s l' in (e # es, x)))"

text \<open>
  A whole route: the responses emitted, in order (the client receives the first), and
  the collection afterwards. Validators never change the collection; only the handler
  does, and only when it is reached.
\<close>

definition run_chain :: "('s, 'l, 'm) middleware list \<Rightarrow> ('s, 'l, 'm, 'a) handler \<Rightarrow>
                         request \<Rightarrow> 's \<Rightarrow> 'l \<Rightarrow> ('a, 'm) response list \<times> 's" where
  "run_chain ms h r s l =
     (case run_mws ms r s l of
        (es, Inl e) \<Rightarrow> (map error_response (es @ [e]), s)
      | (es, Inr l') \<Rightarrow>
          (case h r s l' of
             Inl e \<Rightarrow> (map error_response (es @ [e]), s)
           | Inr (s', resp) \<Rightarrow> (map error_response es @ [resp], s')))"

text \<open>
  The pipeline the specification asks for (its design note on validator composition):
  the first error stops the chain, a \<open>Fail_Pass\<close> step included.
\<close>

fun run_mws_halting :: "('s, 'l, 'm) middleware list \<Rightarrow> request \<Rightarrow> 's \<Rightarrow> 'l \<Rightarrow> 'm error + 'l" where
  "run_mws_halting [] r s l = Inr l"
| "run_mws_halting (m # ms) r s l =
     (case m r s l of
        Pass l' \<Rightarrow> run_mws_halting ms r s l'
      | Fail e \<Rightarrow> Inl e
      | Fail_Pass e l' \<Rightarrow> Inl e)"

definition run_chain_halting :: "('s, 'l, 'm) middleware list \<Rightarrow> ('s, 'l, 'm, 'a) handler \<Rightarrow>
                                 request \<Rightarrow> 's \<Rightarrow> 'l \<Rightarrow> ('a, 'm) response \<times> 's" where
  "run_chain_halting ms h r s l =
     (case run_mws_halting ms r s l of
        Inl e \<Rightarrow> (error_response e, s)
      | Inr l' \<Rightarrow> (case h r s l' of Inl e \<Rightarrow> (error_response e, s) | Inr (s', resp) \<Rightarrow> (resp, s')))"

text \<open>
  The validations of a route written as the specification writes them: a list of
  predicates with the message of each, checked in order; the first that fails is reported.
\<close>

fun first_failure :: "(('a \<Rightarrow> bool) \<times> 'm) list \<Rightarrow> 'a \<Rightarrow> 'm option" where
  "first_failure [] x = None"
| "first_failure ((p, m) # rs) x = (if p x then first_failure rs x else Some m)"

subsection \<open>The identifier generator\<close>

text \<open>
  \<open>nextId()\<close> (in \<open>src/utils/nextId.js\<close>, outside the modelled sources) is a source of
  fresh identifiers. It is modelled as the decimal rendering of a counter each
  collection keeps: distinct counters give distinct identifiers.
\<close>

definition nextId :: "nat \<Rightarrow> string" where
  "nextId k = string_of_nat k"

lemma nextId_inj [simp]: "nextId m = nextId n \<longleftrightarrow> m = n"
  by (simp add: nextId_def string_of_nat_inj)

text \<open>Generated identifiers are strings of decimal digits.\<close>

lemma nextId_digits:
  "nextId k = s \<Longrightarrow> c \<in> set s \<Longrightarrow> (48::nat) \<le> of_char c \<and> (of_char c :: nat) < 58"
  by (auto simp: nextId_def dest: string_of_nat_digits)

subsection \<open>Evaluating chains\<close>

lemma run_mws_Cons_Pass [chain_simps]:
  "m r s l = Pass l' \<Longrightarrow> run_mws (m # ms) r s l = run_mws ms r s l'"
  by simp

lemma run_mws_Cons_Fail [chain_simps]:
  "m r s l = Fail e \<Longrightarrow> run_mws (m # ms) r s l = ([], Inl e)"
  by simp

lemma run_mws_Cons_Fail_Pass [chain_simps]:
  "m r s l = Fail_Pass e l' \<Longrightarrow>
   run_mws (m # ms) r s l = (e # fst (run_mws ms r s l'), snd (run_mws ms r s l'))"
  by (simp add: case_prod_beta)

lemma run_chain_stop [chain_simps]:
  "run_mws ms r s l = (es, Inl e) \<Longrightarrow> run_chain ms h r s l = (map error_response (es @ [e]), s)"
  by (simp add: run_chain_def)

lemma run_chain_handler_error [chain_simps]:
  "run_mws ms r s l = (es, Inr l') \<Longrightarrow> h r s l' = Inl e \<Longrightarrow>
   run_chain ms h r s l = (map error_response (es @ [e]), s)"
  by (simp add: run_chain_def)

lemma run_chain_handler_ok [chain_simps]:
  "run_mws ms r s l = (es, Inr l') \<Longrightarrow> h r s l' = Inr (s', resp) \<Longrightarrow>
   run_chain ms h r s l = (map error_response es @ [resp], s')"
  by (simp add: run_chain_def)

lemma run_chain_responses_nonempty: "fst (run_chain ms h r s l) \<noteq> []"
  by (auto simp: run_chain_def split: prod.splits sum.splits)

text \<open>A collection changes only through the handler.\<close>

lemma run_chain_state_cases:
  "snd (run_chain ms h r s l) = s \<or>
   (\<exists>es l' resp. run_mws ms r s l = (es, Inr l') \<and> h r s l' = Inr (snd (run_chain ms h r s l), resp))"
  by (auto simp: run_chain_def split: prod.splits sum.splits)

text \<open>Every response of a chain is an error report or the handler's response.\<close>

lemma run_chain_response_cases:
  assumes "x \<in> set (fst (run_chain ms h r s l))"
  shows "(\<exists>e. x = error_response e) \<or> (\<exists>l' s'. h r s l' = Inr (s', x))"
  using assms by (auto simp: run_chain_def split: prod.splits sum.splits)

text \<open>An invariant every handler keeps is kept by the whole chain.\<close>

lemma run_chain_preserves:
  assumes "P s"
    and "\<And>l' s' resp. h r s l' = Inr (s', resp) \<Longrightarrow> P s'"
  shows "P (snd (run_chain ms h r s l))"
  using run_chain_state_cases[of ms h r s l] assms by auto

text \<open>A handler that never changes the collection leaves it unchanged.\<close>

lemma run_chain_read_only:
  assumes "\<And>l s' resp. h r s l = Inr (s', resp) \<Longrightarrow> s' = s"
  shows "snd (run_chain ms h r s l) = s"
  by (rule run_chain_preserves[where P = "\<lambda>x. x = s"]) (auto dest: assms)

subsection \<open>Chains without \<open>Fail_Pass\<close>\<close>

definition no_fail_pass :: "('m, 'l) outcome \<Rightarrow> bool" where
  "no_fail_pass x = (case x of Fail_Pass e l \<Rightarrow> False | _ \<Rightarrow> True)"

lemma run_mws_no_fail_pass:
  assumes "\<And>m l'. m \<in> set ms \<Longrightarrow> no_fail_pass (m r s l')"
  shows "run_mws ms r s l = ([], run_mws_halting ms r s l)"
  using assms
proof (induction ms arbitrary: l)
  case Nil
  then show ?case by simp
next
  case (Cons m ms)
  have "no_fail_pass (m r s l)" by (rule Cons.prems) simp
  with Cons show ?case
    by (cases "m r s l") (auto simp: no_fail_pass_def)
qed

lemma run_chain_no_fail_pass:
  assumes "\<And>m l'. m \<in> set ms \<Longrightarrow> no_fail_pass (m r s l')"
  shows "run_chain ms h r s l =
           ([fst (run_chain_halting ms h r s l)], snd (run_chain_halting ms h r s l))"
  using run_mws_no_fail_pass[where ms = ms and r = r and s = s and l = l] assms
  by (auto simp: run_chain_def run_chain_halting_def split: sum.splits)

text \<open>Validators that leave \<open>res.locals\<close> as they found it do not change what the handler gets.\<close>

definition keeps_locals :: "('s, 'l, 'm) middleware \<Rightarrow> bool" where
  "keeps_locals m \<longleftrightarrow>
     (\<forall>r s l. case m r s l of Pass l' \<Rightarrow> l' = l | Fail_Pass e l' \<Rightarrow> l' = l | Fail e \<Rightarrow> True)"

lemma keeps_localsD:
  "keeps_locals m \<Longrightarrow>
   (case m r s l of Pass l' \<Rightarrow> l' = l | Fail_Pass e l' \<Rightarrow> l' = l | Fail e \<Rightarrow> True)"
  unfolding keeps_locals_def by blast

lemma run_mws_keeps_locals:
  assumes "\<forall>m\<in>set ms. keeps_locals m" "run_mws ms r s l = (es, Inr l')"
  shows "l' = l"
  using assms
proof (induction ms arbitrary: l es)
  case Nil
  then show ?case by simp
next
  case (Cons m ms)
  then have k: "case m r s l of Pass l' \<Rightarrow> l' = l | Fail_Pass e l' \<Rightarrow> l' = l | Fail e \<Rightarrow> True"
    by (simp add: keeps_localsD)
  show ?case
  proof (cases "m r s l")
    case (Pass x)
    with Cons k show ?thesis by simp
  next
    case (Fail e)
    with Cons.prems show ?thesis by simp
  next
    case (Fail_Pass e x)
    with k have "x = l" by simp
    with Cons.prems(2) Fail_Pass have "run_mws ms r s l = (fst (run_mws ms r s l), Inr l')"
      by (auto simp: case_prod_beta prod_eq_iff)
    with Cons.IH Cons.prems(1) show ?thesis by simp
  qed
qed

subsection \<open>How many responses a chain sends\<close>

text \<open>
  A chain sends one response per error reported by a \<open>Fail_Pass\<close> step, plus the final
  one. Only validators that can take the non-returning path add to the count.
\<close>

lemma run_chain_length:
  "length (fst (run_chain ms h r s l)) = Suc (length (fst (run_mws ms r s l)))"
  by (auto simp: run_chain_def split: prod.splits sum.splits)

lemma run_mws_errors_bound:
  "length (fst (run_mws ms r s l)) \<le> length (filter (\<lambda>m. \<exists>l'. \<not> no_fail_pass (m r s l')) ms)"
proof (induction ms arbitrary: l)
  case Nil
  then show ?case by simp
next
  case (Cons m ms)
  show ?case
  proof (cases "m r s l")
    case (Pass x)
    with Cons.IH[of x] show ?thesis by (simp add: le_SucI)
  next
    case (Fail e)
    then show ?thesis by simp
  next
    case (Fail_Pass e x)
    then have "\<not> no_fail_pass (m r s l)" by (simp add: no_fail_pass_def)
    then have "\<exists>l'. \<not> no_fail_pass (m r s l')" by blast
    with Fail_Pass Cons.IH[of x] show ?thesis by (simp add: case_prod_beta)
  qed
qed

lemma run_chain_one_response:
  "filter (\<lambda>m. \<exists>l'. \<not> no_fail_pass (m r s l')) ms = [] \<Longrightarrow> length (fst (run_chain ms h r s l)) = 1"
  using run_mws_errors_bound[of ms r s l] by (simp add: run_chain_length)

lemma run_chain_two_responses:
  "length (filter (\<lambda>m. \<exists>l'. \<not> no_fail_pass (m r s l')) ms) \<le> 1 \<Longrightarrow>
   length (fst (run_chain ms h r s l)) = 1 \<or> length (fst (run_chain ms h r s l)) = 2"
proof -
  assume "length (filter (\<lambda>m. \<exists>l'. \<not> no_fail_pass (m r s l')) ms) \<le> 1"
  then have "length (fst (run_mws ms r s l)) \<le> 1" using run_mws_errors_bound[of ms r s l] by linarith
  then show ?thesis unfolding run_chain_length by arith
qed


subsection \<open>Status codes\<close>

text \<open>The status line of a response, and the errors whose status the specification allows
  (400 and 404, and the 500 of a throw).\<close>

fun http_status :: "('a, 'm) response \<Rightarrow> nat" where
  "http_status (Json n x) = n"
| "http_status (Error_Json n m) = n"
| "http_status Server_Error = 500"
| "http_status (Send_Status n) = n"

fun status_ok :: "'m error \<Rightarrow> bool" where
  "status_ok (Http_Error n m) = (n = 400 \<or> n = 404)"
| "status_ok Type_Error = True"

definition mw_errors_ok :: "('s, 'l, 'm) middleware \<Rightarrow> request \<Rightarrow> 's \<Rightarrow> bool" where
  "mw_errors_ok m r s \<longleftrightarrow>
     (\<forall>l. case m r s l of Pass l' \<Rightarrow> True | Fail e \<Rightarrow> status_ok e | Fail_Pass e l' \<Rightarrow> status_ok e)"

lemma run_mws_errors_ok:
  assumes "\<forall>m\<in>set ms. mw_errors_ok m r s"
  shows "(\<forall>e\<in>set (fst (run_mws ms r s l)). status_ok e) \<and> (\<forall>e. snd (run_mws ms r s l) = Inl e \<longrightarrow> status_ok e)"
  using assms
proof (induction ms arbitrary: l)
  case Nil
  then show ?case by simp
next
  case (Cons m ms)
  then have ok: "case m r s l of Pass l' \<Rightarrow> True | Fail e \<Rightarrow> status_ok e | Fail_Pass e l' \<Rightarrow> status_ok e"
    by (simp add: mw_errors_ok_def)
  show ?case
  proof (cases "m r s l")
    case (Pass x)
    with Cons show ?thesis by simp
  next
    case (Fail e)
    with ok show ?thesis by simp
  next
    case (Fail_Pass e x)
    with ok Cons.IH[of x] Cons.prems show ?thesis by (simp add: case_prod_beta)
  qed
qed

lemma run_chain_statuses:
  assumes "\<forall>m\<in>set ms. mw_errors_ok m r s" "\<forall>l e. h r s l = Inl e \<longrightarrow> status_ok e"
    and "x \<in> set (fst (run_chain ms h r s l))"
  shows "(\<exists>e. status_ok e \<and> x = error_response e) \<or> (\<exists>l' s'. h r s l' = Inr (s', x))"
proof -
  note ok = run_mws_errors_ok[OF assms(1), of l]
  obtain es y where mws: "run_mws ms r s l = (es, y)" by (cases "run_mws ms r s l")
  show ?thesis
  proof (cases y)
    case (Inl e)
    with assms(3) ok mws show ?thesis by (auto simp: run_chain_def)
  next
    case (Inr l')
    then show ?thesis
      using assms(2,3) ok mws by (fastforce simp: run_chain_def split: sum.splits)
  qed
qed


text \<open>A response that is not an error report is the handler's, with the chain's final state.\<close>

lemma run_chain_handler_response:
  assumes "x \<in> set (fst (run_chain ms h r s l))" and "\<forall>e. x \<noteq> error_response e"
  shows "\<exists>l'. h r s l' = Inr (snd (run_chain ms h r s l), x)"
  using assms by (auto simp: run_chain_def split: prod.splits sum.splits)

end
