(* ===== verification/Dishes.thy ===== *)
theory Dishes
  imports Pipeline
begin

text \<open>
  The dish controller, \<open>src/dishes/dishes.controller.js\<close>: the module-level array
  \<open>dishes\<close>, the validators \<open>dishExists\<close>, \<open>validateDishId\<close>, \<open>validatePrice\<close> and
  \<open>bodyDataHas(p)\<close>, the handlers \<open>list\<close>, \<open>read\<close>, \<open>update\<close>, \<open>create\<close>, and the
  chains of \<open>module.exports\<close>. The array and the counter of the identifier generator are
  the state; \<open>res.locals.dish\<close>, a reference into the array, is the index of the dish.
  Then: the behaviour of each route on every branch, the invariant that identifiers are
  unique and fresh, and the reachable states of the controller.
\<close>

subsection \<open>Data\<close>

record dish =
  dish_id :: string
  name :: jval
  description :: jval
  price :: jval
  image_url :: jval

record dish_state =
  dishes :: "dish list"
  dish_seq :: nat  \<comment> \<open>the next identifier \<open>nextId()\<close> hands out\<close>

text \<open>The \<open>message\<close> of each error the validators raise.\<close>

datatype dish_msg =
    Dish_Not_Found string           \<comment> \<open>\<open>Dish does not exist: ${dishId}.\<close>\<close>
  | Dish_Id_Mismatch jval string    \<comment> \<open>\<open>Dish id does not match route id. ...\<close>\<close>
  | Dish_Must_Include string        \<comment> \<open>\<open>Dish must include a ${propertyName}\<close>\<close>
  | Dish_Bad_Price                  \<comment> \<open>\<open>Dish must have a price that is ...\<close>\<close>

fun dish_msg_text :: "dish_msg \<Rightarrow> string option" where
  "dish_msg_text (Dish_Not_Found i) = Some (''Dish does not exist: '' @ i @ ''.'')"
| "dish_msg_text (Dish_Id_Mismatch v i) =
     map_option (\<lambda>t. ''Dish id does not match route id. Dish: '' @ t @ '', Route: '' @ i)
       (js_to_string v)"
| "dish_msg_text (Dish_Must_Include p) = Some (''Dish must include a '' @ p)"
| "dish_msg_text Dish_Bad_Price = Some ''Dish must have a price that is an integer greater than 0''"

text \<open>The \<open>data\<close> of a successful response.\<close>

datatype dish_payload =
    All_Dishes "dish list"
  | The_Dish dish
  | No_Dish  \<comment> \<open>\<open>{ data: undefined }\<close>, serialised as \<open>{}\<close>\<close>

type_synonym dish_locals = "nat option"
type_synonym dish_mw = "(dish_state, dish_locals, dish_msg) middleware"
type_synonym dish_handler = "(dish_state, dish_locals, dish_msg, dish_payload) handler"

text \<open>\<open>const { data: { name, description, price, image_url } = {} } = req.body\<close>.\<close>

definition dish_fields :: "jval \<Rightarrow> (jval \<times> jval \<times> jval \<times> jval) option" where
  "dish_fields body =
     (case body_data body of
        None \<Rightarrow> None
      | Some d \<Rightarrow>
          (case (js_get d ''name'', js_get d ''description'', js_get d ''price'', js_get d ''image_url'') of
             (Some n, Some de, Some p, Some im) \<Rightarrow> Some (n, de, p, im)
           | _ \<Rightarrow> None))"

subsection \<open>Validators and handlers, in the order of the source\<close>

definition dish_list :: dish_handler where
  "dish_list r s l = Inr (s, Json 200 (All_Dishes (dishes s)))"

definition dishExists :: dish_mw where
  "dishExists r s l =
     (case find_index (\<lambda>d. dish_id d = req_param r) (dishes s) of
        Some i \<Rightarrow> Pass (Some i)
      | None \<Rightarrow> Fail (Http_Error 404 (Dish_Not_Found (req_param r))))"

definition validateDishId :: dish_mw where
  "validateDishId r s l =
     (case body_field_or (req_body r) ''id'' of
        None \<Rightarrow> Fail Type_Error
      | Some v \<Rightarrow>
          if truthy v then
            (case l of
               None \<Rightarrow> Fail Type_Error
             | Some i \<Rightarrow>
                 if v \<noteq> JStr (dish_id (dishes s ! i))
                 then Fail_Pass (Http_Error 400 (Dish_Id_Mismatch v (dish_id (dishes s ! i)))) l
                 else Pass l)
          else Pass l)"

definition dish_read :: dish_handler where
  "dish_read r s l =
     Inr (s, Json 200 (case l of None \<Rightarrow> No_Dish | Some i \<Rightarrow> The_Dish (dishes s ! i)))"

definition dish_update :: dish_handler where
  "dish_update r s l =
     (case dish_fields (req_body r) of
        None \<Rightarrow> Inl Type_Error
      | Some (n, de, p, im) \<Rightarrow>
          (case l of
             None \<Rightarrow> Inl Type_Error
           | Some i \<Rightarrow>
               (let d = (dishes s ! i)\<lparr>name := n, description := de, price := p, image_url := im\<rparr>
                in Inr (s\<lparr>dishes := (dishes s)[i := d]\<rparr>, Json 200 (The_Dish d)))))"

definition dish_create :: dish_handler where
  "dish_create r s l =
     (case dish_fields (req_body r) of
        None \<Rightarrow> Inl Type_Error
      | Some (n, de, p, im) \<Rightarrow>
          (let d = \<lparr>dish_id = nextId (dish_seq s), name = n, description = de, price = p,
                    image_url = im\<rparr>
           in Inr (s\<lparr>dishes := dishes s @ [d], dish_seq := Suc (dish_seq s)\<rparr>, Json 201 (The_Dish d))))"

definition validatePrice :: dish_mw where
  "validatePrice r s l =
     (case body_data (req_body r) of
        None \<Rightarrow> Fail Type_Error
      | Some d \<Rightarrow>
          (case js_get d ''price'' of
             None \<Rightarrow> Fail Type_Error
           | Some p \<Rightarrow>
               if js_is_integer p \<and> js_positive p then Pass l
               else Fail (Http_Error 400 Dish_Bad_Price)))"

definition dish_bodyDataHas :: "string \<Rightarrow> dish_mw" where
  "dish_bodyDataHas p r s l =
     (case body_data (req_body r) of
        None \<Rightarrow> Fail Type_Error
      | Some d \<Rightarrow>
          (case js_get d p of
             None \<Rightarrow> Fail Type_Error
           | Some v \<Rightarrow> if truthy v then Pass l else Fail (Http_Error 400 (Dish_Must_Include p))))"

subsection \<open>The exported chains\<close>

definition dish_create_mws :: "dish_mw list" where
  "dish_create_mws =
     [dish_bodyDataHas ''name'', dish_bodyDataHas ''description'',
      dish_bodyDataHas ''image_url'', validatePrice]"

definition dish_read_mws :: "dish_mw list" where
  "dish_read_mws = [dishExists]"

definition dish_update_mws :: "dish_mw list" where
  "dish_update_mws =
     [dishExists, validateDishId, dish_bodyDataHas ''name'', dish_bodyDataHas ''description'',
      dish_bodyDataHas ''image_url'', validatePrice]"

text \<open>The routes \<open>GET /dishes\<close>, \<open>POST /dishes\<close>, \<open>GET /dishes/:dishId\<close>,
  \<open>PUT /dishes/:dishId\<close>; \<open>res.locals\<close> starts empty.\<close>

datatype dish_route = List_Dishes | Create_Dish | Read_Dish | Update_Dish

fun dish_request :: "dish_route \<Rightarrow> request \<Rightarrow> dish_state \<Rightarrow>
                     (dish_payload, dish_msg) response list \<times> dish_state" where
  "dish_request List_Dishes r s = run_chain [] dish_list r s None"
| "dish_request Create_Dish r s = run_chain dish_create_mws dish_create r s None"
| "dish_request Read_Dish r s = run_chain dish_read_mws dish_read r s None"
| "dish_request Update_Dish r s = run_chain dish_update_mws dish_update r s None"

subsection \<open>The validators on an object payload\<close>

text \<open>
  When \<open>req.body.data\<close> is an object (or absent, which the default turns into \<open>{}\<close>),
  each validator is a test of one field.
\<close>

lemma dish_bodyDataHas_obj [chain_simps]:
  "body_data (req_body r) = Some (JObj kvs) \<Longrightarrow>
   dish_bodyDataHas p r s l =
     (if truthy (obj_lookup kvs p) then Pass l else Fail (Http_Error 400 (Dish_Must_Include p)))"
  by (simp add: dish_bodyDataHas_def)

lemma validatePrice_obj [chain_simps]:
  "body_data (req_body r) = Some (JObj kvs) \<Longrightarrow>
   validatePrice r s l =
     (if js_is_integer (obj_lookup kvs ''price'') \<and> js_positive (obj_lookup kvs ''price'') then Pass l
      else Fail (Http_Error 400 Dish_Bad_Price))"
  by (simp add: validatePrice_def)

lemma dish_fields_obj [chain_simps]:
  "body_data (req_body r) = Some (JObj kvs) \<Longrightarrow>
   dish_fields (req_body r) =
     Some (obj_lookup kvs ''name'', obj_lookup kvs ''description'', obj_lookup kvs ''price'',
           obj_lookup kvs ''image_url'')"
  by (simp add: dish_fields_def)

lemma dishExists_found [chain_simps]:
  "find_index (\<lambda>d. dish_id d = req_param r) (dishes s) = Some i \<Longrightarrow> dishExists r s l = Pass (Some i)"
  by (simp add: dishExists_def)

lemma dishExists_missing [chain_simps]:
  "\<forall>d\<in>set (dishes s). dish_id d \<noteq> req_param r \<Longrightarrow>
   dishExists r s l = Fail (Http_Error 404 (Dish_Not_Found (req_param r)))"
  by (simp add: dishExists_def find_index_None_iff[THEN iffD2])

subsection \<open>The specification's view of a dish payload\<close>

text \<open>
  The four field checks of \<open>create\<close> and \<open>update\<close> in the order the specification
  gives them (name, description, image_url, price), and the dish a valid payload makes.
\<close>

definition valid_price :: "jval \<Rightarrow> bool" where
  "valid_price v \<longleftrightarrow> js_is_integer v \<and> js_positive v"

definition dish_rules :: "(((string \<times> jval) list \<Rightarrow> bool) \<times> dish_msg) list" where
  "dish_rules =
     [(\<lambda>kvs. truthy (obj_lookup kvs ''name''), Dish_Must_Include ''name''),
      (\<lambda>kvs. truthy (obj_lookup kvs ''description''), Dish_Must_Include ''description''),
      (\<lambda>kvs. truthy (obj_lookup kvs ''image_url''), Dish_Must_Include ''image_url''),
      (\<lambda>kvs. valid_price (obj_lookup kvs ''price''), Dish_Bad_Price)]"

definition new_dish :: "dish_state \<Rightarrow> (string \<times> jval) list \<Rightarrow> dish" where
  "new_dish s kvs =
     \<lparr>dish_id = nextId (dish_seq s), name = obj_lookup kvs ''name'',
      description = obj_lookup kvs ''description'', price = obj_lookup kvs ''price'',
      image_url = obj_lookup kvs ''image_url''\<rparr>"

definition overwrite_dish :: "dish \<Rightarrow> (string \<times> jval) list \<Rightarrow> dish" where
  "overwrite_dish d kvs =
     d\<lparr>name := obj_lookup kvs ''name'', description := obj_lookup kvs ''description'',
       price := obj_lookup kvs ''price'', image_url := obj_lookup kvs ''image_url''\<rparr>"

lemma dish_field_checks:
  "body_data (req_body r) = Some (JObj kvs) \<Longrightarrow>
   run_mws ([dish_bodyDataHas ''name'', dish_bodyDataHas ''description'',
             dish_bodyDataHas ''image_url'', validatePrice] @ ms) r s l =
     (case first_failure dish_rules kvs of
        Some m \<Rightarrow> ([], Inl (Http_Error 400 m))
      | None \<Rightarrow> run_mws ms r s l)"
  by (simp add: chain_simps dish_rules_def valid_price_def)

lemma validateDishId_obj [chain_simps]:
  "js_get (req_body r) ''data'' = Some (JObj kvs) \<Longrightarrow>
   validateDishId r s (Some i) =
     (if truthy (obj_lookup kvs ''id'') \<and> obj_lookup kvs ''id'' \<noteq> JStr (dish_id (dishes s ! i))
      then Fail_Pass (Http_Error 400 (Dish_Id_Mismatch (obj_lookup kvs ''id'') (dish_id (dishes s ! i))))
             (Some i)
      else Pass (Some i))"
  by (simp add: validateDishId_def)

text \<open>The update route on an existing dish and an object payload, every branch at once.\<close>

lemma dish_update_run:
  assumes "find_index (\<lambda>d. dish_id d = req_param r) (dishes s) = Some i"
    and "js_get (req_body r) ''data'' = Some (JObj kvs)"
  shows "dish_request Update_Dish r s =
    (let v = obj_lookup kvs ''id''; d = dishes s ! i;
         pre = (if truthy v \<and> v \<noteq> JStr (dish_id d)
                then [Error_Json 400 (Dish_Id_Mismatch v (dish_id d))] else [])
     in case first_failure dish_rules kvs of
          Some m \<Rightarrow> (pre @ [Error_Json 400 m], s)
        | None \<Rightarrow> (pre @ [Json 200 (The_Dish (overwrite_dish d kvs))],
                   s\<lparr>dishes := (dishes s)[i := overwrite_dish d kvs]\<rparr>))"
proof -
  have data: "body_data (req_body r) = Some (JObj kvs)" using assms(2) by simp
  show ?thesis
    using assms data
    by (auto simp: dish_update_mws_def run_chain_def chain_simps dish_rules_def valid_price_def
                   dish_update_def overwrite_dish_def Let_def)
qed

lemma dish_validators_no_fail_pass:
  "no_fail_pass (dish_bodyDataHas p r s l)"
  "no_fail_pass (validatePrice r s l)"
  "no_fail_pass (dishExists r s l)"
  by (simp_all add: no_fail_pass_def dish_bodyDataHas_def validatePrice_def dishExists_def
                split: option.splits)

subsection \<open>The identifier invariant\<close>

text \<open>
  Identifiers are unique in the collection, and none of them is one that \<open>nextId\<close>
  will still hand out.
\<close>

definition dish_inv :: "dish_state \<Rightarrow> bool" where
  "dish_inv s \<longleftrightarrow>
     distinct (map dish_id (dishes s)) \<and>
     (\<forall>d\<in>set (dishes s). \<forall>k. dish_id d = nextId k \<longrightarrow> k < dish_seq s)"

lemma dish_create_result:
  "dish_create r s l = Inr (s', resp) \<Longrightarrow>
   \<exists>d. dish_id d = nextId (dish_seq s) \<and> resp = Json 201 (The_Dish d) \<and>
       s' = s\<lparr>dishes := dishes s @ [d], dish_seq := Suc (dish_seq s)\<rparr>"
  by (auto simp: dish_create_def Let_def split: option.splits)

lemma dish_inv_fresh:
  assumes "dish_inv s"
  shows "nextId (dish_seq s) \<notin> dish_id ` set (dishes s)"
proof
  assume "nextId (dish_seq s) \<in> dish_id ` set (dishes s)"
  then obtain x where "x \<in> set (dishes s)" "dish_id x = nextId (dish_seq s)"
    by auto
  with assms have "dish_seq s < dish_seq s" by (auto simp: dish_inv_def)
  then show False by simp
qed

lemma dish_create_inv:
  assumes "dish_inv s" "dish_create r s l = Inr (s', resp)"
  shows "dish_inv s'"
proof -
  obtain d where d: "dish_id d = nextId (dish_seq s)"
    and s': "s' = s\<lparr>dishes := dishes s @ [d], dish_seq := Suc (dish_seq s)\<rparr>"
    using dish_create_result[OF assms(2)] by blast
  have "dish_id d \<notin> dish_id ` set (dishes s)"
    using dish_inv_fresh[OF assms(1)] d by simp
  with assms(1) d s' show ?thesis
    by (auto simp: dish_inv_def less_Suc_eq)
qed

lemma dish_update_ids:
  "dish_update r s l = Inr (s', resp) \<Longrightarrow> map dish_id (dishes s') = map dish_id (dishes s)"
  by (auto simp: dish_update_def Let_def map_update map_update_nth_same split: option.splits)

lemma dish_update_inv:
  assumes "dish_inv s" "dish_update r s l = Inr (s', resp)"
  shows "dish_inv s'"
proof -
  have ids: "map dish_id (dishes s') = map dish_id (dishes s)"
    using assms(2) by (rule dish_update_ids)
  then have img: "dish_id ` set (dishes s') = dish_id ` set (dishes s)"
    by (metis set_map)
  have seq: "dish_seq s' = dish_seq s"
    using assms(2) by (auto simp: dish_update_def Let_def split: option.splits)
  have "\<forall>d\<in>set (dishes s'). \<forall>k. dish_id d = nextId k \<longrightarrow> k < dish_seq s'"
  proof (intro ballI allI impI)
    fix d k assume "d \<in> set (dishes s')" "dish_id d = nextId k"
    then obtain x where "x \<in> set (dishes s)" "dish_id x = nextId k"
      using img by (metis imageE image_eqI)
    with assms(1) seq show "k < dish_seq s'" by (simp add: dish_inv_def)
  qed
  with ids assms(1) show ?thesis by (simp add: dish_inv_def)
qed

lemma dish_request_inv:
  "dish_inv s \<Longrightarrow> dish_inv (snd (dish_request rt r s))"
proof (cases rt)
  case List_Dishes
  then show "dish_inv s \<Longrightarrow> ?thesis"
    by (auto intro: run_chain_preserves simp: dish_list_def)
next
  case Create_Dish
  then show "dish_inv s \<Longrightarrow> ?thesis"
    by (auto intro: run_chain_preserves dish_create_inv)
next
  case Read_Dish
  then show "dish_inv s \<Longrightarrow> ?thesis"
    by (auto intro: run_chain_preserves simp: dish_read_def)
next
  case Update_Dish
  then show "dish_inv s \<Longrightarrow> ?thesis"
    by (auto intro: run_chain_preserves dish_update_inv)
qed

text \<open>The states the controller reaches from a start state by any sequence of requests.\<close>

inductive dish_reachable :: "dish_state \<Rightarrow> dish_state \<Rightarrow> bool" for s0 where
  start: "dish_reachable s0 s0"
| step: "dish_reachable s0 s \<Longrightarrow> dish_reachable s0 (snd (dish_request rt r s))"

lemma dish_reachable_inv:
  "dish_reachable s0 s \<Longrightarrow> dish_inv s0 \<Longrightarrow> dish_inv s"
  by (induction rule: dish_reachable.induct) (auto intro: dish_request_inv)

subsection \<open>The collection as a store\<close>

text \<open>
  The store the collection implements: identifiers to dishes, as \<open>find\<close> sees the array.
  Its operations, per route: reads leave it alone, \<open>create\<close> binds a fresh identifier,
  \<open>update\<close> rebinds the route's identifier, which must be bound, to a dish with that
  identifier. Every route may also leave it unchanged (a failed validation).
\<close>

definition dish_store :: "dish_state \<Rightarrow> string \<rightharpoonup> dish" where
  "dish_store s = key_map dish_id (dishes s)"

inductive dish_store_step :: "dish_route \<Rightarrow> request \<Rightarrow> (string \<rightharpoonup> dish) \<Rightarrow> (string \<rightharpoonup> dish) \<Rightarrow> bool" where
  keep: "dish_store_step rt r m m"
| insert: "m (dish_id d) = None \<Longrightarrow> dish_store_step Create_Dish r m (m(dish_id d \<mapsto> d))"
| replace: "m (req_param r) = Some d0 \<Longrightarrow> dish_id d = req_param r \<Longrightarrow>
            dish_store_step Update_Dish r m (m(req_param r \<mapsto> d))"

text \<open>No dish request unbinds an identifier.\<close>

lemma dish_store_step_dom: "dish_store_step rt r m m' \<Longrightarrow> dom m \<subseteq> dom m'"
  by (induction rule: dish_store_step.induct) auto

lemma dish_update_result:
  "dish_update r s l = Inr (s', resp) \<Longrightarrow>
   \<exists>i d. l = Some i \<and> dish_id d = dish_id (dishes s ! i) \<and> s' = s\<lparr>dishes := (dishes s)[i := d]\<rparr>"
proof -
  assume h: "dish_update r s l = Inr (s', resp)"
  then obtain n de p im i where f: "dish_fields (req_body r) = Some (n, de, p, im)" and l: "l = Some i"
    by (auto simp: dish_update_def split: option.splits)
  let ?d = "(dishes s ! i)\<lparr>name := n, description := de, price := p, image_url := im\<rparr>"
  from h f l have "s' = s\<lparr>dishes := (dishes s)[i := ?d]\<rparr>" by (simp add: dish_update_def Let_def)
  with l show ?thesis by (intro exI[of _ i] exI[of _ ?d]) simp
qed

lemma dish_update_mws_locals:
  assumes "run_mws dish_update_mws r s None = (es, Inr l')"
  shows "\<exists>i. l' = Some i \<and> find_index (\<lambda>d. dish_id d = req_param r) (dishes s) = Some i"
proof (cases "find_index (\<lambda>d. dish_id d = req_param r) (dishes s)")
  case None
  then have "dishExists r s None = Fail (Http_Error 404 (Dish_Not_Found (req_param r)))"
    by (simp add: dishExists_def)
  with assms show ?thesis by (simp add: dish_update_mws_def)
next
  case (Some i)
  let ?rest = "[validateDishId, dish_bodyDataHas ''name'', dish_bodyDataHas ''description'',
                dish_bodyDataHas ''image_url'', validatePrice]"
  have "\<forall>m\<in>set ?rest. keeps_locals m"
    by (auto simp: keeps_locals_def validateDishId_def dish_bodyDataHas_def validatePrice_def
             split: option.splits outcome.splits)
  moreover have "run_mws ?rest r s (Some i) = (es, Inr l')"
    using assms Some by (simp add: dish_update_mws_def chain_simps)
  ultimately have "l' = Some i" by (rule run_mws_keeps_locals)
  with Some show ?thesis by simp
qed

lemma dish_create_store:
  assumes "dish_inv s" "dish_create r s l = Inr (s', resp)"
  shows "dish_store_step Create_Dish r (dish_store s) (dish_store s')"
proof -
  obtain d where d: "dish_id d = nextId (dish_seq s)"
    and s': "s' = s\<lparr>dishes := dishes s @ [d], dish_seq := Suc (dish_seq s)\<rparr>"
    using dish_create_result[OF assms(2)] by blast
  have fresh: "dish_id d \<notin> dish_id ` set (dishes s)" using dish_inv_fresh[OF assms(1)] d by simp
  then have "dish_store s' = (dish_store s)(dish_id d \<mapsto> d)"
    using s' by (simp add: dish_store_def key_map_append_fresh)
  moreover have "dish_store s (dish_id d) = None"
    using fresh by (simp add: dish_store_def key_map_None_iff)
  ultimately show ?thesis by (simp add: dish_store_step.insert)
qed

lemma dish_update_store:
  assumes "dish_inv s" "run_mws dish_update_mws r s None = (es, Inr l')"
    and "dish_update r s l' = Inr (s', resp)"
  shows "dish_store_step Update_Dish r (dish_store s) (dish_store s')"
proof -
  obtain i where l': "l' = Some i" and i: "find_index (\<lambda>d. dish_id d = req_param r) (dishes s) = Some i"
    using dish_update_mws_locals[OF assms(2)] by blast
  obtain d where d: "dish_id d = dish_id (dishes s ! i)" and s': "s' = s\<lparr>dishes := (dishes s)[i := d]\<rparr>"
    using dish_update_result[OF assms(3)] l' by auto
  have key: "dish_id (dishes s ! i) = req_param r" using find_index_Some_nth[OF i] by simp
  have "dish_store s' = (dish_store s)(dish_id d \<mapsto> d)"
    using assms(1) s' d find_index_Some_lt[OF i]
    by (simp add: dish_store_def dish_inv_def key_map_update)
  moreover have "dish_store s (req_param r) = Some (dishes s ! i)"
    using i by (simp add: dish_store_def key_map_find_index)
  ultimately show ?thesis using d key by (simp add: dish_store_step.replace)
qed

lemma dish_request_store:
  assumes "dish_inv s"
  shows "dish_store_step rt r (dish_store s) (dish_store (snd (dish_request rt r s)))"
proof (cases rt)
  case List_Dishes
  then have "snd (dish_request rt r s) = s" by (auto intro: run_chain_read_only simp: dish_list_def)
  then show ?thesis by (simp add: dish_store_step.keep)
next
  case Read_Dish
  then have "snd (dish_request rt r s) = s" by (auto intro: run_chain_read_only simp: dish_read_def)
  then show ?thesis by (simp add: dish_store_step.keep)
next
  case Create_Dish
  then show ?thesis
    using run_chain_state_cases[of dish_create_mws dish_create r s None] assms
    by (auto intro: dish_create_store dish_store_step.keep)
next
  case Update_Dish
  then show ?thesis
    using run_chain_state_cases[of dish_update_mws dish_update r s None] assms
    by (auto intro: dish_update_store dish_store_step.keep)
qed

subsection \<open>Responses and sizes\<close>

text \<open>Only the update chain has a validator that can report an error and go on.\<close>

lemma dish_request_responses:
  "length (fst (dish_request rt r s)) = 1 \<or>
   (rt = Update_Dish \<and> length (fst (dish_request rt r s)) = 2)"
proof (cases rt)
  case Update_Dish
  have "length (filter (\<lambda>m. \<exists>l'. \<not> no_fail_pass (m r s l')) dish_update_mws) \<le> 1"
    by (simp add: dish_update_mws_def dish_validators_no_fail_pass)
  from run_chain_two_responses[OF this, of dish_update None] Update_Dish show ?thesis by simp
qed (simp_all add: run_chain_one_response dish_create_mws_def dish_read_mws_def dish_validators_no_fail_pass)

text \<open>A request adds at most one dish, removes none, and advances the counter by at most one.\<close>

lemma dish_request_bounds:
  "length (dishes s) \<le> length (dishes (snd (dish_request rt r s))) \<and>
   length (dishes (snd (dish_request rt r s))) \<le> Suc (length (dishes s)) \<and>
   dish_seq s \<le> dish_seq (snd (dish_request rt r s)) \<and>
   dish_seq (snd (dish_request rt r s)) \<le> Suc (dish_seq s)"
proof -
  let ?P = "\<lambda>x. length (dishes s) \<le> length (dishes x) \<and> length (dishes x) \<le> Suc (length (dishes s)) \<and>
                dish_seq s \<le> dish_seq x \<and> dish_seq x \<le> Suc (dish_seq s)"
  have create: "?P s'" if "dish_create r s l = Inr (s', resp)" for l s' resp
    using dish_create_result[OF that] by auto
  have update: "?P s'" if "dish_update r s l = Inr (s', resp)" for l s' resp
    using dish_update_result[OF that] by auto
  have list: "?P s'" if "dish_list r s l = Inr (s', resp)" for l s' resp
    using that by (auto simp: dish_list_def)
  have read: "?P s'" if "dish_read r s l = Inr (s', resp)" for l s' resp
    using that by (auto simp: dish_read_def)
  have gen: "?P (snd (run_chain ms h r s None))"
    if "\<And>l s' resp. h r s l = Inr (s', resp) \<Longrightarrow> ?P s'" for ms h
    by (rule run_chain_preserves) (simp_all add: that)
  show ?thesis
  proof (cases rt)
    case List_Dishes
    then show ?thesis using gen[OF list] by simp
  next
    case Create_Dish
    then show ?thesis using gen[OF create] by simp
  next
    case Read_Dish
    then show ?thesis using gen[OF read] by simp
  next
    case Update_Dish
    then show ?thesis using gen[OF update] by simp
  qed
qed

subsection \<open>Status codes of the dish routes\<close>

lemma dish_mws_errors_ok:
  "mw_errors_ok (dish_bodyDataHas p) r s" "mw_errors_ok validatePrice r s"
  "mw_errors_ok dishExists r s" "mw_errors_ok validateDishId r s"
  by (simp_all add: mw_errors_ok_def dish_bodyDataHas_def validatePrice_def dishExists_def
                    validateDishId_def split: option.splits)

text \<open>Every response of a dish route is an error with status 400, 404 or 500, or the
  handler's answer: 201 for create, 200 otherwise.\<close>

lemma dish_request_statuses:
  assumes "x \<in> set (fst (dish_request rt r s))"
  shows "(\<exists>e. status_ok e \<and> x = error_response e) \<or> (\<exists>p. x = Json (if rt = Create_Dish then 201 else 200) p)"
proof -
  have mws: "\<forall>m\<in>set dish_create_mws. mw_errors_ok m r s" "\<forall>m\<in>set dish_read_mws. mw_errors_ok m r s"
    "\<forall>m\<in>set dish_update_mws. mw_errors_ok m r s"
    by (auto simp: dish_create_mws_def dish_read_mws_def dish_update_mws_def dish_mws_errors_ok)
  have inl: "\<forall>l e. dish_read r s l = Inl e \<longrightarrow> status_ok e"
    "\<forall>l e. dish_create r s l = Inl e \<longrightarrow> status_ok e" "\<forall>l e. dish_update r s l = Inl e \<longrightarrow> status_ok e"
    by (auto simp: dish_list_def dish_read_def dish_create_def dish_update_def Let_def
             split: option.splits prod.splits)
  have inr: "\<And>l s' x. dish_read r s l = Inr (s', x) \<Longrightarrow> \<exists>p. x = Json 200 p"
    "\<And>l s' x. dish_create r s l = Inr (s', x) \<Longrightarrow> \<exists>p. x = Json 201 p"
    "\<And>l s' x. dish_update r s l = Inr (s', x) \<Longrightarrow> \<exists>p. x = Json 200 p"
    by (auto simp: dish_list_def dish_read_def dish_create_def dish_update_def Let_def
             split: option.splits prod.splits)
  show ?thesis
  proof (cases rt)
    case List_Dishes
    with assms show ?thesis by (simp add: run_chain_def dish_list_def)
  next
    case Create_Dish
    with assms have "x \<in> set (fst (run_chain dish_create_mws dish_create r s None))" by simp
    from run_chain_statuses[OF mws(1) inl(2) this] Create_Dish show ?thesis by (auto dest: inr(2))
  next
    case Read_Dish
    with assms have "x \<in> set (fst (run_chain dish_read_mws dish_read r s None))" by simp
    from run_chain_statuses[OF mws(2) inl(1) this] Read_Dish show ?thesis by (auto dest: inr(1))
  next
    case Update_Dish
    with assms have "x \<in> set (fst (run_chain dish_update_mws dish_update r s None))" by simp
    from run_chain_statuses[OF mws(3) inl(3) this] Update_Dish show ?thesis by (auto dest: inr(3))
  qed
qed

text \<open>A dish returned by \<open>create\<close> is the one appended, under the generator's next identifier.\<close>

lemma dish_create_response:
  assumes "Json 201 (The_Dish d) \<in> set (fst (dish_request Create_Dish r s))"
  shows "snd (dish_request Create_Dish r s) = s\<lparr>dishes := dishes s @ [d], dish_seq := Suc (dish_seq s)\<rparr> \<and>
         dish_id d = nextId (dish_seq s)"
proof -
  have "\<forall>e :: dish_msg error. Json 201 (The_Dish d) \<noteq> error_response e"
    by (intro allI, case_tac e) simp_all
  with assms obtain l' where "dish_create r s l' = Inr (snd (dish_request Create_Dish r s), Json 201 (The_Dish d))"
    using run_chain_handler_response[of "Json 201 (The_Dish d)" dish_create_mws dish_create r s None] by auto
  from dish_create_result[OF this] show ?thesis by auto
qed

subsection \<open>Behaviour of the routes\<close>

text \<open>
  C1. Creating a dish: when \<open>req.body.data\<close> is an object, the chain reports the first
  field check that fails, in the order name, description, image_url, price, with status
  400 and the collection untouched; when all pass, the new dish gets the next identifier,
  is appended, and is returned with status 201.
\<close>

theorem dish_create_behaviour:
  assumes "body_data (req_body r) = Some (JObj kvs)"
  shows "dish_request Create_Dish r s =
           (case first_failure dish_rules kvs of
              Some m \<Rightarrow> ([Error_Json 400 m], s)
            | None \<Rightarrow> ([Json 201 (The_Dish (new_dish s kvs))],
                       s\<lparr>dishes := dishes s @ [new_dish s kvs], dish_seq := Suc (dish_seq s)\<rparr>))"
proof -
  have "run_mws dish_create_mws r s None =
          (case first_failure dish_rules kvs of
             Some m \<Rightarrow> ([], Inl (Http_Error 400 m)) | None \<Rightarrow> run_mws [] r s None)"
    unfolding dish_create_mws_def
    using dish_field_checks[OF assms, where ms = "[]" and s = s and l = None]
    by (simp only: append_Nil2)
  with assms show ?thesis
    by (simp add: run_chain_def dish_create_def dish_fields_obj new_dish_def Let_def
             split: option.splits)
qed

theorem dish_create_behaviour_witness:
  "dish_request Create_Dish
     \<lparr>req_param = '''', req_body = JObj [(''data'', JObj [(''name'', JStr ''Taco''),
        (''description'', JStr ''Spicy''), (''price'', JNum 8), (''image_url'', JStr ''x'')])]\<rparr>
     \<lparr>dishes = [], dish_seq = 0\<rparr> =
   ([Json 201 (The_Dish \<lparr>dish_id = nextId 0, name = JStr ''Taco'', description = JStr ''Spicy'',
                            price = JNum 8, image_url = JStr ''x''\<rparr>)],
    \<lparr>dishes = [\<lparr>dish_id = nextId 0, name = JStr ''Taco'', description = JStr ''Spicy'',
                  price = JNum 8, image_url = JStr ''x''\<rparr>], dish_seq = 1\<rparr>)"
proof -
  let ?kvs = "[(''name'', JStr ''Taco''), (''description'', JStr ''Spicy''), (''price'', JNum 8),
               (''image_url'', JStr ''x'')]"
  let ?r = "\<lparr>req_param = '''', req_body = JObj [(''data'', JObj ?kvs)]\<rparr>"
  have "body_data (req_body ?r) = Some (JObj ?kvs)"
    by (simp add: body_data_def with_default_def obj_lookup_def)
  from dish_create_behaviour[OF this, of "\<lparr>dishes = [], dish_seq = 0\<rparr>"] show ?thesis
    by (simp add: dish_rules_def obj_lookup_def valid_price_def new_dish_def)
qed

text \<open>
  C2. Reading a dish: the first dish whose id is the route parameter, with status 200;
  when there is none, status 404 with \<open>Dish_Not_Found\<close> of the parameter. The
  collection is unchanged either way.
\<close>

theorem dish_read_behaviour:
  "dish_request Read_Dish r s =
     (case find_index (\<lambda>d. dish_id d = req_param r) (dishes s) of
        Some i \<Rightarrow> ([Json 200 (The_Dish (dishes s ! i))], s)
      | None \<Rightarrow> ([Error_Json 404 (Dish_Not_Found (req_param r))], s))"
  by (simp add: dish_read_mws_def run_chain_def dishExists_def dish_read_def split: option.splits)

text \<open>
  C3. Reading an id no dish has answers 404 with the message
  \<open>Dish does not exist: <id>.\<close>, which contains the requested id.
\<close>

theorem dish_read_missing_message:
  assumes "\<forall>d\<in>set (dishes s). dish_id d \<noteq> x"
  shows "\<exists>m t. dish_request Read_Dish \<lparr>req_param = x, req_body = b\<rparr> s = ([Error_Json 404 m], s) \<and>
               dish_msg_text m = Some t \<and> (\<exists>u w. t = u @ x @ w)"
proof -
  have "dish_request Read_Dish \<lparr>req_param = x, req_body = b\<rparr> s =
          ([Error_Json 404 (Dish_Not_Found x)], s)"
    using assms by (simp add: dish_read_mws_def run_chain_def chain_simps)
  moreover have "dish_msg_text (Dish_Not_Found x) = Some (''Dish does not exist: '' @ x @ ''.'')"
    by simp
  ultimately show ?thesis by blast
qed

theorem dish_read_missing_message_witness:
  "\<exists>m t. dish_request Read_Dish \<lparr>req_param = ''does-not-exist'', req_body = JObj []\<rparr>
             \<lparr>dishes = [], dish_seq = 0\<rparr> = ([Error_Json 404 m], \<lparr>dishes = [], dish_seq = 0\<rparr>) \<and>
          dish_msg_text m = Some t \<and> (\<exists>u w. t = u @ ''does-not-exist'' @ w)"
  by (rule dish_read_missing_message) simp

text \<open>
  C4. Updating an existing dish with a payload whose \<open>id\<close> is absent or equal to the
  route's, and whose four fields pass: the dish at that position gets the new name,
  description, price and image_url, keeps its id, and is returned with status 200.
\<close>

theorem dish_update_valid:
  assumes "find_index (\<lambda>d. dish_id d = req_param r) (dishes s) = Some i"
    and "js_get (req_body r) ''data'' = Some (JObj kvs)"
    and "\<not> truthy (obj_lookup kvs ''id'') \<or> obj_lookup kvs ''id'' = JStr (dish_id (dishes s ! i))"
    and "first_failure dish_rules kvs = None"
  shows "dish_request Update_Dish r s =
           ([Json 200 (The_Dish (overwrite_dish (dishes s ! i) kvs))],
            s\<lparr>dishes := (dishes s)[i := overwrite_dish (dishes s ! i) kvs]\<rparr>) \<and>
         dish_id (overwrite_dish (dishes s ! i) kvs) = dish_id (dishes s ! i)"
  using dish_update_run[OF assms(1,2)] assms(3,4) by (auto simp: overwrite_dish_def Let_def)

theorem dish_update_valid_witness:
  "dish_request Update_Dish
     \<lparr>req_param = ''d1'', req_body = JObj [(''data'', JObj [(''id'', JStr ''d1''), (''name'', JStr ''Pie''),
        (''description'', JStr ''Sweet''), (''price'', JNum 9), (''image_url'', JStr ''y'')])]\<rparr>
     \<lparr>dishes = [\<lparr>dish_id = ''d1'', name = JStr ''Taco'', description = JStr ''Spicy'',
                  price = JNum 8, image_url = JStr ''x''\<rparr>], dish_seq = 0\<rparr> =
   ([Json 200 (The_Dish \<lparr>dish_id = ''d1'', name = JStr ''Pie'', description = JStr ''Sweet'',
                            price = JNum 9, image_url = JStr ''y''\<rparr>)],
    \<lparr>dishes = [\<lparr>dish_id = ''d1'', name = JStr ''Pie'', description = JStr ''Sweet'',
                  price = JNum 9, image_url = JStr ''y''\<rparr>], dish_seq = 0\<rparr>)"
proof -
  let ?kvs = "[(''id'', JStr ''d1''), (''name'', JStr ''Pie''), (''description'', JStr ''Sweet''),
               (''price'', JNum 9), (''image_url'', JStr ''y'')]"
  let ?r = "\<lparr>req_param = ''d1'', req_body = JObj [(''data'', JObj ?kvs)]\<rparr>"
  let ?s = "\<lparr>dishes = [\<lparr>dish_id = ''d1'', name = JStr ''Taco'', description = JStr ''Spicy'',
                  price = JNum 8, image_url = JStr ''x''\<rparr>], dish_seq = 0\<rparr>"
  have h1: "find_index (\<lambda>d. dish_id d = req_param ?r) (dishes ?s) = Some 0" by simp
  have h2: "js_get (req_body ?r) ''data'' = Some (JObj ?kvs)" by (simp add: obj_lookup_def)
  have h3: "\<not> truthy (obj_lookup ?kvs ''id'') \<or> obj_lookup ?kvs ''id'' = JStr (dish_id (dishes ?s ! 0))"
    by (simp add: obj_lookup_def)
  have h4: "first_failure dish_rules ?kvs = None"
    by (simp add: dish_rules_def obj_lookup_def valid_price_def)
  from dish_update_valid[OF h1 h2 h3 h4] show ?thesis
    by (simp add: overwrite_dish_def obj_lookup_def)
qed

text \<open>
  C5. \<open>validateDishId\<close> calls \<open>next(err)\<close> and then \<open>next()\<close>: on an existing dish,
  a payload whose truthy \<open>id\<close> differs from the dish's id and whose fields pass is
  answered with the 400 id-mismatch error, and the rest of the chain still runs, so
  the dish is overwritten all the same.
\<close>

theorem dish_update_id_mismatch_applied:
  assumes "find_index (\<lambda>d. dish_id d = req_param r) (dishes s) = Some i"
    and "js_get (req_body r) ''data'' = Some (JObj kvs)"
    and "truthy (obj_lookup kvs ''id'')"
    and "obj_lookup kvs ''id'' \<noteq> JStr (dish_id (dishes s ! i))"
    and "first_failure dish_rules kvs = None"
  shows "dish_request Update_Dish r s =
           ([Error_Json 400 (Dish_Id_Mismatch (obj_lookup kvs ''id'') (dish_id (dishes s ! i))),
             Json 200 (The_Dish (overwrite_dish (dishes s ! i) kvs))],
            s\<lparr>dishes := (dishes s)[i := overwrite_dish (dishes s ! i) kvs]\<rparr>)"
  using dish_update_run[OF assms(1,2)] assms(3-5) by (simp add: Let_def)

theorem dish_update_id_mismatch_applied_witness:
  "dish_request Update_Dish
     \<lparr>req_param = ''d1'', req_body = JObj [(''data'', JObj [(''id'', JStr ''d2''), (''name'', JStr ''Pie''),
        (''description'', JStr ''Sweet''), (''price'', JNum 9), (''image_url'', JStr ''y'')])]\<rparr>
     \<lparr>dishes = [\<lparr>dish_id = ''d1'', name = JStr ''Taco'', description = JStr ''Spicy'',
                  price = JNum 8, image_url = JStr ''x''\<rparr>], dish_seq = 0\<rparr> =
   ([Error_Json 400 (Dish_Id_Mismatch (JStr ''d2'') ''d1''),
     Json 200 (The_Dish \<lparr>dish_id = ''d1'', name = JStr ''Pie'', description = JStr ''Sweet'',
                            price = JNum 9, image_url = JStr ''y''\<rparr>)],
    \<lparr>dishes = [\<lparr>dish_id = ''d1'', name = JStr ''Pie'', description = JStr ''Sweet'',
                  price = JNum 9, image_url = JStr ''y''\<rparr>], dish_seq = 0\<rparr>)"
proof -
  let ?kvs = "[(''id'', JStr ''d2''), (''name'', JStr ''Pie''), (''description'', JStr ''Sweet''),
               (''price'', JNum 9), (''image_url'', JStr ''y'')]"
  let ?r = "\<lparr>req_param = ''d1'', req_body = JObj [(''data'', JObj ?kvs)]\<rparr>"
  let ?s = "\<lparr>dishes = [\<lparr>dish_id = ''d1'', name = JStr ''Taco'', description = JStr ''Spicy'',
                  price = JNum 8, image_url = JStr ''x''\<rparr>], dish_seq = 0\<rparr>"
  have h1: "find_index (\<lambda>d. dish_id d = req_param ?r) (dishes ?s) = Some 0" by simp
  have h2: "js_get (req_body ?r) ''data'' = Some (JObj ?kvs)" by (simp add: obj_lookup_def)
  have h3: "truthy (obj_lookup ?kvs ''id'')" by (simp add: obj_lookup_def)
  have h4: "obj_lookup ?kvs ''id'' \<noteq> JStr (dish_id (dishes ?s ! 0))" by (simp add: obj_lookup_def)
  have h5: "first_failure dish_rules ?kvs = None"
    by (simp add: dish_rules_def obj_lookup_def valid_price_def)
  from dish_update_id_mismatch_applied[OF h1 h2 h3 h4 h5] show ?thesis
    by (simp add: overwrite_dish_def obj_lookup_def)
qed

text \<open>
  C6. A payload \<open>{"data": null}\<close> is not a validation failure: \<open>bodyDataHas\<close> reads a
  property of \<open>null\<close> and throws, so creating, and updating an existing dish, end in
  a server error (status 500) instead of the specified 400; nothing is changed.
\<close>

theorem dish_null_data_server_error:
  assumes "js_get (req_body r) ''data'' = Some JNull"
    and "find_index (\<lambda>d. dish_id d = req_param r) (dishes s) = Some i"
  shows "dish_request Create_Dish r s = ([Server_Error], s) \<and>
         dish_request Update_Dish r s = ([Server_Error], s)"
proof -
  have "body_field_or (req_body r) ''id'' = Some JUndef"
    using assms(1) by (simp add: body_field_or_def js_or_def obj_lookup_def)
  then have "validateDishId r s (Some i) = Pass (Some i)"
    by (simp add: validateDishId_def)
  moreover have "dish_bodyDataHas p r s l = Fail Type_Error" for p l
    using assms(1) by (simp add: dish_bodyDataHas_def)
  ultimately show ?thesis
    using assms by (simp add: dish_create_mws_def dish_update_mws_def run_chain_def chain_simps)
qed

theorem dish_null_data_server_error_witness:
  "dish_request Create_Dish \<lparr>req_param = ''d1'', req_body = JObj [(''data'', JNull)]\<rparr>
     \<lparr>dishes = [\<lparr>dish_id = ''d1'', name = JStr ''Taco'', description = JStr ''Spicy'',
                  price = JNum 8, image_url = JStr ''x''\<rparr>], dish_seq = 0\<rparr> =
     ([Server_Error], \<lparr>dishes = [\<lparr>dish_id = ''d1'', name = JStr ''Taco'', description = JStr ''Spicy'',
                  price = JNum 8, image_url = JStr ''x''\<rparr>], dish_seq = 0\<rparr>) \<and>
   dish_request Update_Dish \<lparr>req_param = ''d1'', req_body = JObj [(''data'', JNull)]\<rparr>
     \<lparr>dishes = [\<lparr>dish_id = ''d1'', name = JStr ''Taco'', description = JStr ''Spicy'',
                  price = JNum 8, image_url = JStr ''x''\<rparr>], dish_seq = 0\<rparr> =
     ([Server_Error], \<lparr>dishes = [\<lparr>dish_id = ''d1'', name = JStr ''Taco'', description = JStr ''Spicy'',
                  price = JNum 8, image_url = JStr ''x''\<rparr>], dish_seq = 0\<rparr>)"
  by (rule dish_null_data_server_error) (simp_all add: obj_lookup_def)

text \<open>
  C7. In every state reached from a start state whose identifiers are unique and unused
  by the generator, by any sequence of list, create, read and update requests, the
  dish identifiers are unique.
\<close>

theorem dish_reachable_unique_ids:
  assumes "dish_reachable s0 s" and "dish_inv s0"
  shows "distinct (map dish_id (dishes s))"
  using dish_reachable_inv[OF assms] by (simp add: dish_inv_def)

theorem dish_reachable_unique_ids_witness:
  "distinct (map dish_id (dishes (snd (dish_request Create_Dish
      \<lparr>req_param = '''', req_body = JObj [(''data'', JObj [(''name'', JStr ''Taco''),
        (''description'', JStr ''Spicy''), (''price'', JNum 8), (''image_url'', JStr ''x'')])]\<rparr>
      \<lparr>dishes = [], dish_seq = 0\<rparr>))))"
proof (rule dish_reachable_unique_ids)
  show "dish_inv \<lparr>dishes = [], dish_seq = 0\<rparr>" by (simp add: dish_inv_def)
  show "dish_reachable \<lparr>dishes = [], dish_seq = 0\<rparr> (snd (dish_request Create_Dish
      \<lparr>req_param = '''', req_body = JObj [(''data'', JObj [(''name'', JStr ''Taco''),
        (''description'', JStr ''Spicy''), (''price'', JNum 8), (''image_url'', JStr ''x'')])]\<rparr>
      \<lparr>dishes = [], dish_seq = 0\<rparr>))"
    by (rule dish_reachable.step [OF dish_reachable.start])
qed

text \<open>
  C8. In every reachable state (from a start state satisfying the identifier invariant),
  a dish returned by a successful create has the generator's next identifier, and no
  dish already in the collection has that identifier.
\<close>

theorem dish_create_fresh_id:
  assumes "dish_reachable s0 s" and "dish_inv s0"
    and "Json 201 (The_Dish d) \<in> set (fst (dish_request Create_Dish r s))"
  shows "dish_id d = nextId (dish_seq s) \<and> dish_id d \<notin> dish_id ` set (dishes s)"
proof -
  have inv: "dish_inv s" using dish_reachable_inv[OF assms(1,2)] .
  from dish_create_response[OF assms(3)] have "dish_id d = nextId (dish_seq s)" by simp
  with dish_inv_fresh[OF inv] show ?thesis by simp
qed

theorem dish_create_fresh_id_witness:
  "dish_id \<lparr>dish_id = nextId 0, name = JStr ''Taco'', description = JStr ''Spicy'',
            price = JNum 8, image_url = JStr ''x''\<rparr> = nextId (dish_seq \<lparr>dishes = [], dish_seq = 0\<rparr>) \<and>
   dish_id \<lparr>dish_id = nextId 0, name = JStr ''Taco'', description = JStr ''Spicy'',
            price = JNum 8, image_url = JStr ''x''\<rparr> \<notin> dish_id ` set (dishes \<lparr>dishes = [], dish_seq = 0\<rparr>)"
proof (rule dish_create_fresh_id)
  let ?s = "\<lparr>dishes = [], dish_seq = 0\<rparr>"
  let ?r = "\<lparr>req_param = '''', req_body = JObj [(''data'', JObj [(''name'', JStr ''Taco''),
        (''description'', JStr ''Spicy''), (''price'', JNum 8), (''image_url'', JStr ''x'')])]\<rparr>"
  show "dish_reachable ?s ?s" by (rule dish_reachable.start)
  show "dish_inv ?s" by (simp add: dish_inv_def)
  show "Json 201 (The_Dish \<lparr>dish_id = nextId 0, name = JStr ''Taco'', description = JStr ''Spicy'',
            price = JNum 8, image_url = JStr ''x''\<rparr>) \<in> set (fst (dish_request Create_Dish ?r ?s))"
    by (simp add: run_chain_def dish_create_mws_def chain_simps body_data_def with_default_def
                  obj_lookup_def dish_create_def dish_fields_def Let_def)
qed

text \<open>
  C9. The create and read chains never take the non-returning \<open>next(err); next()\<close>
  path, so on them the code's chain is the halting pipeline of the specification:
  exactly one response, and the collection of the halting run.
\<close>

theorem dish_create_read_halting:
  "dish_request Create_Dish r s =
     ([fst (run_chain_halting dish_create_mws dish_create r s None)],
      snd (run_chain_halting dish_create_mws dish_create r s None)) \<and>
   dish_request Read_Dish r s =
     ([fst (run_chain_halting dish_read_mws dish_read r s None)],
      snd (run_chain_halting dish_read_mws dish_read r s None))"
proof -
  have "\<And>m l'. m \<in> set dish_create_mws \<Longrightarrow> no_fail_pass (m r s l')"
    by (auto simp: dish_create_mws_def dish_validators_no_fail_pass)
  moreover have "\<And>m l'. m \<in> set dish_read_mws \<Longrightarrow> no_fail_pass (m r s l')"
    by (auto simp: dish_read_mws_def dish_validators_no_fail_pass)
  ultimately show ?thesis by (simp add: run_chain_no_fail_pass)
qed

text \<open>
  C22. The dish controller implements a store of dishes by identifier: from a start state
  satisfying the identifier invariant, in every reachable state, each request changes the
  store only by an operation the store allows for that route (none; \<open>create\<close> binding a
  fresh identifier; \<open>update\<close> rebinding the route's bound identifier to a dish with it).
\<close>

theorem dish_reachable_store_refinement:
  assumes "dish_reachable s0 s" and "dish_inv s0"
  shows "dish_store_step rt r (dish_store s) (dish_store (snd (dish_request rt r s)))"
  using dish_request_store[OF dish_reachable_inv[OF assms]] .

theorem dish_reachable_store_refinement_witness:
  "dish_store_step Create_Dish
     \<lparr>req_param = '''', req_body = JObj [(''data'', JObj [(''name'', JStr ''Taco''),
        (''description'', JStr ''Spicy''), (''price'', JNum 8), (''image_url'', JStr ''x'')])]\<rparr>
     (dish_store \<lparr>dishes = [], dish_seq = 0\<rparr>)
     (dish_store (snd (dish_request Create_Dish
        \<lparr>req_param = '''', req_body = JObj [(''data'', JObj [(''name'', JStr ''Taco''),
          (''description'', JStr ''Spicy''), (''price'', JNum 8), (''image_url'', JStr ''x'')])]\<rparr>
        \<lparr>dishes = [], dish_seq = 0\<rparr>)))"
  by (rule dish_reachable_store_refinement[OF dish_reachable.start]) (simp add: dish_inv_def)

text \<open>
  C28. When the payload carries no \<open>id\<close> (or a falsy one), \<open>validateDishId\<close> passes and
  the update chain is the specification's halting pipeline: one response, and the
  collection of the halting run.
\<close>

theorem dish_update_halting_without_id:
  assumes "js_get (req_body r) ''data'' = Some (JObj kvs)"
    and "\<not> truthy (obj_lookup kvs ''id'')"
  shows "dish_request Update_Dish r s =
           ([fst (run_chain_halting dish_update_mws dish_update r s None)],
            snd (run_chain_halting dish_update_mws dish_update r s None))"
proof -
  have "no_fail_pass (validateDishId r s l')" for l'
    using assms by (simp add: validateDishId_def no_fail_pass_def)
  then have "\<And>m l'. m \<in> set dish_update_mws \<Longrightarrow> no_fail_pass (m r s l')"
    by (auto simp: dish_update_mws_def dish_validators_no_fail_pass)
  then show ?thesis by (simp add: run_chain_no_fail_pass)
qed

theorem dish_update_halting_without_id_witness:
  "dish_request Update_Dish
     \<lparr>req_param = ''d1'', req_body = JObj [(''data'', JObj [(''name'', JStr ''Pie'')])]\<rparr>
     \<lparr>dishes = [\<lparr>dish_id = ''d1'', name = JStr ''Taco'', description = JStr ''Spicy'',
                  price = JNum 8, image_url = JStr ''x''\<rparr>], dish_seq = 0\<rparr> =
   ([fst (run_chain_halting dish_update_mws dish_update
       \<lparr>req_param = ''d1'', req_body = JObj [(''data'', JObj [(''name'', JStr ''Pie'')])]\<rparr>
       \<lparr>dishes = [\<lparr>dish_id = ''d1'', name = JStr ''Taco'', description = JStr ''Spicy'',
                  price = JNum 8, image_url = JStr ''x''\<rparr>], dish_seq = 0\<rparr> None)],
    snd (run_chain_halting dish_update_mws dish_update
       \<lparr>req_param = ''d1'', req_body = JObj [(''data'', JObj [(''name'', JStr ''Pie'')])]\<rparr>
       \<lparr>dishes = [\<lparr>dish_id = ''d1'', name = JStr ''Taco'', description = JStr ''Spicy'',
                  price = JNum 8, image_url = JStr ''x''\<rparr>], dish_seq = 0\<rparr> None))"
  by (rule dish_update_halting_without_id[where kvs = "[(''name'', JStr ''Pie'')]"])
     (simp_all add: obj_lookup_def)


text \<open>
  C39. Reading a dish right after creating it returns it: in a state with the identifier
  invariant, when \<open>POST /dishes\<close> answers 201 with a dish, \<open>GET /dishes/:dishId\<close> for that
  dish's id answers 200 with the same dish and changes nothing.
\<close>

theorem dish_create_then_read:
  assumes "dish_inv s" and "Json 201 (The_Dish d) \<in> set (fst (dish_request Create_Dish r s))"
  shows "dish_request Read_Dish \<lparr>req_param = dish_id d, req_body = b\<rparr> (snd (dish_request Create_Dish r s)) =
           ([Json 200 (The_Dish d)], snd (dish_request Create_Dish r s))"
proof -
  obtain s' where s': "snd (dish_request Create_Dish r s) = s'" by blast
  from dish_create_response[OF assms(2)] s'
  have st: "s' = s\<lparr>dishes := dishes s @ [d], dish_seq := Suc (dish_seq s)\<rparr>" and id: "dish_id d = nextId (dish_seq s)"
    by simp_all
  have "\<forall>x\<in>set (dishes s). dish_id x \<noteq> dish_id d" using dish_inv_fresh[OF assms(1)] id by force
  then have "find_index (\<lambda>x. dish_id x = dish_id d) (dishes s') = Some (length (dishes s))"
    using st by (simp add: find_index_append_None)
  with st show ?thesis unfolding s'
    by (simp add: dish_read_mws_def run_chain_def dishExists_def dish_read_def)
qed

theorem dish_create_then_read_witness:
  "dish_request Read_Dish \<lparr>req_param = nextId 0, req_body = JObj []\<rparr>
     (snd (dish_request Create_Dish
        \<lparr>req_param = '''', req_body = JObj [(''data'', JObj [(''name'', JStr ''Taco''),
          (''description'', JStr ''Spicy''), (''price'', JNum 8), (''image_url'', JStr ''x'')])]\<rparr>
        \<lparr>dishes = [], dish_seq = 0\<rparr>)) =
   ([Json 200 (The_Dish \<lparr>dish_id = nextId 0, name = JStr ''Taco'', description = JStr ''Spicy'',
                            price = JNum 8, image_url = JStr ''x''\<rparr>)],
    snd (dish_request Create_Dish
        \<lparr>req_param = '''', req_body = JObj [(''data'', JObj [(''name'', JStr ''Taco''),
          (''description'', JStr ''Spicy''), (''price'', JNum 8), (''image_url'', JStr ''x'')])]\<rparr>
        \<lparr>dishes = [], dish_seq = 0\<rparr>))"
proof -
  let ?r = "\<lparr>req_param = '''', req_body = JObj [(''data'', JObj [(''name'', JStr ''Taco''),
          (''description'', JStr ''Spicy''), (''price'', JNum 8), (''image_url'', JStr ''x'')])]\<rparr>"
  let ?d = "\<lparr>dish_id = nextId 0, name = JStr ''Taco'', description = JStr ''Spicy'', price = JNum 8,
             image_url = JStr ''x''\<rparr>"
  have h1: "dish_inv \<lparr>dishes = [], dish_seq = 0\<rparr>" by (simp add: dish_inv_def)
  have h2: "Json 201 (The_Dish ?d) \<in> set (fst (dish_request Create_Dish ?r \<lparr>dishes = [], dish_seq = 0\<rparr>))"
    by (simp add: run_chain_def dish_create_mws_def chain_simps body_data_def with_default_def
                  obj_lookup_def dish_create_def dish_fields_def Let_def)
  from dish_create_then_read[OF h1 h2, of "JObj []"] show ?thesis by simp
qed

end
