(* ===== verification/Orders.thy ===== *)
theory Orders
  imports Pipeline
begin

text \<open>
  The order controller, \<open>src/orders/orders.controller.js\<close>: the module-level array
  \<open>orders\<close>, the validators \<open>validateDishQuantity\<close> (with its loop over the order's
  dishes), \<open>orderExists\<close>, \<open>bodyDataHas(p)\<close>, \<open>validateOrderId\<close>,
  \<open>validateStatusProperty\<close>, \<open>validateOrderStatus\<close>, the handlers \<open>list\<close>, \<open>create\<close>,
  \<open>update\<close>, \<open>read\<close>, \<open>destroy\<close>, and the chains of \<open>module.exports\<close>. The state is the
  array and the identifier counter; \<open>res.locals.order\<close> is the index of the order.
  Then: the quantity loop against a first-failure specification, the behaviour of each
  route, the status rules as the code has them, and the identifier invariant.
\<close>

subsection \<open>Data\<close>

record order =
  order_id :: string
  deliverTo :: jval
  mobileNumber :: jval
  status :: jval
  order_dishes :: jval  \<comment> \<open>the order's \<open>dishes\<close> field\<close>

record order_state =
  orders :: "order list"
  order_seq :: nat

datatype order_msg =
    Order_Not_Found string          \<comment> \<open>\<open>Order does not exist: ${orderId}.\<close>\<close>
  | Order_Id_Mismatch jval string   \<comment> \<open>\<open>Order id does not match route id. ...\<close>\<close>
  | Order_Must_Include string       \<comment> \<open>\<open>Order must include a ${propertyName}\<close>\<close>
  | Order_No_Dishes                 \<comment> \<open>\<open>Order must include at least one dish.\<close>\<close>
  | Dish_No_Quantity nat            \<comment> \<open>\<open>Dish ${i} must have a quantity.\<close>\<close>
  | Dish_Bad_Quantity nat           \<comment> \<open>\<open>Dish ${i} must have a quantity that is ...\<close>\<close>
  | Order_Delivered                 \<comment> \<open>\<open>A delivered order cannot be changed\<close>\<close>
  | Order_Bad_Status                \<comment> \<open>\<open>Order must have a status of ...\<close>\<close>
  | Order_Not_Pending               \<comment> \<open>\<open>An order cannot be deleted unless it is pending.\<close>\<close>

fun order_msg_text :: "order_msg \<Rightarrow> string option" where
  "order_msg_text (Order_Not_Found i) = Some (''Order does not exist: '' @ i @ ''.'')"
| "order_msg_text (Order_Id_Mismatch v i) =
     map_option (\<lambda>t. ''Order id does not match route id. Order: '' @ t @ '', Route: '' @ i)
       (js_to_string v)"
| "order_msg_text (Order_Must_Include p) = Some (''Order must include a '' @ p)"
| "order_msg_text Order_No_Dishes = Some ''Order must include at least one dish.''"
| "order_msg_text (Dish_No_Quantity i) = Some (''Dish '' @ string_of_nat i @ '' must have a quantity.'')"
| "order_msg_text (Dish_Bad_Quantity i) =
     Some (''Dish '' @ string_of_nat i @ '' must have a quantity that is an integer greater than 0'')"
| "order_msg_text Order_Delivered = Some ''A delivered order cannot be changed''"
| "order_msg_text Order_Bad_Status =
     Some ''Order must have a status of pending, preparing, out-for-delivery, delivered''"
| "order_msg_text Order_Not_Pending = Some ''An order cannot be deleted unless it is pending.''"

datatype order_payload =
    All_Orders "order list"
  | The_Order order
  | No_Order  \<comment> \<open>\<open>{ data: undefined }\<close>\<close>

type_synonym order_locals = "nat option"
type_synonym order_mw = "(order_state, order_locals, order_msg) middleware"
type_synonym order_handler = "(order_state, order_locals, order_msg, order_payload) handler"

text \<open>\<open>const { data: { f1, ..., fn } = {} } = req.body\<close> for the given field names.\<close>

definition body_fields :: "jval \<Rightarrow> string list \<Rightarrow> jval list option" where
  "body_fields body ps =
     (case body_data body of None \<Rightarrow> None | Some d \<Rightarrow> those (map (js_get d) ps))"

subsection \<open>Validators and handlers, in the order of the source\<close>

definition order_list :: order_handler where
  "order_list r s l = Inr (s, Json 200 (All_Orders (orders s)))"

definition order_create :: order_handler where
  "order_create r s l =
     (case body_fields (req_body r) [''deliverTo'', ''mobileNumber'', ''status'', ''dishes''] of
        Some [dt, mn, st, ds] \<Rightarrow>
          (let od = \<lparr>order_id = nextId (order_seq s), deliverTo = dt, mobileNumber = mn,
                    status = js_or st (JStr ''pending''), order_dishes = ds\<rparr>
           in Inr (s\<lparr>orders := orders s @ [od], order_seq := Suc (order_seq s)\<rparr>, Json 201 (The_Order od)))
      | _ \<Rightarrow> Inl Type_Error)"

text \<open>The \<open>for\<close> loop of \<open>validateDishQuantity\<close>, from index \<open>i\<close> on.\<close>

fun check_quantities :: "nat \<Rightarrow> jval list \<Rightarrow> order_msg error option" where
  "check_quantities i [] = None"
| "check_quantities i (d # ds) =
     (case js_get d ''quantity'' of
        None \<Rightarrow> Some Type_Error
      | Some q \<Rightarrow>
          if q = JUndef \<or> q = JNull then Some (Http_Error 400 (Dish_No_Quantity i))
          else if \<not> js_is_integer q \<or> \<not> js_positive q then Some (Http_Error 400 (Dish_Bad_Quantity i))
          else check_quantities (Suc i) ds)"

definition validateDishQuantity :: order_mw where
  "validateDishQuantity r s l =
     (case body_data (req_body r) of
        None \<Rightarrow> Fail Type_Error
      | Some d \<Rightarrow>
          (case js_get d ''dishes'' of
             None \<Rightarrow> Fail Type_Error
           | Some v \<Rightarrow>
               (case js_or v (JArr []) of
                  JArr ds \<Rightarrow>
                    if ds = [] then Fail (Http_Error 400 Order_No_Dishes)
                    else (case check_quantities 0 ds of None \<Rightarrow> Pass l | Some e \<Rightarrow> Fail e)
                | _ \<Rightarrow> Fail (Http_Error 400 Order_No_Dishes))))"

definition orderExists :: order_mw where
  "orderExists r s l =
     (case find_index (\<lambda>x. order_id x = req_param r) (orders s) of
        Some i \<Rightarrow> Pass (Some i)
      | None \<Rightarrow> Fail (Http_Error 404 (Order_Not_Found (req_param r))))"

definition order_bodyDataHas :: "string \<Rightarrow> order_mw" where
  "order_bodyDataHas p r s l =
     (case body_data (req_body r) of
        None \<Rightarrow> Fail Type_Error
      | Some d \<Rightarrow>
          (case js_get d p of
             None \<Rightarrow> Fail Type_Error
           | Some v \<Rightarrow> if truthy v then Pass l else Fail (Http_Error 400 (Order_Must_Include p))))"

text \<open>\<open>update\<close> finds the order again by the route parameter, not through \<open>res.locals\<close>.\<close>

definition order_update :: order_handler where
  "order_update r s l =
     (case body_fields (req_body r) [''deliverTo'', ''mobileNumber'', ''dishes''] of
        Some [dt, mn, ds] \<Rightarrow>
          (case find_index (\<lambda>x. order_id x = req_param r) (orders s) of
             None \<Rightarrow> Inl Type_Error
           | Some i \<Rightarrow>
               (let od = (orders s ! i)\<lparr>deliverTo := dt, mobileNumber := mn, order_dishes := ds\<rparr>
                in Inr (s\<lparr>orders := (orders s)[i := od]\<rparr>, Json 200 (The_Order od))))
      | _ \<Rightarrow> Inl Type_Error)"

definition order_read :: order_handler where
  "order_read r s l =
     Inr (s, Json 200 (case l of None \<Rightarrow> No_Order | Some i \<Rightarrow> The_Order (orders s ! i)))"

definition validateOrderId :: order_mw where
  "validateOrderId r s l =
     (case body_field_or (req_body r) ''id'' of
        None \<Rightarrow> Fail Type_Error
      | Some v \<Rightarrow>
          if truthy v then
            (case l of
               None \<Rightarrow> Fail Type_Error
             | Some i \<Rightarrow>
                 if v \<noteq> JStr (order_id (orders s ! i))
                 then Fail_Pass (Http_Error 400 (Order_Id_Mismatch v (order_id (orders s ! i)))) l
                 else Pass l)
          else Pass l)"

definition validStatuses :: "jval list" where
  "validStatuses = map JStr [''pending'', ''preparing'', ''out-for-delivery'', ''delivered'']"

definition validateStatusProperty :: order_mw where
  "validateStatusProperty r s l =
     (case body_field_or (req_body r) ''status'' of
        None \<Rightarrow> Fail Type_Error
      | Some st \<Rightarrow>
          if st = JStr ''delivered'' then Fail (Http_Error 400 Order_Delivered)
          else if \<not> truthy st \<or> st \<notin> set validStatuses then Fail (Http_Error 400 Order_Bad_Status)
          else Pass l)"

definition validateOrderStatus :: order_mw where
  "validateOrderStatus r s l =
     (case find_index (\<lambda>x. order_id x = req_param r) (orders s) of
        None \<Rightarrow> Fail Type_Error
      | Some i \<Rightarrow>
          if status (orders s ! i) \<noteq> JStr ''pending'' then Fail (Http_Error 400 Order_Not_Pending)
          else Pass l)"

definition destroy :: order_handler where
  "destroy r s l =
     (case find_index (\<lambda>x. order_id x = req_param r) (orders s) of
        Some i \<Rightarrow> Inr (s\<lparr>orders := remove_nth i (orders s)\<rparr>, Send_Status 204)
      | None \<Rightarrow> Inr (s, Send_Status 204))"

subsection \<open>The exported chains\<close>

definition order_create_mws :: "order_mw list" where
  "order_create_mws =
     [order_bodyDataHas ''deliverTo'', order_bodyDataHas ''mobileNumber'',
      order_bodyDataHas ''dishes'', validateDishQuantity]"

definition order_read_mws :: "order_mw list" where
  "order_read_mws = [orderExists]"

definition order_update_mws :: "order_mw list" where
  "order_update_mws =
     [orderExists, order_bodyDataHas ''deliverTo'', order_bodyDataHas ''mobileNumber'',
      order_bodyDataHas ''dishes'', order_bodyDataHas ''status'', validateOrderId,
      validateStatusProperty, validateDishQuantity]"

definition order_delete_mws :: "order_mw list" where
  "order_delete_mws = [orderExists, validateOrderStatus]"

datatype order_route = List_Orders | Create_Order | Read_Order | Update_Order | Delete_Order

fun order_request :: "order_route \<Rightarrow> request \<Rightarrow> order_state \<Rightarrow>
                      (order_payload, order_msg) response list \<times> order_state" where
  "order_request List_Orders r s = run_chain [] order_list r s None"
| "order_request Create_Order r s = run_chain order_create_mws order_create r s None"
| "order_request Read_Order r s = run_chain order_read_mws order_read r s None"
| "order_request Update_Order r s = run_chain order_update_mws order_update r s None"
| "order_request Delete_Order r s = run_chain order_delete_mws destroy r s None"

subsection \<open>The validators on an object payload\<close>

lemma body_fields_obj [chain_simps]:
  "body_data (req_body r) = Some (JObj kvs) \<Longrightarrow>
   body_fields (req_body r) ps = Some (map (obj_lookup kvs) ps)"
proof -
  assume "body_data (req_body r) = Some (JObj kvs)"
  moreover have "map (js_get (JObj kvs)) ps = map (\<lambda>p. Some (obj_lookup kvs p)) ps" by simp
  ultimately show ?thesis by (simp only: body_fields_def option.case those_map_Some)
qed

lemma order_bodyDataHas_obj [chain_simps]:
  "body_data (req_body r) = Some (JObj kvs) \<Longrightarrow>
   order_bodyDataHas p r s l =
     (if truthy (obj_lookup kvs p) then Pass l else Fail (Http_Error 400 (Order_Must_Include p)))"
  by (simp add: order_bodyDataHas_def)

lemma validateDishQuantity_obj:
  "body_data (req_body r) = Some (JObj kvs) \<Longrightarrow> truthy (obj_lookup kvs ''dishes'') \<Longrightarrow>
   validateDishQuantity r s l =
     (case obj_lookup kvs ''dishes'' of
        JArr (d # ds) \<Rightarrow> (case check_quantities 0 (d # ds) of None \<Rightarrow> Pass l | Some e \<Rightarrow> Fail e)
      | _ \<Rightarrow> Fail (Http_Error 400 Order_No_Dishes))"
  by (auto simp: validateDishQuantity_def js_or_def split: jval.splits list.splits)

lemma validateOrderId_obj [chain_simps]:
  "js_get (req_body r) ''data'' = Some (JObj kvs) \<Longrightarrow>
   validateOrderId r s (Some i) =
     (if truthy (obj_lookup kvs ''id'') \<and> obj_lookup kvs ''id'' \<noteq> JStr (order_id (orders s ! i))
      then Fail_Pass (Http_Error 400 (Order_Id_Mismatch (obj_lookup kvs ''id'') (order_id (orders s ! i))))
             (Some i)
      else Pass (Some i))"
  by (simp add: validateOrderId_def)

lemma validateStatusProperty_obj [chain_simps]:
  "js_get (req_body r) ''data'' = Some (JObj kvs) \<Longrightarrow>
   validateStatusProperty r s l =
     (if obj_lookup kvs ''status'' = JStr ''delivered'' then Fail (Http_Error 400 Order_Delivered)
      else if \<not> truthy (obj_lookup kvs ''status'') \<or> obj_lookup kvs ''status'' \<notin> set validStatuses
      then Fail (Http_Error 400 Order_Bad_Status)
      else Pass l)"
  by (simp add: validateStatusProperty_def)

lemma orderExists_found [chain_simps]:
  "find_index (\<lambda>x. order_id x = req_param r) (orders s) = Some i \<Longrightarrow> orderExists r s l = Pass (Some i)"
  by (simp add: orderExists_def)

lemma orderExists_missing [chain_simps]:
  "\<forall>x\<in>set (orders s). order_id x \<noteq> req_param r \<Longrightarrow>
   orderExists r s l = Fail (Http_Error 404 (Order_Not_Found (req_param r)))"
  by (simp add: orderExists_def find_index_None_iff[THEN iffD2])

lemma validateOrderStatus_found [chain_simps]:
  "find_index (\<lambda>x. order_id x = req_param r) (orders s) = Some i \<Longrightarrow>
   validateOrderStatus r s l =
     (if status (orders s ! i) \<noteq> JStr ''pending'' then Fail (Http_Error 400 Order_Not_Pending) else Pass l)"
  by (simp add: validateOrderStatus_def)

subsection \<open>The quantity loop against its specification\<close>

text \<open>
  An entry of \<open>dishes\<close> is valid when its \<open>quantity\<close> is an integer greater than 0; the
  error for an invalid entry at index \<open>i\<close> distinguishes a missing quantity from a bad one,
  and an entry that is \<open>null\<close> (whose property read throws).
\<close>

definition quantity_valid :: "jval \<Rightarrow> bool" where
  "quantity_valid d \<longleftrightarrow>
     (case js_get d ''quantity'' of None \<Rightarrow> False | Some q \<Rightarrow> js_is_integer q \<and> js_positive q)"

definition quantity_error :: "nat \<Rightarrow> jval \<Rightarrow> order_msg error" where
  "quantity_error i d =
     (case js_get d ''quantity'' of
        None \<Rightarrow> Type_Error
      | Some q \<Rightarrow>
          if q = JUndef \<or> q = JNull then Http_Error 400 (Dish_No_Quantity i)
          else Http_Error 400 (Dish_Bad_Quantity i))"

subsection \<open>The specification's view of an order payload\<close>

definition order_field_rules :: "string list \<Rightarrow> (((string \<times> jval) list \<Rightarrow> bool) \<times> order_msg) list" where
  "order_field_rules ps = map (\<lambda>p. (\<lambda>kvs. truthy (obj_lookup kvs p), Order_Must_Include p)) ps"

definition new_order :: "order_state \<Rightarrow> (string \<times> jval) list \<Rightarrow> order" where
  "new_order s kvs =
     \<lparr>order_id = nextId (order_seq s), deliverTo = obj_lookup kvs ''deliverTo'',
      mobileNumber = obj_lookup kvs ''mobileNumber'',
      status = js_or (obj_lookup kvs ''status'') (JStr ''pending''),
      order_dishes = obj_lookup kvs ''dishes''\<rparr>"

definition overwrite_order :: "order \<Rightarrow> (string \<times> jval) list \<Rightarrow> order" where
  "overwrite_order od kvs =
     od\<lparr>deliverTo := obj_lookup kvs ''deliverTo'', mobileNumber := obj_lookup kvs ''mobileNumber'',
        order_dishes := obj_lookup kvs ''dishes''\<rparr>"

text \<open>The outcome of the quantity check on a payload whose \<open>dishes\<close> is truthy.\<close>

definition dishes_check :: "jval \<Rightarrow> order_msg error option" where
  "dishes_check v =
     (case v of
        JArr (d # ds) \<Rightarrow> check_quantities 0 (d # ds)
      | _ \<Rightarrow> Some (Http_Error 400 Order_No_Dishes))"

lemma order_field_checks:
  "body_data (req_body r) = Some (JObj kvs) \<Longrightarrow>
   run_mws (map order_bodyDataHas ps @ ms) r s l =
     (case first_failure (order_field_rules ps) kvs of
        Some m \<Rightarrow> ([], Inl (Http_Error 400 m))
      | None \<Rightarrow> run_mws ms r s l)"
  by (induction ps) (simp_all add: order_field_rules_def chain_simps)

lemma first_failure_order_fields:
  "first_failure (order_field_rules ps) kvs = None \<longleftrightarrow> (\<forall>p\<in>set ps. truthy (obj_lookup kvs p))"
  by (induction ps) (auto simp: order_field_rules_def)

lemma validateDishQuantity_checked [chain_simps]:
  "body_data (req_body r) = Some (JObj kvs) \<Longrightarrow> truthy (obj_lookup kvs ''dishes'') \<Longrightarrow>
   validateDishQuantity r s l =
     (case dishes_check (obj_lookup kvs ''dishes'') of None \<Rightarrow> Pass l | Some e \<Rightarrow> Fail e)"
  by (simp add: validateDishQuantity_obj dishes_check_def split: jval.splits list.splits)

subsection \<open>Running the order routes\<close>

lemma order_create_run:
  assumes "body_data (req_body r) = Some (JObj kvs)"
  shows "order_request Create_Order r s =
    (case first_failure (order_field_rules [''deliverTo'', ''mobileNumber'', ''dishes'']) kvs of
       Some m \<Rightarrow> ([Error_Json 400 m], s)
     | None \<Rightarrow>
         (case dishes_check (obj_lookup kvs ''dishes'') of
            Some e \<Rightarrow> ([error_response e], s)
          | None \<Rightarrow> ([Json 201 (The_Order (new_order s kvs))],
                     s\<lparr>orders := orders s @ [new_order s kvs], order_seq := Suc (order_seq s)\<rparr>)))"
proof -
  have fields: "run_mws order_create_mws r s None =
      (case first_failure (order_field_rules [''deliverTo'', ''mobileNumber'', ''dishes'']) kvs of
         Some m \<Rightarrow> ([], Inl (Http_Error 400 m))
       | None \<Rightarrow> run_mws [validateDishQuantity] r s None)"
    using order_field_checks[OF assms, of "[''deliverTo'', ''mobileNumber'', ''dishes'']"]
    by (simp add: order_create_mws_def)
  show ?thesis
  proof (cases "first_failure (order_field_rules [''deliverTo'', ''mobileNumber'', ''dishes'']) kvs")
    case None
    then have "truthy (obj_lookup kvs ''dishes'')" by (simp add: first_failure_order_fields)
    with None fields assms show ?thesis
      by (simp add: run_chain_def chain_simps order_create_def new_order_def Let_def
               split: option.splits)
  next
    case (Some m)
    with fields show ?thesis by (simp add: run_chain_def)
  qed
qed

lemma order_update_run:
  assumes "find_index (\<lambda>x. order_id x = req_param r) (orders s) = Some i"
    and "js_get (req_body r) ''data'' = Some (JObj kvs)"
  shows "order_request Update_Order r s =
    (case first_failure (order_field_rules [''deliverTo'', ''mobileNumber'', ''dishes'', ''status'']) kvs of
       Some m \<Rightarrow> ([Error_Json 400 m], s)
     | None \<Rightarrow>
         (let v = obj_lookup kvs ''id''; od = orders s ! i; st = obj_lookup kvs ''status'';
              pre = (if truthy v \<and> v \<noteq> JStr (order_id od)
                     then [Error_Json 400 (Order_Id_Mismatch v (order_id od))] else [])
          in if st = JStr ''delivered'' then (pre @ [Error_Json 400 Order_Delivered], s)
             else if st \<notin> set validStatuses then (pre @ [Error_Json 400 Order_Bad_Status], s)
             else (case dishes_check (obj_lookup kvs ''dishes'') of
                     Some e \<Rightarrow> (pre @ [error_response e], s)
                   | None \<Rightarrow> (pre @ [Json 200 (The_Order (overwrite_order od kvs))],
                              s\<lparr>orders := (orders s)[i := overwrite_order od kvs]\<rparr>))))"
proof -
  have data: "body_data (req_body r) = Some (JObj kvs)" using assms(2) by simp
  have fields: "run_mws order_update_mws r s None =
      (case first_failure (order_field_rules [''deliverTo'', ''mobileNumber'', ''dishes'', ''status'']) kvs of
         Some m \<Rightarrow> ([], Inl (Http_Error 400 m))
       | None \<Rightarrow> run_mws [validateOrderId, validateStatusProperty, validateDishQuantity] r s (Some i))"
    using order_field_checks[OF data, of "[''deliverTo'', ''mobileNumber'', ''dishes'', ''status'']"]
      assms(1)
    by (simp add: order_update_mws_def chain_simps)
  show ?thesis
  proof (cases "first_failure (order_field_rules [''deliverTo'', ''mobileNumber'', ''dishes'', ''status'']) kvs")
    case None
    then have t: "truthy (obj_lookup kvs ''dishes'')" "truthy (obj_lookup kvs ''status'')"
      by (simp_all add: first_failure_order_fields)
    with None fields assms data show ?thesis
      by (auto simp: run_chain_def chain_simps order_update_def overwrite_order_def Let_def
               split: option.splits)
  next
    case (Some m)
    with fields show ?thesis by (simp add: run_chain_def)
  qed
qed

text \<open>The loop reports the first invalid entry, at that entry's index.\<close>

lemma check_quantities_spec:
  "check_quantities i ds =
     map_option (\<lambda>j. quantity_error (i + j) (ds ! j)) (find_index (\<lambda>d. \<not> quantity_valid d) ds)"
proof (induction ds arbitrary: i)
  case Nil
  then show ?case by simp
next
  case (Cons d ds)
  show ?case
  proof (cases "js_get d ''quantity''")
    case None
    then show ?thesis by (simp add: quantity_valid_def quantity_error_def)
  next
    case (Some q)
    then show ?thesis
      using Cons.IH[of "Suc i"]
      by (auto simp: quantity_valid_def quantity_error_def option.map_comp comp_def
               cong: option.case_cong if_cong)
  qed
qed

lemma check_quantities_None_iff:
  "check_quantities i ds = None \<longleftrightarrow> (\<forall>d\<in>set ds. quantity_valid d)"
  by (induction ds arbitrary: i) (auto simp: quantity_valid_def split: option.splits)

lemma dishes_check_None:
  "ds \<noteq> [] \<Longrightarrow> dishes_check (JArr ds) = None \<longleftrightarrow> (\<forall>d\<in>set ds. quantity_valid d)"
  by (cases ds) (simp_all add: dishes_check_def check_quantities_None_iff del: check_quantities.simps)

lemma dishes_check_arr:
  "ds \<noteq> [] \<Longrightarrow>
   dishes_check (JArr ds) =
     map_option (\<lambda>j. quantity_error j (ds ! j)) (find_index (\<lambda>d. \<not> quantity_valid d) ds)"
  by (cases ds) (simp_all add: dishes_check_def check_quantities_spec del: check_quantities.simps)

lemma order_validators_no_fail_pass:
  "no_fail_pass (order_bodyDataHas p r s l)"
  "no_fail_pass (validateDishQuantity r s l)"
  "no_fail_pass (orderExists r s l)"
  "no_fail_pass (validateOrderStatus r s l)"
  by (simp_all add: no_fail_pass_def order_bodyDataHas_def validateDishQuantity_def orderExists_def
                    validateOrderStatus_def split: option.splits jval.splits)

subsection \<open>The identifier invariant\<close>

definition order_inv :: "order_state \<Rightarrow> bool" where
  "order_inv s \<longleftrightarrow>
     distinct (map order_id (orders s)) \<and>
     (\<forall>od\<in>set (orders s). \<forall>k. order_id od = nextId k \<longrightarrow> k < order_seq s)"

lemma order_inv_fresh:
  assumes "order_inv s"
  shows "nextId (order_seq s) \<notin> order_id ` set (orders s)"
proof
  assume "nextId (order_seq s) \<in> order_id ` set (orders s)"
  then obtain x where "x \<in> set (orders s)" "order_id x = nextId (order_seq s)" by auto
  with assms have "order_seq s < order_seq s" by (auto simp: order_inv_def)
  then show False by simp
qed

text \<open>A state with the same identifiers (or fewer), and the same counter, keeps the invariant.\<close>

lemma order_inv_subset:
  assumes "order_inv s" "distinct (map order_id (orders s'))"
    and "order_id ` set (orders s') \<subseteq> order_id ` set (orders s)" "order_seq s' = order_seq s"
  shows "order_inv s'"
proof -
  have "\<forall>od\<in>set (orders s'). \<forall>k. order_id od = nextId k \<longrightarrow> k < order_seq s'"
  proof (intro ballI allI impI)
    fix od k assume "od \<in> set (orders s')" "order_id od = nextId k"
    then obtain x where "x \<in> set (orders s)" "order_id x = nextId k"
      using assms(3) by (metis image_eqI imageE subsetD)
    with assms(1,4) show "k < order_seq s'" by (simp add: order_inv_def)
  qed
  with assms(2) show ?thesis by (simp add: order_inv_def)
qed

lemma order_create_result:
  "order_create r s l = Inr (s', resp) \<Longrightarrow>
   \<exists>od. order_id od = nextId (order_seq s) \<and> resp = Json 201 (The_Order od) \<and>
        s' = s\<lparr>orders := orders s @ [od], order_seq := Suc (order_seq s)\<rparr>"
  by (auto simp: order_create_def Let_def split: option.splits list.splits)

lemma order_create_inv:
  assumes "order_inv s" "order_create r s l = Inr (s', resp)"
  shows "order_inv s'"
proof -
  obtain od where od: "order_id od = nextId (order_seq s)"
    and s': "s' = s\<lparr>orders := orders s @ [od], order_seq := Suc (order_seq s)\<rparr>"
    using order_create_result[OF assms(2)] by blast
  have "order_id od \<notin> order_id ` set (orders s)"
    using order_inv_fresh[OF assms(1)] od by simp
  with assms(1) od s' show ?thesis
    by (auto simp: order_inv_def less_Suc_eq)
qed

lemma order_update_frame:
  assumes "order_update r s l = Inr (s', resp)"
  shows "map order_id (orders s') = map order_id (orders s) \<and>
         map status (orders s') = map status (orders s) \<and> order_seq s' = order_seq s"
  using assms
  by (auto simp: order_update_def Let_def map_update map_update_nth_same
           split: option.splits list.splits)

lemma destroy_frame:
  assumes "destroy r s l = Inr (s', resp)"
  shows "\<exists>i. orders s' = remove_nth i (orders s) \<or> orders s' = orders s"
    and "order_seq s' = order_seq s"
  using assms by (auto simp: destroy_def split: option.splits)

lemma order_update_inv:
  assumes "order_inv s" "order_update r s l = Inr (s', resp)"
  shows "order_inv s'"
proof -
  from order_update_frame[OF assms(2)] have ids: "map order_id (orders s') = map order_id (orders s)"
    and seq: "order_seq s' = order_seq s" by simp_all
  show ?thesis
  proof (rule order_inv_subset[OF assms(1)])
    show "distinct (map order_id (orders s'))" using ids assms(1) by (simp add: order_inv_def)
    show "order_id ` set (orders s') \<subseteq> order_id ` set (orders s)" using ids by (metis equalityE set_map)
    show "order_seq s' = order_seq s" by (rule seq)
  qed
qed

lemma destroy_inv:
  assumes "order_inv s" "destroy r s l = Inr (s', resp)"
  shows "order_inv s'"
proof -
  obtain i where o: "orders s' = remove_nth i (orders s) \<or> orders s' = orders s"
    using destroy_frame(1)[OF assms(2)] by blast
  show ?thesis
  proof (rule order_inv_subset[OF assms(1)])
    show "distinct (map order_id (orders s'))"
      using o assms(1) by (auto simp: order_inv_def map_remove_nth distinct_remove_nth)
    show "order_id ` set (orders s') \<subseteq> order_id ` set (orders s)"
      using o set_remove_nth_subset by (metis image_mono order_refl)
    show "order_seq s' = order_seq s" by (rule destroy_frame(2)[OF assms(2)])
  qed
qed

lemma order_request_inv:
  assumes "order_inv s"
  shows "order_inv (snd (order_request rt r s))"
proof (cases rt)
  case List_Orders
  with assms show ?thesis by (auto intro: run_chain_preserves simp: order_list_def)
next
  case Create_Order
  with assms show ?thesis by (auto intro: run_chain_preserves order_create_inv)
next
  case Read_Order
  with assms show ?thesis by (auto intro: run_chain_preserves simp: order_read_def)
next
  case Update_Order
  with assms show ?thesis by (auto intro: run_chain_preserves order_update_inv)
next
  case Delete_Order
  with assms show ?thesis by (auto intro: run_chain_preserves destroy_inv)
qed

inductive order_reachable :: "order_state \<Rightarrow> order_state \<Rightarrow> bool" for s0 where
  start: "order_reachable s0 s0"
| step: "order_reachable s0 s \<Longrightarrow> order_reachable s0 (snd (order_request rt r s))"

lemma order_reachable_inv:
  "order_reachable s0 s \<Longrightarrow> order_inv s0 \<Longrightarrow> order_inv s"
  by (induction rule: order_reachable.induct) (auto intro: order_request_inv)

subsection \<open>The collection as a store\<close>

text \<open>
  The store of orders, identifiers to orders. Reads leave it alone; \<open>create\<close> binds a
  fresh identifier; \<open>update\<close> rebinds the route's identifier to an order with the same
  identifier and the same status; \<open>delete\<close> unbinds the route's identifier, and only
  when its order is pending.
\<close>

definition order_store :: "order_state \<Rightarrow> string \<rightharpoonup> order" where
  "order_store s = key_map order_id (orders s)"

inductive order_store_step :: "order_route \<Rightarrow> request \<Rightarrow> (string \<rightharpoonup> order) \<Rightarrow> (string \<rightharpoonup> order) \<Rightarrow> bool" where
  keep: "order_store_step rt r m m"
| insert: "m (order_id od) = None \<Longrightarrow> order_store_step Create_Order r m (m(order_id od \<mapsto> od))"
| replace: "m (req_param r) = Some od0 \<Longrightarrow> order_id od = req_param r \<Longrightarrow> status od = status od0 \<Longrightarrow>
            order_store_step Update_Order r m (m(req_param r \<mapsto> od))"
| remove: "m (req_param r) = Some od0 \<Longrightarrow> status od0 = JStr ''pending'' \<Longrightarrow>
           order_store_step Delete_Order r m (m(req_param r := None))"

text \<open>Only a delete unbinds an identifier, and only the route's.\<close>

lemma order_store_step_removed:
  "order_store_step rt r m m' \<Longrightarrow> m k \<noteq> None \<Longrightarrow> m' k = None \<Longrightarrow> rt = Delete_Order \<and> req_param r = k"
  by (induction rule: order_store_step.induct) (auto split: if_splits)

lemma order_update_result:
  assumes "order_update r s l = Inr (s', resp)"
  shows "\<exists>i od. find_index (\<lambda>x. order_id x = req_param r) (orders s) = Some i \<and>
           order_id od = order_id (orders s ! i) \<and> status od = status (orders s ! i) \<and>
           s' = s\<lparr>orders := (orders s)[i := od]\<rparr>"
proof -
  obtain dt mn ds i where f: "body_fields (req_body r) [''deliverTo'', ''mobileNumber'', ''dishes''] = Some [dt, mn, ds]"
    and i: "find_index (\<lambda>x. order_id x = req_param r) (orders s) = Some i"
    using assms by (auto simp: order_update_def split: option.splits list.splits)
  let ?od = "(orders s ! i)\<lparr>deliverTo := dt, mobileNumber := mn, order_dishes := ds\<rparr>"
  from assms f i have "s' = s\<lparr>orders := (orders s)[i := ?od]\<rparr>" by (simp add: order_update_def Let_def)
  with i show ?thesis by (intro exI[of _ i] exI[of _ ?od]) simp
qed

lemma order_delete_mws_passed:
  assumes "run_mws order_delete_mws r s None = (es, Inr l')"
  shows "\<exists>i. find_index (\<lambda>x. order_id x = req_param r) (orders s) = Some i \<and>
             status (orders s ! i) = JStr ''pending''"
  using assms
  by (auto simp: order_delete_mws_def orderExists_def validateOrderStatus_def
           split: option.splits if_splits)

lemma order_create_store:
  assumes "order_inv s" "order_create r s l = Inr (s', resp)"
  shows "order_store_step Create_Order r (order_store s) (order_store s')"
proof -
  obtain od where od: "order_id od = nextId (order_seq s)"
    and s': "s' = s\<lparr>orders := orders s @ [od], order_seq := Suc (order_seq s)\<rparr>"
    using order_create_result[OF assms(2)] by blast
  have fresh: "order_id od \<notin> order_id ` set (orders s)" using order_inv_fresh[OF assms(1)] od by simp
  then have "order_store s' = (order_store s)(order_id od \<mapsto> od)"
    using s' by (simp add: order_store_def key_map_append_fresh)
  moreover have "order_store s (order_id od) = None"
    using fresh by (simp add: order_store_def key_map_None_iff)
  ultimately show ?thesis by (simp add: order_store_step.insert)
qed

lemma order_update_store:
  assumes "order_inv s" "order_update r s l = Inr (s', resp)"
  shows "order_store_step Update_Order r (order_store s) (order_store s')"
proof -
  obtain i od where i: "find_index (\<lambda>x. order_id x = req_param r) (orders s) = Some i"
    and od: "order_id od = order_id (orders s ! i)" "status od = status (orders s ! i)"
    and s': "s' = s\<lparr>orders := (orders s)[i := od]\<rparr>"
    using order_update_result[OF assms(2)] by blast
  have key: "order_id (orders s ! i) = req_param r" using find_index_Some_nth[OF i] by simp
  have "order_store s' = (order_store s)(order_id od \<mapsto> od)"
    using assms(1) s' od(1) find_index_Some_lt[OF i]
    by (simp add: order_store_def order_inv_def key_map_update)
  moreover have "order_store s (req_param r) = Some (orders s ! i)"
    using i by (simp add: order_store_def key_map_find_index)
  ultimately show ?thesis using od key by (simp add: order_store_step.replace)
qed

lemma destroy_store:
  assumes "order_inv s" "run_mws order_delete_mws r s None = (es, Inr l')"
    and "destroy r s l' = Inr (s', resp)"
  shows "order_store_step Delete_Order r (order_store s) (order_store s')"
proof -
  obtain i where i: "find_index (\<lambda>x. order_id x = req_param r) (orders s) = Some i"
    and pending: "status (orders s ! i) = JStr ''pending''"
    using order_delete_mws_passed[OF assms(2)] by blast
  have key: "order_id (orders s ! i) = req_param r" using find_index_Some_nth[OF i] by simp
  have "s' = s\<lparr>orders := remove_nth i (orders s)\<rparr>" using assms(3) i by (simp add: destroy_def)
  then have "order_store s' = (order_store s)(req_param r := None)"
    using assms(1) find_index_Some_lt[OF i] key
    by (simp add: order_store_def order_inv_def key_map_remove_nth)
  moreover have "order_store s (req_param r) = Some (orders s ! i)"
    using i by (simp add: order_store_def key_map_find_index)
  ultimately show ?thesis using pending by (simp add: order_store_step.remove)
qed

lemma order_request_store:
  assumes "order_inv s"
  shows "order_store_step rt r (order_store s) (order_store (snd (order_request rt r s)))"
proof (cases rt)
  case List_Orders
  then have "snd (order_request rt r s) = s" by (auto intro: run_chain_read_only simp: order_list_def)
  then show ?thesis by (simp add: order_store_step.keep)
next
  case Read_Order
  then have "snd (order_request rt r s) = s" by (auto intro: run_chain_read_only simp: order_read_def)
  then show ?thesis by (simp add: order_store_step.keep)
next
  case Create_Order
  then show ?thesis
    using run_chain_state_cases[of order_create_mws order_create r s None] assms
    by (auto intro: order_create_store order_store_step.keep)
next
  case Update_Order
  then show ?thesis
    using run_chain_state_cases[of order_update_mws order_update r s None] assms
    by (auto intro: order_update_store order_store_step.keep)
next
  case Delete_Order
  then show ?thesis
    using run_chain_state_cases[of order_delete_mws destroy r s None] assms
    by (auto intro: destroy_store order_store_step.keep)
qed

subsection \<open>Responses and sizes\<close>

text \<open>Only the update chain has a validator that can report an error and go on.\<close>

lemma order_request_responses:
  "length (fst (order_request rt r s)) = 1 \<or>
   (rt = Update_Order \<and> length (fst (order_request rt r s)) = 2)"
proof (cases rt)
  case Update_Order
  have "no_fail_pass (validateStatusProperty r s l)" for l
    by (simp add: no_fail_pass_def validateStatusProperty_def split: option.splits)
  then have "length (filter (\<lambda>m. \<exists>l'. \<not> no_fail_pass (m r s l')) order_update_mws) \<le> 1"
    by (simp add: order_update_mws_def order_validators_no_fail_pass)
  from run_chain_two_responses[OF this, of order_update None] Update_Order show ?thesis by simp
qed (simp_all add: run_chain_one_response order_create_mws_def order_read_mws_def order_delete_mws_def
                   order_validators_no_fail_pass)

text \<open>A request adds or removes at most one order and advances the counter by at most one.\<close>

lemma order_request_bounds:
  "length (orders (snd (order_request rt r s))) \<le> Suc (length (orders s)) \<and>
   length (orders s) \<le> Suc (length (orders (snd (order_request rt r s)))) \<and>
   order_seq s \<le> order_seq (snd (order_request rt r s)) \<and>
   order_seq (snd (order_request rt r s)) \<le> Suc (order_seq s)"
proof -
  let ?P = "\<lambda>x. length (orders x) \<le> Suc (length (orders s)) \<and> length (orders s) \<le> Suc (length (orders x)) \<and>
                order_seq s \<le> order_seq x \<and> order_seq x \<le> Suc (order_seq s)"
  have gen: "?P (snd (run_chain ms h r s None))"
    if "\<And>l s' resp. h r s l = Inr (s', resp) \<Longrightarrow> ?P s'" for ms h
    by (rule run_chain_preserves) (simp_all add: that)
  have create: "?P s'" if "order_create r s l = Inr (s', resp)" for l s' resp
    using order_create_result[OF that] by auto
  have update: "?P s'" if "order_update r s l = Inr (s', resp)" for l s' resp
    using order_update_result[OF that] by auto
  have delete: "?P s'" if "destroy r s l = Inr (s', resp)" for l s' resp
    using that find_index_Some_lt[of "\<lambda>x. order_id x = req_param r" "orders s"]
    by (auto simp: destroy_def length_remove_nth split: option.splits)
  have list: "?P s'" if "order_list r s l = Inr (s', resp)" for l s' resp
    using that by (auto simp: order_list_def)
  have read: "?P s'" if "order_read r s l = Inr (s', resp)" for l s' resp
    using that by (auto simp: order_read_def)
  show ?thesis
  proof (cases rt)
    case List_Orders
    then show ?thesis using gen[OF list] by simp
  next
    case Create_Order
    then show ?thesis using gen[OF create] by simp
  next
    case Read_Order
    then show ?thesis using gen[OF read] by simp
  next
    case Update_Order
    then show ?thesis using gen[OF update] by simp
  next
    case Delete_Order
    then show ?thesis using gen[OF delete] by simp
  qed
qed

subsection \<open>Every stored order has a status\<close>

text \<open>
  \<open>create\<close> writes \<open>status || "pending"\<close>, \<open>update\<close> never writes \<open>status\<close>, \<open>delete\<close> only
  removes: from a state where every order has a truthy status, every order keeps one.
\<close>

definition order_wf :: "order_state \<Rightarrow> bool" where
  "order_wf s \<longleftrightarrow> (\<forall>od\<in>set (orders s). truthy (status od))"

lemma order_create_status: "order_create r s l = Inr (s', resp) \<Longrightarrow> orders s' = orders s @ [od] \<Longrightarrow>
  truthy (status od)"
  by (auto simp: order_create_def Let_def js_or_def split: option.splits list.splits)

lemma order_request_wf:
  assumes "order_wf s"
  shows "order_wf (snd (order_request rt r s))"
proof -
  have create: "order_wf s'" if c: "order_create r s l = Inr (s', resp)" for l s' resp
  proof -
    obtain od where s': "s' = s\<lparr>orders := orders s @ [od], order_seq := Suc (order_seq s)\<rparr>"
      using order_create_result[OF c] by blast
    then have "truthy (status od)" using order_create_status[OF c] by simp
    with assms s' show ?thesis by (simp add: order_wf_def)
  qed
  have update: "order_wf s'" if u: "order_update r s l = Inr (s', resp)" for l s' resp
  proof -
    have "status ` set (orders s') = status ` set (orders s)"
      using order_update_frame[OF u] by (metis set_map)
    with assms show ?thesis unfolding order_wf_def by (metis image_eqI imageE)
  qed
  have delete: "order_wf s'" if d: "destroy r s l = Inr (s', resp)" for l s' resp
  proof -
    obtain i where "orders s' = remove_nth i (orders s) \<or> orders s' = orders s"
      using destroy_frame(1)[OF d] by blast
    then have "set (orders s') \<subseteq> set (orders s)" using set_remove_nth_subset[of i "orders s"] by auto
    with assms show ?thesis by (auto simp: order_wf_def)
  qed
  have ro: "snd (order_request List_Orders r s) = s" "snd (order_request Read_Order r s) = s"
    by (auto intro: run_chain_read_only simp: order_list_def order_read_def)
  show ?thesis
    using ro assms by (cases rt) (auto intro: run_chain_preserves create update delete)
qed

lemma order_reachable_wf:
  "order_reachable s0 s \<Longrightarrow> order_wf s0 \<Longrightarrow> order_wf s"
  by (induction rule: order_reachable.induct) (auto intro: order_request_wf)

subsection \<open>Status codes of the order routes\<close>

lemma check_quantities_status_ok: "check_quantities i ds = Some e \<Longrightarrow> status_ok e"
  by (induction ds arbitrary: i) (auto split: option.splits if_splits)

lemma order_mws_errors_ok:
  "mw_errors_ok (order_bodyDataHas p) r s" "mw_errors_ok validateDishQuantity r s"
  "mw_errors_ok orderExists r s" "mw_errors_ok validateOrderId r s"
  "mw_errors_ok validateStatusProperty r s" "mw_errors_ok validateOrderStatus r s"
  by (auto simp: mw_errors_ok_def order_bodyDataHas_def validateDishQuantity_def orderExists_def
                 validateOrderId_def validateStatusProperty_def validateOrderStatus_def
           split: option.splits jval.splits dest: check_quantities_status_ok)

text \<open>Every response of an order route is an error with status 400, 404 or 500, or the
  handler's answer: 201 for create, 204 for delete, 200 otherwise.\<close>

lemma order_request_statuses:
  assumes "x \<in> set (fst (order_request rt r s))"
  shows "(\<exists>e. status_ok e \<and> x = error_response e) \<or>
         (rt \<noteq> Delete_Order \<and> (\<exists>p. x = Json (if rt = Create_Order then 201 else 200) p)) \<or>
         (rt = Delete_Order \<and> x = Send_Status 204)"
proof -
  have mws: "\<forall>m\<in>set order_create_mws. mw_errors_ok m r s" "\<forall>m\<in>set order_read_mws. mw_errors_ok m r s"
    "\<forall>m\<in>set order_update_mws. mw_errors_ok m r s" "\<forall>m\<in>set order_delete_mws. mw_errors_ok m r s"
    by (auto simp: order_create_mws_def order_read_mws_def order_update_mws_def order_delete_mws_def
                   order_mws_errors_ok)
  have inl: "\<forall>l e. order_read r s l = Inl e \<longrightarrow> status_ok e"
    "\<forall>l e. order_create r s l = Inl e \<longrightarrow> status_ok e" "\<forall>l e. order_update r s l = Inl e \<longrightarrow> status_ok e"
    "\<forall>l e. destroy r s l = Inl e \<longrightarrow> status_ok e"
    by (auto simp: order_read_def order_create_def order_update_def destroy_def Let_def
             split: option.splits list.splits)
  have inr: "\<And>l s' x. order_read r s l = Inr (s', x) \<Longrightarrow> \<exists>p. x = Json 200 p"
    "\<And>l s' x. order_create r s l = Inr (s', x) \<Longrightarrow> \<exists>p. x = Json 201 p"
    "\<And>l s' x. order_update r s l = Inr (s', x) \<Longrightarrow> \<exists>p. x = Json 200 p"
    "\<And>l s' x. destroy r s l = Inr (s', x) \<Longrightarrow> x = Send_Status 204"
    by (auto simp: order_read_def order_create_def order_update_def destroy_def Let_def
             split: option.splits list.splits)
  show ?thesis
  proof (cases rt)
    case List_Orders
    with assms show ?thesis by (simp add: run_chain_def order_list_def)
  next
    case Create_Order
    with assms have "x \<in> set (fst (run_chain order_create_mws order_create r s None))" by simp
    from run_chain_statuses[OF mws(1) inl(2) this] Create_Order show ?thesis by (auto dest: inr(2))
  next
    case Read_Order
    with assms have "x \<in> set (fst (run_chain order_read_mws order_read r s None))" by simp
    from run_chain_statuses[OF mws(2) inl(1) this] Read_Order show ?thesis by (auto dest: inr(1))
  next
    case Update_Order
    with assms have "x \<in> set (fst (run_chain order_update_mws order_update r s None))" by simp
    from run_chain_statuses[OF mws(3) inl(3) this] Update_Order show ?thesis by (auto dest: inr(3))
  next
    case Delete_Order
    with assms have "x \<in> set (fst (run_chain order_delete_mws destroy r s None))" by simp
    from run_chain_statuses[OF mws(4) inl(4) this] Delete_Order show ?thesis by (auto dest: inr(4))
  qed
qed

text \<open>An order returned by \<open>create\<close> is the one appended, under the generator's next
  identifier, with the payload's status or \<open>"pending"\<close>.\<close>

lemma order_create_response:
  assumes "Json 201 (The_Order od) \<in> set (fst (order_request Create_Order r s))"
  shows "snd (order_request Create_Order r s) = s\<lparr>orders := orders s @ [od], order_seq := Suc (order_seq s)\<rparr> \<and>
         order_id od = nextId (order_seq s) \<and>
         (\<forall>kvs. body_data (req_body r) = Some (JObj kvs) \<longrightarrow>
            status od = js_or (obj_lookup kvs ''status'') (JStr ''pending''))"
proof -
  have "\<forall>e :: order_msg error. Json 201 (The_Order od) \<noteq> error_response e"
    by (intro allI, case_tac e) simp_all
  with assms obtain l' where c: "order_create r s l' = Inr (snd (order_request Create_Order r s), Json 201 (The_Order od))"
    using run_chain_handler_response[of "Json 201 (The_Order od)" order_create_mws order_create r s None] by auto
  have "status od = js_or (obj_lookup kvs ''status'') (JStr ''pending'')"
    if "body_data (req_body r) = Some (JObj kvs)" for kvs
    using c body_fields_obj[OF that] by (auto simp: order_create_def Let_def)
  with order_create_result[OF c] show ?thesis by auto
qed

subsection \<open>Behaviour of the routes\<close>

text \<open>Sample data for the witnesses.\<close>

abbreviation sample_order :: order where
  "sample_order \<equiv> \<lparr>order_id = ''o1'', deliverTo = JStr ''Rick'', mobileNumber = JStr ''555'',
                   status = JStr ''pending'', order_dishes = JArr [JObj [(''quantity'', JNum 1)]]\<rparr>"

abbreviation sample_create_kvs :: "(string \<times> jval) list" where
  "sample_create_kvs \<equiv> [(''deliverTo'', JStr ''Rick''), (''mobileNumber'', JStr ''555''),
                        (''dishes'', JArr [JObj [(''quantity'', JNum 1)]])]"

abbreviation sample_update_kvs :: "jval \<Rightarrow> (string \<times> jval) list" where
  "sample_update_kvs st \<equiv> [(''deliverTo'', JStr ''Morty''), (''mobileNumber'', JStr ''777''),
                           (''status'', st), (''dishes'', JArr [JObj [(''quantity'', JNum 2)]])]"

text \<open>The sample state satisfies the identifier invariant: \<open>o1\<close> is not a string of digits.\<close>

lemma sample_order_inv: "order_inv \<lparr>orders = [sample_order], order_seq = 0\<rparr>"
proof -
  have "''o1'' \<noteq> nextId k" for k
  proof
    assume "''o1'' = nextId k"
    then have "nextId k = ''o1''" by (rule sym)
    from nextId_digits[OF this, of "CHR ''o''"] show False by simp
  qed
  then show ?thesis by (simp add: order_inv_def)
qed

text \<open>
  C10. On a payload whose \<open>dishes\<close> is a non-empty array, \<open>validateDishQuantity\<close> passes
  exactly when every entry has an integer quantity greater than 0, and otherwise fails
  with the error of the first invalid entry, naming that entry's index.
\<close>

theorem validateDishQuantity_first_invalid:
  assumes "body_data (req_body r) = Some (JObj kvs)"
    and "obj_lookup kvs ''dishes'' = JArr ds" and "ds \<noteq> []"
  shows "validateDishQuantity r s l =
           (case find_index (\<lambda>d. \<not> quantity_valid d) ds of
              None \<Rightarrow> Pass l
            | Some j \<Rightarrow> Fail (quantity_error j (ds ! j)))"
  using assms by (simp add: validateDishQuantity_checked dishes_check_arr split: option.splits)

theorem validateDishQuantity_first_invalid_witness:
  "validateDishQuantity
     \<lparr>req_param = '''', req_body = JObj [(''data'', JObj [(''dishes'',
        JArr [JObj [(''quantity'', JNum 1)], JObj [(''quantity'', JNum 0)]])])]\<rparr>
     \<lparr>orders = [], order_seq = 0\<rparr> None = Fail (Http_Error 400 (Dish_Bad_Quantity 1))"
proof -
  let ?ds = "[JObj [(''quantity'', JNum 1)], JObj [(''quantity'', JNum 0)]]"
  have "validateDishQuantity
          \<lparr>req_param = '''', req_body = JObj [(''data'', JObj [(''dishes'', JArr ?ds)])]\<rparr>
          \<lparr>orders = [], order_seq = 0\<rparr> None =
        (case find_index (\<lambda>d. \<not> quantity_valid d) ?ds of
           None \<Rightarrow> Pass None | Some j \<Rightarrow> Fail (quantity_error j (?ds ! j)))"
    by (rule validateDishQuantity_first_invalid[where kvs = "[(''dishes'', JArr ?ds)]"])
       (simp_all add: body_data_def with_default_def obj_lookup_def)
  then show ?thesis
    by (simp add: quantity_valid_def quantity_error_def obj_lookup_def)
qed

text \<open>
  C11. Creating an order whose deliverTo, mobileNumber and dishes are present and whose
  dishes all have valid quantities appends a new order with the next identifier and
  answers 201; an absent status becomes \<open>"pending"\<close>.
\<close>

theorem order_create_valid:
  assumes "body_data (req_body r) = Some (JObj kvs)"
    and "\<forall>p\<in>set [''deliverTo'', ''mobileNumber'']. truthy (obj_lookup kvs p)"
    and "obj_lookup kvs ''dishes'' = JArr ds" and "ds \<noteq> []" and "\<forall>d\<in>set ds. quantity_valid d"
  shows "order_request Create_Order r s =
           ([Json 201 (The_Order (new_order s kvs))],
            s\<lparr>orders := orders s @ [new_order s kvs], order_seq := Suc (order_seq s)\<rparr>)"
proof -
  have "first_failure (order_field_rules [''deliverTo'', ''mobileNumber'', ''dishes'']) kvs = None"
    using assms(2,3) by (simp add: first_failure_order_fields)
  moreover have "dishes_check (obj_lookup kvs ''dishes'') = None"
    using assms(3-5) by (simp add: dishes_check_None)
  ultimately show ?thesis unfolding order_create_run[OF assms(1)] by simp
qed

theorem order_create_valid_witness:
  "order_request Create_Order \<lparr>req_param = '''', req_body = JObj [(''data'', JObj sample_create_kvs)]\<rparr>
     \<lparr>orders = [], order_seq = 0\<rparr> =
   ([Json 201 (The_Order \<lparr>order_id = nextId 0, deliverTo = JStr ''Rick'', mobileNumber = JStr ''555'',
                            status = JStr ''pending'', order_dishes = JArr [JObj [(''quantity'', JNum 1)]]\<rparr>)],
    \<lparr>orders = [\<lparr>order_id = nextId 0, deliverTo = JStr ''Rick'', mobileNumber = JStr ''555'',
                 status = JStr ''pending'', order_dishes = JArr [JObj [(''quantity'', JNum 1)]]\<rparr>],
     order_seq = 1\<rparr>)"
proof -
  let ?r = "\<lparr>req_param = '''', req_body = JObj [(''data'', JObj sample_create_kvs)]\<rparr>"
  let ?ds = "[JObj [(''quantity'', JNum 1)]]"
  have h1: "body_data (req_body ?r) = Some (JObj sample_create_kvs)"
    by (simp add: body_data_def with_default_def obj_lookup_def)
  have h2: "\<forall>p\<in>set [''deliverTo'', ''mobileNumber'']. truthy (obj_lookup sample_create_kvs p)"
    by (simp add: obj_lookup_def)
  have h3: "obj_lookup sample_create_kvs ''dishes'' = JArr ?ds" by (simp add: obj_lookup_def)
  have h4: "\<forall>d\<in>set ?ds. quantity_valid d" by (simp add: quantity_valid_def obj_lookup_def)
  from order_create_valid[OF h1 h2 h3 _ h4, of "\<lparr>orders = [], order_seq = 0\<rparr>"] show ?thesis
    by (simp add: new_order_def obj_lookup_def js_or_def)
qed

text \<open>
  C12. Creating an order whose dishes array has an invalid entry answers with the error
  of the first invalid entry (400 naming its index, or 500 for a \<open>null\<close> entry), and
  adds nothing.
\<close>

theorem order_create_bad_quantity:
  assumes "body_data (req_body r) = Some (JObj kvs)"
    and "\<forall>p\<in>set [''deliverTo'', ''mobileNumber'']. truthy (obj_lookup kvs p)"
    and "obj_lookup kvs ''dishes'' = JArr ds"
    and "find_index (\<lambda>d. \<not> quantity_valid d) ds = Some j"
  shows "order_request Create_Order r s = ([error_response (quantity_error j (ds ! j))], s)"
proof -
  have "ds \<noteq> []" using find_index_Some_lt[OF assms(4)] by auto
  then have "dishes_check (obj_lookup kvs ''dishes'') = Some (quantity_error j (ds ! j))"
    using assms(3,4) by (simp add: dishes_check_arr)
  moreover have "first_failure (order_field_rules [''deliverTo'', ''mobileNumber'', ''dishes'']) kvs = None"
    using assms(2,3) by (simp add: first_failure_order_fields)
  ultimately show ?thesis unfolding order_create_run[OF assms(1)] by simp
qed

theorem order_create_bad_quantity_witness:
  "order_request Create_Order
     \<lparr>req_param = '''', req_body = JObj [(''data'', JObj [(''deliverTo'', JStr ''Rick''),
        (''mobileNumber'', JStr ''555''),
        (''dishes'', JArr [JObj [(''quantity'', JNum 1)], JObj [(''quantity'', JNum 0)]])])]\<rparr>
     \<lparr>orders = [], order_seq = 0\<rparr> =
   ([Error_Json 400 (Dish_Bad_Quantity 1)], \<lparr>orders = [], order_seq = 0\<rparr>)"
proof -
  let ?ds = "[JObj [(''quantity'', JNum 1)], JObj [(''quantity'', JNum 0)]]"
  let ?kvs = "[(''deliverTo'', JStr ''Rick''), (''mobileNumber'', JStr ''555''), (''dishes'', JArr ?ds)]"
  let ?r = "\<lparr>req_param = '''', req_body = JObj [(''data'', JObj ?kvs)]\<rparr>"
  have h1: "body_data (req_body ?r) = Some (JObj ?kvs)"
    by (simp add: body_data_def with_default_def obj_lookup_def)
  have h2: "\<forall>p\<in>set [''deliverTo'', ''mobileNumber'']. truthy (obj_lookup ?kvs p)"
    by (simp add: obj_lookup_def)
  have h3: "obj_lookup ?kvs ''dishes'' = JArr ?ds" by (simp add: obj_lookup_def)
  have h4: "find_index (\<lambda>d. \<not> quantity_valid d) ?ds = Some 1"
    by (simp add: quantity_valid_def obj_lookup_def)
  from order_create_bad_quantity[OF h1 h2 h3 h4, of "\<lparr>orders = [], order_seq = 0\<rparr>"] show ?thesis
    by (simp add: quantity_error_def obj_lookup_def)
qed

text \<open>
  C13. \<open>validateStatusProperty\<close> checks the status in the request, not the stored one:
  an update of an existing order whose payload says \<open>status: "delivered"\<close> is always
  rejected with 400 \<open>A delivered order cannot be changed\<close>, so no update can mark an
  order delivered (the specification expects such an update to succeed once).
\<close>

theorem order_update_rejects_delivered:
  assumes "find_index (\<lambda>x. order_id x = req_param r) (orders s) = Some i"
    and "js_get (req_body r) ''data'' = Some (JObj kvs)"
    and "\<forall>p\<in>set [''deliverTo'', ''mobileNumber'', ''dishes'']. truthy (obj_lookup kvs p)"
    and "obj_lookup kvs ''status'' = JStr ''delivered''"
    and "\<not> truthy (obj_lookup kvs ''id'')"
  shows "order_request Update_Order r s = ([Error_Json 400 Order_Delivered], s)"
proof -
  have "first_failure (order_field_rules [''deliverTo'', ''mobileNumber'', ''dishes'', ''status'']) kvs = None"
    using assms(3,4) by (simp add: first_failure_order_fields)
  with assms(4,5) show ?thesis unfolding order_update_run[OF assms(1,2)] by (simp add: Let_def)
qed

theorem order_update_rejects_delivered_witness:
  "order_request Update_Order
     \<lparr>req_param = ''o1'', req_body = JObj [(''data'', JObj (sample_update_kvs (JStr ''delivered'')))]\<rparr>
     \<lparr>orders = [sample_order], order_seq = 0\<rparr> =
   ([Error_Json 400 Order_Delivered], \<lparr>orders = [sample_order], order_seq = 0\<rparr>)"
proof -
  let ?kvs = "sample_update_kvs (JStr ''delivered'')"
  let ?r = "\<lparr>req_param = ''o1'', req_body = JObj [(''data'', JObj ?kvs)]\<rparr>"
  have h1: "find_index (\<lambda>x. order_id x = req_param ?r) (orders \<lparr>orders = [sample_order], order_seq = 0\<rparr>) = Some 0"
    by simp
  have h2: "js_get (req_body ?r) ''data'' = Some (JObj ?kvs)" by (simp add: obj_lookup_def)
  have h3: "\<forall>p\<in>set [''deliverTo'', ''mobileNumber'', ''dishes'']. truthy (obj_lookup ?kvs p)"
    by (simp add: obj_lookup_def)
  have h4: "obj_lookup ?kvs ''status'' = JStr ''delivered''" by (simp add: obj_lookup_def)
  have h5: "\<not> truthy (obj_lookup ?kvs ''id'')" by (simp add: obj_lookup_def)
  from order_update_rejects_delivered[OF h1 h2 h3 h4 h5] show ?thesis .
qed

text \<open>
  C14. \<open>update\<close> never writes \<open>status\<close> (nor \<open>id\<close>): whatever the request, the statuses
  and identifiers of the stored orders are the same after an update as before.
\<close>

theorem order_update_keeps_status:
  "map status (orders (snd (order_request Update_Order r s))) = map status (orders s) \<and>
   map order_id (orders (snd (order_request Update_Order r s))) = map order_id (orders s)"
  using run_chain_state_cases[of order_update_mws order_update r s None] order_update_frame
  by auto

text \<open>
  C15. Updating an existing order with present deliverTo and mobileNumber, a status of
  pending, preparing or out-for-delivery, no conflicting id and valid dishes overwrites
  deliverTo, mobileNumber and dishes in place and answers 200; the stored status is kept,
  so an order stored as delivered is changed as well.
\<close>

theorem order_update_valid:
  assumes "find_index (\<lambda>x. order_id x = req_param r) (orders s) = Some i"
    and "js_get (req_body r) ''data'' = Some (JObj kvs)"
    and "\<forall>p\<in>set [''deliverTo'', ''mobileNumber'']. truthy (obj_lookup kvs p)"
    and "obj_lookup kvs ''status'' \<in> set (map JStr [''pending'', ''preparing'', ''out-for-delivery''])"
    and "\<not> truthy (obj_lookup kvs ''id'')"
    and "obj_lookup kvs ''dishes'' = JArr ds" and "ds \<noteq> []" and "\<forall>d\<in>set ds. quantity_valid d"
  shows "order_request Update_Order r s =
           ([Json 200 (The_Order (overwrite_order (orders s ! i) kvs))],
            s\<lparr>orders := (orders s)[i := overwrite_order (orders s ! i) kvs]\<rparr>) \<and>
         status (overwrite_order (orders s ! i) kvs) = status (orders s ! i)"
proof -
  have "first_failure (order_field_rules [''deliverTo'', ''mobileNumber'', ''dishes'', ''status'']) kvs = None"
    using assms(3,4,6) by (auto simp: first_failure_order_fields)
  moreover have "dishes_check (obj_lookup kvs ''dishes'') = None"
    using assms(6-8) by (simp add: dishes_check_None)
  moreover have "obj_lookup kvs ''status'' \<in> set validStatuses"
    "obj_lookup kvs ''status'' \<noteq> JStr ''delivered''"
    using assms(4) by (auto simp: validStatuses_def)
  ultimately show ?thesis
    using assms(5) unfolding order_update_run[OF assms(1,2)] by (simp add: Let_def overwrite_order_def)
qed

theorem order_update_valid_witness:
  "order_request Update_Order
     \<lparr>req_param = ''o1'', req_body = JObj [(''data'', JObj (sample_update_kvs (JStr ''pending'')))]\<rparr>
     \<lparr>orders = [sample_order\<lparr>status := JStr ''delivered''\<rparr>], order_seq = 0\<rparr> =
   ([Json 200 (The_Order \<lparr>order_id = ''o1'', deliverTo = JStr ''Morty'', mobileNumber = JStr ''777'',
        status = JStr ''delivered'', order_dishes = JArr [JObj [(''quantity'', JNum 2)]]\<rparr>)],
    \<lparr>orders = [\<lparr>order_id = ''o1'', deliverTo = JStr ''Morty'', mobileNumber = JStr ''777'',
        status = JStr ''delivered'', order_dishes = JArr [JObj [(''quantity'', JNum 2)]]\<rparr>], order_seq = 0\<rparr>) \<and>
   status \<lparr>order_id = ''o1'', deliverTo = JStr ''Morty'', mobileNumber = JStr ''777'',
        status = JStr ''delivered'', order_dishes = JArr [JObj [(''quantity'', JNum 2)]]\<rparr> =
   status (sample_order\<lparr>status := JStr ''delivered''\<rparr>)"
proof -
  let ?kvs = "sample_update_kvs (JStr ''pending'')"
  let ?r = "\<lparr>req_param = ''o1'', req_body = JObj [(''data'', JObj ?kvs)]\<rparr>"
  let ?s = "\<lparr>orders = [sample_order\<lparr>status := JStr ''delivered''\<rparr>], order_seq = 0\<rparr>"
  let ?ds = "[JObj [(''quantity'', JNum 2)]]"
  have h1: "find_index (\<lambda>x. order_id x = req_param ?r) (orders ?s) = Some 0" by simp
  have h2: "js_get (req_body ?r) ''data'' = Some (JObj ?kvs)" by (simp add: obj_lookup_def)
  have h3: "\<forall>p\<in>set [''deliverTo'', ''mobileNumber'']. truthy (obj_lookup ?kvs p)"
    by (simp add: obj_lookup_def)
  have h4: "obj_lookup ?kvs ''status'' \<in> set (map JStr [''pending'', ''preparing'', ''out-for-delivery''])"
    by (simp add: obj_lookup_def)
  have h5: "\<not> truthy (obj_lookup ?kvs ''id'')" by (simp add: obj_lookup_def)
  have h6: "obj_lookup ?kvs ''dishes'' = JArr ?ds" by (simp add: obj_lookup_def)
  have h8: "\<forall>d\<in>set ?ds. quantity_valid d" by (simp add: quantity_valid_def obj_lookup_def)
  from order_update_valid[OF h1 h2 h3 h4 h5 h6 _ h8] show ?thesis
    by (simp add: overwrite_order_def obj_lookup_def)
qed

text \<open>
  C16. \<open>validateOrderId\<close> has the same missing \<open>return\<close> as the dish controller: a
  truthy payload \<open>id\<close> that differs from the order's id is reported with 400, and the
  update still overwrites the order.
\<close>

theorem order_update_id_mismatch_applied:
  assumes "find_index (\<lambda>x. order_id x = req_param r) (orders s) = Some i"
    and "js_get (req_body r) ''data'' = Some (JObj kvs)"
    and "\<forall>p\<in>set [''deliverTo'', ''mobileNumber'']. truthy (obj_lookup kvs p)"
    and "obj_lookup kvs ''status'' \<in> set (map JStr [''pending'', ''preparing'', ''out-for-delivery''])"
    and "truthy (obj_lookup kvs ''id'')"
    and "obj_lookup kvs ''id'' \<noteq> JStr (order_id (orders s ! i))"
    and "obj_lookup kvs ''dishes'' = JArr ds" and "ds \<noteq> []" and "\<forall>d\<in>set ds. quantity_valid d"
  shows "order_request Update_Order r s =
           ([Error_Json 400 (Order_Id_Mismatch (obj_lookup kvs ''id'') (order_id (orders s ! i))),
             Json 200 (The_Order (overwrite_order (orders s ! i) kvs))],
            s\<lparr>orders := (orders s)[i := overwrite_order (orders s ! i) kvs]\<rparr>)"
proof -
  have "first_failure (order_field_rules [''deliverTo'', ''mobileNumber'', ''dishes'', ''status'']) kvs = None"
    using assms(3,4,7) by (auto simp: first_failure_order_fields)
  moreover have "dishes_check (obj_lookup kvs ''dishes'') = None"
    using assms(7-9) by (simp add: dishes_check_None)
  moreover have "obj_lookup kvs ''status'' \<in> set validStatuses"
    "obj_lookup kvs ''status'' \<noteq> JStr ''delivered''"
    using assms(4) by (auto simp: validStatuses_def)
  ultimately show ?thesis
    using assms(5,6) unfolding order_update_run[OF assms(1,2)] by (simp add: Let_def)
qed

theorem order_update_id_mismatch_applied_witness:
  "order_request Update_Order
     \<lparr>req_param = ''o1'', req_body = JObj [(''data'', JObj ((''id'', JStr ''o2'') # sample_update_kvs (JStr ''preparing'')))]\<rparr>
     \<lparr>orders = [sample_order], order_seq = 0\<rparr> =
   ([Error_Json 400 (Order_Id_Mismatch (JStr ''o2'') ''o1''),
     Json 200 (The_Order \<lparr>order_id = ''o1'', deliverTo = JStr ''Morty'', mobileNumber = JStr ''777'',
        status = JStr ''pending'', order_dishes = JArr [JObj [(''quantity'', JNum 2)]]\<rparr>)],
    \<lparr>orders = [\<lparr>order_id = ''o1'', deliverTo = JStr ''Morty'', mobileNumber = JStr ''777'',
        status = JStr ''pending'', order_dishes = JArr [JObj [(''quantity'', JNum 2)]]\<rparr>], order_seq = 0\<rparr>)"
proof -
  let ?kvs = "(''id'', JStr ''o2'') # sample_update_kvs (JStr ''preparing'')"
  let ?r = "\<lparr>req_param = ''o1'', req_body = JObj [(''data'', JObj ?kvs)]\<rparr>"
  let ?s = "\<lparr>orders = [sample_order], order_seq = 0\<rparr>"
  let ?ds = "[JObj [(''quantity'', JNum 2)]]"
  have h1: "find_index (\<lambda>x. order_id x = req_param ?r) (orders ?s) = Some 0" by simp
  have h2: "js_get (req_body ?r) ''data'' = Some (JObj ?kvs)" by (simp add: obj_lookup_def)
  have h3: "\<forall>p\<in>set [''deliverTo'', ''mobileNumber'']. truthy (obj_lookup ?kvs p)"
    by (simp add: obj_lookup_def)
  have h4: "obj_lookup ?kvs ''status'' \<in> set (map JStr [''pending'', ''preparing'', ''out-for-delivery''])"
    by (simp add: obj_lookup_def)
  have h5: "truthy (obj_lookup ?kvs ''id'')" by (simp add: obj_lookup_def)
  have h6: "obj_lookup ?kvs ''id'' \<noteq> JStr (order_id (orders ?s ! 0))" by (simp add: obj_lookup_def)
  have h7: "obj_lookup ?kvs ''dishes'' = JArr ?ds" by (simp add: obj_lookup_def)
  have h9: "\<forall>d\<in>set ?ds. quantity_valid d" by (simp add: quantity_valid_def obj_lookup_def)
  from order_update_id_mismatch_applied[OF h1 h2 h3 h4 h5 h6 h7 _ h9] show ?thesis
    by (simp add: overwrite_order_def obj_lookup_def)
qed

text \<open>
  C17. Deleting a pending order (identifiers unique) removes exactly it and answers 204;
  reading its id afterwards answers 404.
\<close>

theorem order_delete_pending:
  assumes "distinct (map order_id (orders s))" and "i < length (orders s)"
    and "order_id (orders s ! i) = req_param r" and "status (orders s ! i) = JStr ''pending''"
  shows "order_request Delete_Order r s = ([Send_Status 204], s\<lparr>orders := remove_nth i (orders s)\<rparr>) \<and>
         order_request Read_Order r (s\<lparr>orders := remove_nth i (orders s)\<rparr>) =
           ([Error_Json 404 (Order_Not_Found (req_param r))], s\<lparr>orders := remove_nth i (orders s)\<rparr>)"
proof -
  have found: "find_index (\<lambda>x. order_id x = req_param r) (orders s) = Some i"
    using find_index_key_distinct[OF assms(1-3)] .
  have gone: "\<forall>x\<in>set (remove_nth i (orders s)). order_id x \<noteq> req_param r"
    using nth_remove_nth_notin[OF assms(1,2)] assms(3) by (metis rev_image_eqI)
  show ?thesis
    using found gone assms(4)
    by (simp add: order_delete_mws_def order_read_mws_def run_chain_def chain_simps destroy_def)
qed

theorem order_delete_pending_witness:
  "order_request Delete_Order \<lparr>req_param = ''o1'', req_body = JObj []\<rparr> \<lparr>orders = [sample_order], order_seq = 0\<rparr> =
     ([Send_Status 204], \<lparr>orders = [], order_seq = 0\<rparr>) \<and>
   order_request Read_Order \<lparr>req_param = ''o1'', req_body = JObj []\<rparr> \<lparr>orders = [], order_seq = 0\<rparr> =
     ([Error_Json 404 (Order_Not_Found ''o1'')], \<lparr>orders = [], order_seq = 0\<rparr>)"
proof -
  have "order_request Delete_Order \<lparr>req_param = ''o1'', req_body = JObj []\<rparr> \<lparr>orders = [sample_order], order_seq = 0\<rparr> =
          ([Send_Status 204], \<lparr>orders = [sample_order], order_seq = 0\<rparr>\<lparr>orders := remove_nth 0 [sample_order]\<rparr>) \<and>
        order_request Read_Order \<lparr>req_param = ''o1'', req_body = JObj []\<rparr>
          (\<lparr>orders = [sample_order], order_seq = 0\<rparr>\<lparr>orders := remove_nth 0 [sample_order]\<rparr>) =
          ([Error_Json 404 (Order_Not_Found ''o1'')],
           \<lparr>orders = [sample_order], order_seq = 0\<rparr>\<lparr>orders := remove_nth 0 [sample_order]\<rparr>)"
    using order_delete_pending[of "\<lparr>orders = [sample_order], order_seq = 0\<rparr>" 0
                                  "\<lparr>req_param = ''o1'', req_body = JObj []\<rparr>"] by simp
  then show ?thesis by (simp add: remove_nth_def)
qed

text \<open>
  C18. Deleting an existing order that is not pending answers 400 \<open>An order cannot be
  deleted unless it is pending.\<close> and removes nothing.
\<close>

theorem order_delete_not_pending:
  assumes "find_index (\<lambda>x. order_id x = req_param r) (orders s) = Some i"
    and "status (orders s ! i) \<noteq> JStr ''pending''"
  shows "order_request Delete_Order r s = ([Error_Json 400 Order_Not_Pending], s)"
  using assms by (simp add: order_delete_mws_def run_chain_def chain_simps)

theorem order_delete_not_pending_witness:
  "order_request Delete_Order \<lparr>req_param = ''o1'', req_body = JObj []\<rparr>
     \<lparr>orders = [sample_order\<lparr>status := JStr ''preparing''\<rparr>], order_seq = 0\<rparr> =
   ([Error_Json 400 Order_Not_Pending], \<lparr>orders = [sample_order\<lparr>status := JStr ''preparing''\<rparr>], order_seq = 0\<rparr>)"
  by (rule order_delete_not_pending[where i = 0]) simp_all

text \<open>
  C19. In every state reached from a start state whose identifiers are unique and unused
  by the generator, by any sequence of order requests, order identifiers are unique.
\<close>

theorem order_reachable_unique_ids:
  assumes "order_reachable s0 s" and "order_inv s0"
  shows "distinct (map order_id (orders s))"
  using order_reachable_inv[OF assms] by (simp add: order_inv_def)

theorem order_reachable_unique_ids_witness:
  "distinct (map order_id (orders (snd (order_request Delete_Order \<lparr>req_param = ''o1'', req_body = JObj []\<rparr>
      \<lparr>orders = [sample_order], order_seq = 0\<rparr>))))"
proof (rule order_reachable_unique_ids)
  show "order_inv \<lparr>orders = [sample_order], order_seq = 0\<rparr>" by (rule sample_order_inv)
  show "order_reachable \<lparr>orders = [sample_order], order_seq = 0\<rparr>
          (snd (order_request Delete_Order \<lparr>req_param = ''o1'', req_body = JObj []\<rparr>
            \<lparr>orders = [sample_order], order_seq = 0\<rparr>))"
    by (rule order_reachable.step [OF order_reachable.start])
qed

text \<open>
  C20. Reading an order: the first order whose id is the route parameter with 200, else
  404 with \<open>Order_Not_Found\<close> of the parameter; the collection is unchanged.
\<close>

theorem order_read_behaviour:
  "order_request Read_Order r s =
     (case find_index (\<lambda>x. order_id x = req_param r) (orders s) of
        Some i \<Rightarrow> ([Json 200 (The_Order (orders s ! i))], s)
      | None \<Rightarrow> ([Error_Json 404 (Order_Not_Found (req_param r))], s))"
  by (simp add: order_read_mws_def run_chain_def orderExists_def order_read_def split: option.splits)

text \<open>
  C22. The order controller implements a store of orders by identifier: in every state
  reachable from a start state satisfying the identifier invariant, each request changes
  the store only as its route allows: \<open>create\<close> binds a fresh identifier, \<open>update\<close>
  rebinds the route's identifier keeping the order's identifier and status, \<open>delete\<close>
  unbinds the route's identifier of a pending order, and nothing else changes it.
\<close>

theorem order_reachable_store_refinement:
  assumes "order_reachable s0 s" and "order_inv s0"
  shows "order_store_step rt r (order_store s) (order_store (snd (order_request rt r s)))"
  using order_request_store[OF order_reachable_inv[OF assms]] .

theorem order_reachable_store_refinement_witness:
  "order_store_step Delete_Order \<lparr>req_param = ''o1'', req_body = JObj []\<rparr>
     (order_store \<lparr>orders = [sample_order], order_seq = 0\<rparr>)
     (order_store (snd (order_request Delete_Order \<lparr>req_param = ''o1'', req_body = JObj []\<rparr>
        \<lparr>orders = [sample_order], order_seq = 0\<rparr>)))"
  by (rule order_reachable_store_refinement[OF order_reachable.start sample_order_inv])

text \<open>
  C23. Creating an order whose deliverTo, mobileNumber and dishes are present but whose
  dishes is not a non-empty array (the empty array \<open>[]\<close>, or any other truthy value)
  answers 400 \<open>Order must include at least one dish.\<close> and adds nothing.
\<close>

theorem order_create_no_dishes:
  assumes "body_data (req_body r) = Some (JObj kvs)"
    and "\<forall>p\<in>set [''deliverTo'', ''mobileNumber'', ''dishes'']. truthy (obj_lookup kvs p)"
    and "\<forall>d ds. obj_lookup kvs ''dishes'' \<noteq> JArr (d # ds)"
  shows "order_request Create_Order r s = ([Error_Json 400 Order_No_Dishes], s)"
proof -
  have "first_failure (order_field_rules [''deliverTo'', ''mobileNumber'', ''dishes'']) kvs = None"
    using assms(2) by (simp add: first_failure_order_fields)
  moreover have "dishes_check (obj_lookup kvs ''dishes'') = Some (Http_Error 400 Order_No_Dishes)"
    using assms(3) by (auto simp: dishes_check_def split: jval.splits list.splits)
  ultimately show ?thesis unfolding order_create_run[OF assms(1)] by simp
qed

theorem order_create_no_dishes_witness:
  "order_request Create_Order
     \<lparr>req_param = '''', req_body = JObj [(''data'', JObj [(''deliverTo'', JStr ''Rick''),
        (''mobileNumber'', JStr ''555''), (''dishes'', JArr [])])]\<rparr>
     \<lparr>orders = [], order_seq = 0\<rparr> =
   ([Error_Json 400 Order_No_Dishes], \<lparr>orders = [], order_seq = 0\<rparr>)"
proof -
  let ?kvs = "[(''deliverTo'', JStr ''Rick''), (''mobileNumber'', JStr ''555''), (''dishes'', JArr [])]"
  let ?r = "\<lparr>req_param = '''', req_body = JObj [(''data'', JObj ?kvs)]\<rparr>"
  have h1: "body_data (req_body ?r) = Some (JObj ?kvs)"
    by (simp add: body_data_def with_default_def obj_lookup_def)
  have h2: "\<forall>p\<in>set [''deliverTo'', ''mobileNumber'', ''dishes'']. truthy (obj_lookup ?kvs p)"
    by (simp add: obj_lookup_def)
  have h3: "\<forall>d ds. obj_lookup ?kvs ''dishes'' \<noteq> JArr (d # ds)" by (simp add: obj_lookup_def)
  from order_create_no_dishes[OF h1 h2 h3] show ?thesis .
qed

text \<open>
  C24. The create, read and delete chains of the order controller never take the
  non-returning \<open>next(err); next()\<close> path: on them the code's chain is the halting
  pipeline of the specification, with exactly one response.
\<close>

theorem order_chains_halting:
  "order_request Create_Order r s =
     ([fst (run_chain_halting order_create_mws order_create r s None)],
      snd (run_chain_halting order_create_mws order_create r s None)) \<and>
   order_request Read_Order r s =
     ([fst (run_chain_halting order_read_mws order_read r s None)],
      snd (run_chain_halting order_read_mws order_read r s None)) \<and>
   order_request Delete_Order r s =
     ([fst (run_chain_halting order_delete_mws destroy r s None)],
      snd (run_chain_halting order_delete_mws destroy r s None))"
proof -
  have "\<And>m l'. m \<in> set order_create_mws \<Longrightarrow> no_fail_pass (m r s l')"
    by (auto simp: order_create_mws_def order_validators_no_fail_pass)
  moreover have "\<And>m l'. m \<in> set order_read_mws \<Longrightarrow> no_fail_pass (m r s l')"
    by (auto simp: order_read_mws_def order_validators_no_fail_pass)
  moreover have "\<And>m l'. m \<in> set order_delete_mws \<Longrightarrow> no_fail_pass (m r s l')"
    by (auto simp: order_delete_mws_def order_validators_no_fail_pass)
  ultimately show ?thesis by (simp add: run_chain_no_fail_pass)
qed

text \<open>
  C30. Every stored order has a status: in every state reached from a start state whose
  orders all have a truthy status, every order's status is truthy (\<open>create\<close> stores
  \<open>status || "pending"\<close>, \<open>update\<close> never writes it, \<open>delete\<close> only removes).
\<close>

theorem order_reachable_status_truthy:
  assumes "order_reachable s0 s" and "order_wf s0"
  shows "\<forall>od\<in>set (orders s). truthy (status od)"
  using order_reachable_wf[OF assms] by (simp add: order_wf_def)

theorem order_reachable_status_truthy_witness:
  "truthy (status (hd (orders (snd (order_request Read_Order \<lparr>req_param = ''o1'', req_body = JObj []\<rparr>
      \<lparr>orders = [sample_order], order_seq = 0\<rparr>)))))"
proof -
  let ?r = "\<lparr>req_param = ''o1'', req_body = JObj []\<rparr>"
  let ?s = "\<lparr>orders = [sample_order], order_seq = 0\<rparr>"
  have same: "snd (order_request Read_Order ?r ?s) = ?s"
    by (auto intro: run_chain_read_only simp: order_read_def)
  have "order_reachable ?s (snd (order_request Read_Order ?r ?s))"
    by (rule order_reachable.step [OF order_reachable.start])
  moreover have "order_wf ?s" by (simp add: order_wf_def)
  ultimately have "\<forall>od\<in>set (orders (snd (order_request Read_Order ?r ?s))). truthy (status od)"
    by (rule order_reachable_status_truthy)
  then show ?thesis unfolding same by simp
qed


text \<open>
  C35. An order created without a status starts as pending and can be deleted at once:
  in a state with the identifier invariant, when \<open>POST /orders\<close> with no truthy
  \<open>status\<close> answers 201 with an order, \<open>DELETE /orders/:orderId\<close> for its id answers 204
  and leaves the collection as it was before the create; only the counter has moved on.
\<close>

theorem order_create_then_delete:
  assumes "order_inv s" and "body_data (req_body r) = Some (JObj kvs)"
    and "\<not> truthy (obj_lookup kvs ''status'')"
    and "Json 201 (The_Order od) \<in> set (fst (order_request Create_Order r s))"
  shows "order_request Delete_Order \<lparr>req_param = order_id od, req_body = b\<rparr> (snd (order_request Create_Order r s)) =
           ([Send_Status 204], s\<lparr>order_seq := Suc (order_seq s)\<rparr>)"
proof -
  obtain s' where s': "snd (order_request Create_Order r s) = s'" by blast
  from order_create_response[OF assms(4)] s' assms(2,3)
  have st: "s' = s\<lparr>orders := orders s @ [od], order_seq := Suc (order_seq s)\<rparr>"
    and id: "order_id od = nextId (order_seq s)" and pending: "status od = JStr ''pending''"
    by (simp_all add: js_or_def)
  have "\<forall>x\<in>set (orders s). order_id x \<noteq> order_id od" using order_inv_fresh[OF assms(1)] id by force
  then have "find_index (\<lambda>x. order_id x = order_id od) (orders s') = Some (length (orders s))"
    using st by (simp add: find_index_append_None)
  with st pending show ?thesis unfolding s'
    by (simp add: order_delete_mws_def run_chain_def chain_simps destroy_def remove_nth_def)
qed

theorem order_create_then_delete_witness:
  "order_request Delete_Order \<lparr>req_param = nextId 0, req_body = JObj []\<rparr>
     (snd (order_request Create_Order \<lparr>req_param = '''', req_body = JObj [(''data'', JObj sample_create_kvs)]\<rparr>
        \<lparr>orders = [], order_seq = 0\<rparr>)) =
   ([Send_Status 204], \<lparr>orders = [], order_seq = 1\<rparr>)"
proof -
  let ?r = "\<lparr>req_param = '''', req_body = JObj [(''data'', JObj sample_create_kvs)]\<rparr>"
  let ?od = "\<lparr>order_id = nextId 0, deliverTo = JStr ''Rick'', mobileNumber = JStr ''555'',
              status = JStr ''pending'', order_dishes = JArr [JObj [(''quantity'', JNum 1)]]\<rparr>"
  have h1: "order_inv \<lparr>orders = [], order_seq = 0\<rparr>" by (simp add: order_inv_def)
  have h2: "body_data (req_body ?r) = Some (JObj sample_create_kvs)"
    by (simp add: body_data_def with_default_def obj_lookup_def)
  have h3: "\<not> truthy (obj_lookup sample_create_kvs ''status'')" by (simp add: obj_lookup_def)
  have h4: "Json 201 (The_Order ?od) \<in> set (fst (order_request Create_Order ?r \<lparr>orders = [], order_seq = 0\<rparr>))"
    by (simp add: run_chain_def order_create_mws_def chain_simps body_data_def with_default_def
                  obj_lookup_def order_create_def body_fields_def Let_def js_or_def
                  validateDishQuantity_def quantity_valid_def)
  from order_create_then_delete[OF h1 h2 h3 h4, of "JObj []"] show ?thesis by simp
qed

end
