(* ===== verification/App.thy ===== *)
theory App
  imports Dishes Orders
begin

text \<open>
  The application of \<open>src/app.js\<close> (outside the modelled sources, modelled from the
  specification): the dish and order routers mounted side by side over one process whose
  state is the pair of collections; sequences of requests, each run to completion; the two
  abstract stores and their runs, and the simulation of the application by them.
\<close>

text \<open>
  The application mounts the two routers side by side; each request goes to exactly one
  controller and touches only that controller's array. The state of the process is the pair
  of collections.
\<close>

record app_state =
  app_dishes :: dish_state
  app_orders :: order_state

datatype app_route = Dish_Route dish_route | Order_Route order_route

datatype app_response =
    Dish_Response "(dish_payload, dish_msg) response"
  | Order_Response "(order_payload, order_msg) response"

fun app_request :: "app_route \<Rightarrow> request \<Rightarrow> app_state \<Rightarrow> app_response list \<times> app_state" where
  "app_request (Dish_Route rt) r s =
     (case dish_request rt r (app_dishes s) of (rs, d) \<Rightarrow> (map Dish_Response rs, s\<lparr>app_dishes := d\<rparr>))"
| "app_request (Order_Route rt) r s =
     (case order_request rt r (app_orders s) of (rs, os) \<Rightarrow> (map Order_Response rs, s\<lparr>app_orders := os\<rparr>))"

text \<open>A sequence of requests, each run to completion before the next (the specification's
  single-threaded model), in any interleaving of the two routers.\<close>

fun app_run :: "(app_route \<times> request) list \<Rightarrow> app_state \<Rightarrow> app_state" where
  "app_run [] s = s"
| "app_run ((rt, r) # rqs) s = app_run rqs (snd (app_request rt r s))"

definition app_inv :: "app_state \<Rightarrow> bool" where
  "app_inv s \<longleftrightarrow> dish_inv (app_dishes s) \<and> order_inv (app_orders s)"

definition app_store :: "app_state \<Rightarrow> (string \<rightharpoonup> dish) \<times> (string \<rightharpoonup> order)" where
  "app_store s = (dish_store (app_dishes s), order_store (app_orders s))"

text \<open>Runs of the abstract stores: each request is a step of its own store; the other is unchanged.\<close>

inductive store_run :: "(app_route \<times> request) list \<Rightarrow> (string \<rightharpoonup> dish) \<times> (string \<rightharpoonup> order) \<Rightarrow>
                        (string \<rightharpoonup> dish) \<times> (string \<rightharpoonup> order) \<Rightarrow> bool" where
  nil: "store_run [] m m"
| dish: "dish_store_step rt r dm dm' \<Longrightarrow> store_run rqs (dm', om) m \<Longrightarrow>
         store_run ((Dish_Route rt, r) # rqs) (dm, om) m"
| order: "order_store_step rt r om om' \<Longrightarrow> store_run rqs (dm, om') m \<Longrightarrow>
          store_run ((Order_Route rt, r) # rqs) (dm, om) m"

lemma app_request_dish [simp]:
  "snd (app_request (Dish_Route rt) r s) = s\<lparr>app_dishes := snd (dish_request rt r (app_dishes s))\<rparr>"
  by (simp add: case_prod_beta)

lemma app_request_order [simp]:
  "snd (app_request (Order_Route rt) r s) = s\<lparr>app_orders := snd (order_request rt r (app_orders s))\<rparr>"
  by (simp add: case_prod_beta)

lemma app_request_inv:
  "app_inv s \<Longrightarrow> app_inv (snd (app_request rt r s))"
  by (cases rt) (simp_all add: app_inv_def dish_request_inv order_request_inv del: app_request.simps)

lemma app_request_store:
  assumes "app_inv s" "store_run rqs (app_store (snd (app_request rt r s))) m"
  shows "store_run ((rt, r) # rqs) (app_store s) m"
proof (cases rt)
  case (Dish_Route d)
  have "dish_store_step d r (dish_store (app_dishes s)) (dish_store (snd (dish_request d r (app_dishes s))))"
    using assms(1) by (simp add: app_inv_def dish_request_store)
  with assms(2) Dish_Route show ?thesis
    by (auto simp: app_store_def intro: store_run.dish simp del: app_request.simps)
next
  case (Order_Route o')
  have "order_store_step o' r (order_store (app_orders s)) (order_store (snd (order_request o' r (app_orders s))))"
    using assms(1) by (simp add: app_inv_def order_request_store)
  with assms(2) Order_Route show ?thesis
    by (auto simp: app_store_def intro: store_run.order simp del: app_request.simps)
qed

lemma app_run_store:
  assumes "app_inv s"
  shows "store_run rqs (app_store s) (app_store (app_run rqs s))"
  using assms
proof (induction rqs arbitrary: s)
  case Nil
  then show ?case by (simp add: store_run.nil)
next
  case (Cons q rqs)
  obtain rt r where q: "q = (rt, r)" by (cases q)
  have "store_run rqs (app_store (snd (app_request rt r s))) (app_store (app_run rqs (snd (app_request rt r s))))"
    using Cons.IH app_request_inv[OF Cons.prems] by blast
  with Cons.prems q show ?case by (simp add: app_request_store)
qed

lemma store_run_dish_dom:
  "store_run rqs m m' \<Longrightarrow> dom (fst m) \<subseteq> dom (fst m')"
  by (induction rule: store_run.induct) (simp_all, meson dish_store_step_dom dual_order.trans)

lemma store_run_order_removed:
  "store_run rqs m m' \<Longrightarrow> snd m k \<noteq> None \<Longrightarrow> snd m' k = None \<Longrightarrow>
   \<exists>r. (Order_Route Delete_Order, r) \<in> set rqs \<and> req_param r = k"
proof (induction rule: store_run.induct)
  case (nil m)
  then show ?case by simp
next
  case (dish rt r dm dm' rqs om m)
  then show ?case by fastforce
next
  case (order rt r om om' rqs dm m)
  show ?case
  proof (cases "om' k")
    case None
    with order.prems order.hyps(1) show ?thesis by (auto dest: order_store_step_removed)
  next
    case (Some x)
    with order.IH order.prems show ?thesis by fastforce
  qed
qed

text \<open>Sample requests for the witnesses: a dish created, then a pending order deleted.\<close>

abbreviation sample_app :: app_state where
  "sample_app \<equiv> \<lparr>app_dishes = \<lparr>dishes = [], dish_seq = 0\<rparr>,
                  app_orders = \<lparr>orders = [sample_order], order_seq = 0\<rparr>\<rparr>"

abbreviation sample_requests :: "(app_route \<times> request) list" where
  "sample_requests \<equiv>
     [(Dish_Route Create_Dish, \<lparr>req_param = '''', req_body = JObj [(''data'', JObj [(''name'', JStr ''Taco''),
         (''description'', JStr ''Spicy''), (''price'', JNum 8), (''image_url'', JStr ''x'')])]\<rparr>),
      (Order_Route Delete_Order, \<lparr>req_param = ''o1'', req_body = JObj []\<rparr>)]"

lemma sample_app_inv: "app_inv sample_app"
  using sample_order_inv by (simp add: app_inv_def dish_inv_def)

end
