(* ===== verification/Routes.thy ===== *)
theory Routes
  imports App
begin

text \<open>
  The HTTP surface of the specification (its section on external interfaces): the routers
  \<open>dishes.router.js\<close> and \<open>orders.router.js\<close> are not under \<open>src/\<close>, so the table of
  methods and paths is modelled from that section. A path is its list of segments;
  \<open>:dishId\<close> and \<open>:orderId\<close> become the request's route parameter. A method and path
  the table does not name are not dispatched (\<open>None\<close>): what the application answers
  then is outside the modelled code.
\<close>

datatype http_method = GET | POST | PUT | DELETE

definition route_of :: "http_method \<Rightarrow> string list \<Rightarrow> (app_route \<times> string) option" where
  "route_of m p =
     (case p of
        [c] \<Rightarrow>
          if c = ''dishes'' then
            (case m of GET \<Rightarrow> Some (Dish_Route List_Dishes, '''')
                     | POST \<Rightarrow> Some (Dish_Route Create_Dish, '''') | _ \<Rightarrow> None)
          else if c = ''orders'' then
            (case m of GET \<Rightarrow> Some (Order_Route List_Orders, '''')
                     | POST \<Rightarrow> Some (Order_Route Create_Order, '''') | _ \<Rightarrow> None)
          else None
      | [c, x] \<Rightarrow>
          if c = ''dishes'' then
            (case m of GET \<Rightarrow> Some (Dish_Route Read_Dish, x)
                     | PUT \<Rightarrow> Some (Dish_Route Update_Dish, x) | _ \<Rightarrow> None)
          else if c = ''orders'' then
            (case m of GET \<Rightarrow> Some (Order_Route Read_Order, x)
                     | PUT \<Rightarrow> Some (Order_Route Update_Order, x)
                     | DELETE \<Rightarrow> Some (Order_Route Delete_Order, x) | POST \<Rightarrow> None)
          else None
      | _ \<Rightarrow> None)"

text \<open>The request line of a route, with the parameter in its place.\<close>

fun request_line :: "app_route \<Rightarrow> string \<Rightarrow> http_method \<times> string list" where
  "request_line (Dish_Route List_Dishes) x = (GET, [''dishes''])"
| "request_line (Dish_Route Create_Dish) x = (POST, [''dishes''])"
| "request_line (Dish_Route Read_Dish) x = (GET, [''dishes'', x])"
| "request_line (Dish_Route Update_Dish) x = (PUT, [''dishes'', x])"
| "request_line (Order_Route List_Orders) x = (GET, [''orders''])"
| "request_line (Order_Route Create_Order) x = (POST, [''orders''])"
| "request_line (Order_Route Read_Order) x = (GET, [''orders'', x])"
| "request_line (Order_Route Update_Order) x = (PUT, [''orders'', x])"
| "request_line (Order_Route Delete_Order) x = (DELETE, [''orders'', x])"

fun has_param :: "app_route \<Rightarrow> bool" where
  "has_param (Dish_Route rt) = (rt = Read_Dish \<or> rt = Update_Dish)"
| "has_param (Order_Route rt) = (rt = Read_Order \<or> rt = Update_Order \<or> rt = Delete_Order)"

text \<open>Serving one request: dispatch, then the controller's chain.\<close>

definition serve :: "http_method \<Rightarrow> string list \<Rightarrow> jval \<Rightarrow> app_state \<Rightarrow> (app_response list \<times> app_state) option" where
  "serve m p b s =
     map_option (\<lambda>(rt, x). app_request rt \<lparr>req_param = x, req_body = b\<rparr> s) (route_of m p)"

text \<open>The success status the interface gives each method, and the status of a response.\<close>

fun success_status :: "http_method \<Rightarrow> nat" where
  "success_status GET = 200"
| "success_status POST = 201"
| "success_status PUT = 200"
| "success_status DELETE = 204"

fun app_status :: "app_response \<Rightarrow> nat" where
  "app_status (Dish_Response x) = http_status x"
| "app_status (Order_Response x) = http_status x"

fun app_is_error :: "app_response \<Rightarrow> bool" where
  "app_is_error (Dish_Response x) = (case x of Error_Json n m \<Rightarrow> True | Server_Error \<Rightarrow> True | _ \<Rightarrow> False)"
| "app_is_error (Order_Response x) = (case x of Error_Json n m \<Rightarrow> True | Server_Error \<Rightarrow> True | _ \<Rightarrow> False)"

lemma error_response_status:
  "status_ok e \<Longrightarrow> http_status (error_response e) \<in> {400, 404, 500}"
  by (cases e) auto

lemma route_of_Some:
  "route_of m p = Some (rt, x) \<Longrightarrow> request_line rt x = (m, p) \<and> (\<not> has_param rt \<longrightarrow> x = '''')"
  by (auto simp: route_of_def split: list.splits if_splits http_method.splits)

lemma request_line_success:
  "success_status (fst (request_line rt x)) =
     (if rt = Dish_Route Create_Dish \<or> rt = Order_Route Create_Order then 201
      else if rt = Order_Route Delete_Order then 204 else 200)"
  by (cases "(rt, x)" rule: request_line.cases) simp_all

end
