(* ===== verification/Quantity_Loop.thy ===== *)
theory Quantity_Loop
  imports Orders "HOL-Library.While_Combinator"
begin

text \<open>
  The \<open>for\<close> loop of \<open>validateDishQuantity\<close> (\<open>src/orders/orders.controller.js\<close>) kept
  in its shape: a counter \<open>i\<close> from 0 while \<open>i < dishes.length\<close>, each round reading
  \<open>dishes[i].quantity\<close> and either leaving the loop with \<open>return next({...})\<close> or
  incrementing \<open>i\<close>. The state is the counter and the error the loop returned with, if
  any. Here: that the loop stops on every array (a measure on the state), and that it
  computes what the recursive \<open>check_quantities\<close> of the order controller computes.
\<close>

definition quantity_step :: "jval list \<Rightarrow> nat \<times> order_msg error option \<Rightarrow> nat \<times> order_msg error option" where
  "quantity_step ds st =
     (case st of (i, _) \<Rightarrow>
        (case js_get (ds ! i) ''quantity'' of
           None \<Rightarrow> (i, Some Type_Error)
         | Some q \<Rightarrow>
             if q = JUndef \<or> q = JNull then (i, Some (Http_Error 400 (Dish_No_Quantity i)))
             else if \<not> js_is_integer q \<or> \<not> js_positive q then (i, Some (Http_Error 400 (Dish_Bad_Quantity i)))
             else (Suc i, None)))"

definition quantity_guard :: "jval list \<Rightarrow> nat \<times> order_msg error option \<Rightarrow> bool" where
  "quantity_guard ds st = (case st of (i, e) \<Rightarrow> e = None \<and> i < length ds)"

definition quantity_loop :: "jval list \<Rightarrow> order_msg error option option" where
  "quantity_loop ds = map_option snd (while_option (quantity_guard ds) (quantity_step ds) (0, None))"

text \<open>What is left of the loop's work: one round per remaining entry, one more to stop.\<close>

definition quantity_measure :: "jval list \<Rightarrow> nat \<times> order_msg error option \<Rightarrow> nat" where
  "quantity_measure ds st = (case st of (i, e) \<Rightarrow> length ds - i + (if e = None then 1 else 0))"

lemma quantity_step_decreases:
  "quantity_guard ds st \<Longrightarrow> quantity_measure ds (quantity_step ds st) < quantity_measure ds st"
  by (cases st)
     (auto simp: quantity_guard_def quantity_step_def quantity_measure_def split: option.splits)

lemma quantity_loop_halts: "\<exists>st. while_option (quantity_guard ds) (quantity_step ds) (0, None) = Some st"
  by (rule measure_while_option_Some[where P = "\<lambda>_. True" and f = "quantity_measure ds"])
     (simp_all add: quantity_step_decreases)

text \<open>The loop's invariant: the entries before the counter are valid; when the loop has
  returned, the entry at the counter is the invalid one and the error is its error.\<close>

definition quantity_inv :: "jval list \<Rightarrow> nat \<times> order_msg error option \<Rightarrow> bool" where
  "quantity_inv ds st =
     (case st of (i, e) \<Rightarrow> i \<le> length ds \<and> (\<forall>j<i. quantity_valid (ds ! j)) \<and>
        (case e of None \<Rightarrow> True
         | Some x \<Rightarrow> i < length ds \<and> \<not> quantity_valid (ds ! i) \<and> x = quantity_error i (ds ! i)))"

lemma quantity_inv_step:
  assumes "quantity_inv ds st" "quantity_guard ds st"
  shows "quantity_inv ds (quantity_step ds st)"
proof -
  obtain i e where st: "st = (i, e)" by (cases st)
  with assms have e: "e = None" and i: "i < length ds" and before: "\<forall>j<i. quantity_valid (ds ! j)"
    by (auto simp: quantity_inv_def quantity_guard_def)
  show ?thesis
  proof (cases "quantity_valid (ds ! i)")
    case True
    then have "\<forall>j<Suc i. quantity_valid (ds ! j)" using before by (auto simp: less_Suc_eq)
    with True i show ?thesis
      by (auto simp: st e quantity_inv_def quantity_step_def quantity_valid_def split: option.splits)
  next
    case False
    with i before show ?thesis
      by (auto simp: st e quantity_inv_def quantity_step_def quantity_valid_def quantity_error_def
               split: option.splits)
  qed
qed

text \<open>
  The loop stops on every array, having read no entry past the end, and runs to the end
  exactly when it found no invalid entry.
\<close>

lemma quantity_loop_final:
  obtains i e where "while_option (quantity_guard ds) (quantity_step ds) (0, None) = Some (i, e)"
    and "quantity_inv ds (i, e)" and "\<not> quantity_guard ds (i, e)"
proof -
  obtain st where w: "while_option (quantity_guard ds) (quantity_step ds) (0, None) = Some st"
    using quantity_loop_halts by blast
  have "quantity_inv ds (0, None)" by (simp add: quantity_inv_def)
  with while_option_rule[where P = "quantity_inv ds", OF quantity_inv_step w] have "quantity_inv ds st" by blast
  moreover have "\<not> quantity_guard ds st" by (rule while_option_stop[OF w])
  ultimately show ?thesis using w that by (cases st) auto
qed


text \<open>
  C35. The \<open>for\<close> loop of \<open>validateDishQuantity\<close> terminates on every array: it stops
  with the counter at most the array's length, and it has run to the end exactly when it
  returned no error.
\<close>

theorem quantity_loop_terminates:
  "\<exists>i e. while_option (quantity_guard ds) (quantity_step ds) (0, None) = Some (i, e) \<and>
         i \<le> length ds \<and> (e = None \<longleftrightarrow> i = length ds)"
proof -
  obtain i e where w: "while_option (quantity_guard ds) (quantity_step ds) (0, None) = Some (i, e)"
    and inv: "quantity_inv ds (i, e)" and stop: "\<not> quantity_guard ds (i, e)"
    by (rule quantity_loop_final)
  have "i \<le> length ds" using inv by (simp add: quantity_inv_def)
  moreover have "e = None \<longleftrightarrow> i = length ds"
    using inv stop by (auto simp: quantity_inv_def quantity_guard_def split: option.splits)
  ultimately show ?thesis using w by blast
qed

theorem quantity_loop_terminates_witness:
  "\<exists>i e. while_option (quantity_guard [JObj [(''quantity'', JNum 1)], JNull])
           (quantity_step [JObj [(''quantity'', JNum 1)], JNull]) (0, None) = Some (i, e) \<and>
         i \<le> length [JObj [(''quantity'', JNum 1)], JNull] \<and>
         (e = None \<longleftrightarrow> i = length [JObj [(''quantity'', JNum 1)], JNull])"
  by (rule quantity_loop_terminates)

text \<open>
  C36. The loop as written is the specification's check: it returns no error when every
  entry has an integer quantity greater than 0, and otherwise the error of the first
  invalid entry, naming that entry's index.
\<close>

theorem quantity_loop_first_invalid:
  "quantity_loop ds =
     Some (map_option (\<lambda>j. quantity_error j (ds ! j)) (find_index (\<lambda>d. \<not> quantity_valid d) ds))"
proof -
  obtain i e where w: "while_option (quantity_guard ds) (quantity_step ds) (0, None) = Some (i, e)"
    and inv: "quantity_inv ds (i, e)" and stop: "\<not> quantity_guard ds (i, e)"
    by (rule quantity_loop_final)
  have "e = map_option (\<lambda>j. quantity_error j (ds ! j)) (find_index (\<lambda>d. \<not> quantity_valid d) ds)"
  proof (cases e)
    case None
    with inv stop have "\<forall>j<length ds. quantity_valid (ds ! j)"
      by (auto simp: quantity_inv_def quantity_guard_def)
    then have "find_index (\<lambda>d. \<not> quantity_valid d) ds = None"
      by (auto simp: find_index_None_iff in_set_conv_nth)
    with None show ?thesis by simp
  next
    case (Some x)
    with inv have "find_index (\<lambda>d. \<not> quantity_valid d) ds = Some i" "x = quantity_error i (ds ! i)"
      by (simp_all add: quantity_inv_def find_index_Some_iff)
    with Some show ?thesis by simp
  qed
  with w show ?thesis by (simp add: quantity_loop_def)
qed

end
