(* ===== verification/Spec2Isabelle.thy ===== *)
theory Spec2Isabelle
  imports Routes Quantity_Loop
begin

text \<open>
  \<^bold>\<open>GrubDash\<close> (\<open>src/Project-GrubDash\<close>) is an Express API over two in-memory
  collections: dishes, served by \<open>src/dishes/dishes.controller.js\<close>, and orders, served by
  \<open>src/orders/orders.controller.js\<close>. Each route is an array of middleware: validators
  that read \<open>req.params\<close> and \<open>req.body.data\<close> and either call \<open>next()\<close> or stop the
  request with \<open>next({status, message})\<close>, then a handler that reads or mutates the
  module-level array and sends the response. The routers, \<open>app.js\<close> with its error
  handler, \<open>utils/nextId.js\<close> and the seed data are not under \<open>src/\<close>; they are modelled
  from the specification where the controllers depend on them.

  \<^bold>\<open>Theories.\<close>
  \<^item> \<open>Prelude\<close>: the \<open>chain_simps\<close> and \<open>store_simps\<close> collections; \<open>find_index\<close>
    (\<open>find\<close>/\<open>findIndex\<close>), \<open>remove_nth\<close> (\<open>splice(i, 1)\<close>), and \<open>key_map\<close>, the
    view of an array of keyed records as a map, with its append, update and remove lemmas.
  \<^item> \<open>Json\<close>: \<open>jval\<close>, the values \<open>express.json()\<close> produces (numbers are finite
    doubles, hence \<open>rat\<close>); \<open>truthy\<close> (ToBoolean), \<open>js_or\<close>, \<open>js_get\<close> (property read,
    \<open>None\<close> for the \<open>TypeError\<close> on \<open>null\<close>/\<open>undefined\<close>), \<open>body_data\<close> and
    \<open>body_field_or\<close> for the two destructuring forms the controllers use,
    \<open>js_is_integer\<close>, \<open>js_to_string\<close>, and the decimal rendering \<open>string_of_nat\<close> with its
    inverse \<open>nat_of_string\<close>.
  \<^item> \<open>Pipeline\<close>: requests, errors (\<open>Http_Error\<close> for \<open>next({status, message})\<close>,
    \<open>Type_Error\<close> for a throw), middleware outcomes, responses; \<open>run_mws\<close>/\<open>run_chain\<close>
    (Express dispatch), \<open>error_response\<close> (the error handler), \<open>nextId\<close>, and the
    specification's halting pipeline \<open>run_chain_halting\<close>.
  \<^item> \<open>Dishes\<close>, \<open>Orders\<close>: one definition per function of the controller, named after
    it (\<open>dishExists\<close>, \<open>validateDishId\<close>, \<open>validatePrice\<close>, \<open>dish_bodyDataHas\<close> for
    \<open>bodyDataHas\<close>, \<open>dish_list\<close>/\<open>dish_read\<close>/\<open>dish_update\<close>/\<open>dish_create\<close> for the
    handlers; \<open>check_quantities\<close> for the loop of \<open>validateDishQuantity\<close>, \<open>orderExists\<close>,
    \<open>validateOrderId\<close>, \<open>validateStatusProperty\<close>, \<open>validateOrderStatus\<close>, \<open>destroy\<close>,
    ...), the exported arrays as \<open>*_mws\<close> lists, and \<open>dish_request\<close>/\<open>order_request\<close> for
    the routes. The state is the array and the counter of the identifier generator;
    \<open>res.locals.dish\<close>/\<open>res.locals.order\<close>, a reference into the array, is the index of
    the element, so the in-place mutation of \<open>update\<close> is \<open>xs[i := d]\<close>. Each theory then
    holds the abstract store of its collection (\<open>dish_store\<close>, \<open>order_store\<close>) with the
    steps each route may take on it (\<open>dish_store_step\<close>, \<open>order_store_step\<close>).
  \<^item> \<open>Quantity_Loop\<close>: the \<open>for\<close> loop of \<open>validateDishQuantity\<close> kept as a loop
    (\<open>while_option\<close> over the counter and the returned error, \<open>quantity_step\<close>), with its
    termination measure and its invariant against the first-failure specification.
  \<^item> \<open>App\<close>: both routers over one process (\<open>app_request\<close>), sequences of requests
    (\<open>app_run\<close>), and runs of the pair of abstract stores (\<open>store_run\<close>).
  \<^item> \<open>Routes\<close>: the method and path table of the specification's interface section
    (\<open>route_of\<close>, \<open>request_line\<close>), serving a request (\<open>serve\<close>), and the status
    each method answers with (\<open>success_status\<close>).
  \<^item> \<open>Spec2Isabelle\<close>: this header and the properties that span both controllers.

  \<^bold>\<open>What is proved.\<close> Per route, the response and the new state on every branch, errors
  included (C1-C6, C10-C18, C20, C23); the identifier invariant (unique, and never an
  identifier the generator will still hand out) preserved by every request and so by every
  reachable state, by rule induction on \<open>dish_reachable\<close>/\<open>order_reachable\<close> (C7, C8,
  C19), and every stored order keeping a status (C30); the quantity validator against a
  first-failure specification (C10); the create, read and delete chains, and the dish update
  without a body id, equal the halting pipeline of the specification (C9, C24, C25); each
  controller refines its abstract store (C21, C22); over any interleaving of requests to
  the application, dishes are never removed and an order disappears only through a delete of
  it (C26, C27); bounds on how much one request changes the collections and counters (C28);
  every request is answered, twice only on the update routes (C29); the quantity loop as
  written terminates on every array and computes the first-failure check (C31, C32); every
  response carries the status the interface gives its method, or 400, 404 or 500 for an
  error (C33); and two orderings of requests: a dish read right after its create returns it
  (C34), and an order created without a status can be deleted at once, leaving the
  collection as before (C35).

  \<^bold>\<open>Modelling choices.\<close> \<open>validateDishId\<close> and \<open>validateOrderId\<close> call \<open>next(err)\<close> and
  then \<open>next()\<close> without returning. The outcome \<open>Fail_Pass\<close> models this as the
  specification describes the pattern (its open question on the id check): the error is
  reported and the rest of the chain still runs. A handler's response comes after the
  reported error, so a chain yields a list of responses, and the client sees the first.
  Express 4 itself behaves otherwise: after \<open>next(err)\<close> its route dispatcher skips the
  remaining handlers of the route, so the later \<open>next()\<close> runs nothing and the update is
  not applied. The theorems that depend on the choice (C5, C16, C29) hold of the program
  under the specification's description of the dispatcher, not under Express 4. No
  loop needs fuel: the only loop, over the order's \<open>dishes\<close>, is modelled twice, as
  structural recursion on the list (\<open>check_quantities\<close>, used by the validator) and as the
  counter loop of the source under \<open>while_option\<close>, whose \<open>Some\<close> result is proved with
  the measure "entries left, plus one until the loop has returned" (C31); the two agree.
  Identifiers come from a per-collection counter rendered in decimal; the invariant asks stored identifiers not to collide with future
  ones, which holds of any seed data whose identifiers are not decimal numerals. Counters
  and lengths are unbounded \<open>nat\<close>s, as JavaScript arrays and the generator do not wrap.

  \<^bold>\<open>Not modelled.\<close> HTTP parsing, \<open>express.json()\<close> (a body is already a \<open>jval\<close>), the
  answer to a method or path outside the interface table (the routers' 405 handlers and the
  application's 404 handler are not in the sources or the specification; \<open>serve\<close> gives
  \<open>None\<close>), the serialisation of responses,
  and the seed data (the start state is a parameter). \<open>String(v)\<close> of a non-integral or
  very large number is left unspecified (\<open>None\<close>); it appears only inside id-mismatch messages.

  \<^bold>\<open>Findings.\<close> The missing \<open>return\<close> in both id checks reports a 400 and lets the
  chain go on (C5, C16); \<open>{"data": null}\<close> and a \<open>null\<close> entry of \<open>dishes\<close> throw and
  answer 500 instead of 400 (C6, C10); an update whose payload says \<open>"delivered"\<close> is
  always rejected, while an order already stored as delivered can still be changed, and
  \<open>update\<close> never writes the status (C13-C15); \<open>create\<close> stores the payload's status
  unvalidated (C11).
\<close>

section \<open>Properties of the application\<close>

text \<open>
  C26. No sequence of requests removes a dish: every identifier bound in the dish store at
  the start is still bound after any interleaving of dish and order requests (the API has
  no dish delete route).
\<close>

theorem app_dishes_never_removed:
  assumes "app_inv s"
  shows "dom (dish_store (app_dishes s)) \<subseteq> dom (dish_store (app_dishes (app_run rqs s)))"
  using store_run_dish_dom[OF app_run_store[OF assms]] by (simp add: app_store_def)

theorem app_dishes_never_removed_witness:
  "dom (dish_store (app_dishes sample_app)) \<subseteq> dom (dish_store (app_dishes (app_run sample_requests sample_app)))"
  by (rule app_dishes_never_removed[OF sample_app_inv])

text \<open>
  C27. An order disappears only through a delete of it: if an identifier bound in the order
  store at the start is unbound after a sequence of requests, the sequence contains a
  \<open>DELETE /orders/:orderId\<close> request for that identifier.
\<close>

theorem app_order_removed_only_by_delete:
  assumes "app_inv s"
    and "order_store (app_orders s) k \<noteq> None"
    and "order_store (app_orders (app_run rqs s)) k = None"
  shows "\<exists>r. (Order_Route Delete_Order, r) \<in> set rqs \<and> req_param r = k"
  using store_run_order_removed[OF app_run_store[OF assms(1)]] assms(2,3) by (simp add: app_store_def)

theorem app_order_removed_only_by_delete_witness:
  "\<exists>r. (Order_Route Delete_Order, r) \<in> set sample_requests \<and> req_param r = ''o1''"
proof (rule app_order_removed_only_by_delete[OF sample_app_inv])
  show "order_store (app_orders sample_app) ''o1'' \<noteq> None"
    by (simp add: order_store_def key_map_def)
  show "order_store (app_orders (app_run sample_requests sample_app)) ''o1'' = None"
    by (simp add: order_store_def key_map_def order_delete_mws_def run_chain_def orderExists_def
                  validateOrderStatus_def destroy_def remove_nth_def del: app_request.simps)
qed

text \<open>
  C28. Each request changes each collection by at most one element and each identifier
  counter by at most one: dishes are never removed, orders are added or removed one at a time.
\<close>

theorem app_request_bounds:
  "length (dishes (app_dishes s)) \<le> length (dishes (app_dishes (snd (app_request rt r s)))) \<and>
   length (dishes (app_dishes (snd (app_request rt r s)))) \<le> Suc (length (dishes (app_dishes s))) \<and>
   length (orders (app_orders (snd (app_request rt r s)))) \<le> Suc (length (orders (app_orders s))) \<and>
   length (orders (app_orders s)) \<le> Suc (length (orders (app_orders (snd (app_request rt r s))))) \<and>
   dish_seq (app_dishes s) \<le> dish_seq (app_dishes (snd (app_request rt r s))) \<and>
   dish_seq (app_dishes (snd (app_request rt r s))) \<le> Suc (dish_seq (app_dishes s)) \<and>
   order_seq (app_orders s) \<le> order_seq (app_orders (snd (app_request rt r s))) \<and>
   order_seq (app_orders (snd (app_request rt r s))) \<le> Suc (order_seq (app_orders s))"
proof (cases rt)
  case (Dish_Route d)
  then show ?thesis using dish_request_bounds[of "app_dishes s" d r] by (simp del: app_request.simps)
next
  case (Order_Route o')
  then show ?thesis using order_request_bounds[of o' r "app_orders s"] by (simp del: app_request.simps)
qed

text \<open>
  C29. Every request is answered: the application sends one response, or two on the update
  routes only (the id-mismatch error followed by the result of the update that still runs).
\<close>

theorem app_request_responses:
  "length (fst (app_request rt r s)) = 1 \<or>
   ((rt = Dish_Route Update_Dish \<or> rt = Order_Route Update_Order) \<and> length (fst (app_request rt r s)) = 2)"
proof (cases rt)
  case (Dish_Route d)
  then show ?thesis using dish_request_responses[of d r "app_dishes s"] by (auto simp: case_prod_beta)
next
  case (Order_Route o')
  then show ?thesis using order_request_responses[of o' r "app_orders s"] by (auto simp: case_prod_beta)
qed


text \<open>
  C33. Every response the application sends has the status the interface gives it: an
  error answers 400 or 404 as the specification's two error kinds do, or 500 where the code
  throws; any other response answers 200 for GET and PUT, 201 for POST and 204 for DELETE.
\<close>

theorem serve_statuses:
  assumes "serve m p b s = Some (rs, s')" and "x \<in> set rs"
  shows "if app_is_error x then app_status x \<in> {400, 404, 500} else app_status x = success_status m"
proof -
  obtain rt y where rt: "route_of m p = Some (rt, y)"
    and rs: "rs = fst (app_request rt \<lparr>req_param = y, req_body = b\<rparr> s)"
    using assms(1) by (auto simp: serve_def)
  have m: "success_status m =
     (if rt = Dish_Route Create_Dish \<or> rt = Order_Route Create_Order then 201
      else if rt = Order_Route Delete_Order then 204 else 200)"
    using route_of_Some[OF rt] request_line_success[of rt y] by simp
  show ?thesis
  proof (cases rt)
    case (Dish_Route d)
    then obtain z where z: "x = Dish_Response z" "z \<in> set (fst (dish_request d \<lparr>req_param = y, req_body = b\<rparr> (app_dishes s)))"
      using assms(2) rs by (auto simp: case_prod_beta)
    from dish_request_statuses[OF z(2)] show ?thesis
    proof
      assume "\<exists>e. status_ok e \<and> z = error_response e"
      then obtain e where "status_ok e" "z = error_response e" by blast
      with z(1) show ?thesis by (cases e) auto
    next
      assume "\<exists>q. z = Json (if d = Create_Dish then 201 else 200) q"
      with z(1) m Dish_Route show ?thesis by auto
    qed
  next
    case (Order_Route o')
    then obtain z where z: "x = Order_Response z" "z \<in> set (fst (order_request o' \<lparr>req_param = y, req_body = b\<rparr> (app_orders s)))"
      using assms(2) rs by (auto simp: case_prod_beta)
    from order_request_statuses[OF z(2)] z(1) m Order_Route show ?thesis
      by (cases o') (auto elim!: status_ok.elims)
  qed
qed


theorem serve_statuses_witness:
  "app_status (Dish_Response (Json 201 (The_Dish \<lparr>dish_id = nextId 0, name = JStr ''Taco'',
      description = JStr ''Spicy'', price = JNum 8, image_url = JStr ''x''\<rparr>))) = success_status POST"
proof -
  let ?d = "\<lparr>dish_id = nextId 0, name = JStr ''Taco'', description = JStr ''Spicy'', price = JNum 8,
             image_url = JStr ''x''\<rparr>"
  let ?b = "JObj [(''data'', JObj [(''name'', JStr ''Taco''), (''description'', JStr ''Spicy''),
                                  (''price'', JNum 8), (''image_url'', JStr ''x'')])]"
  have h1: "serve POST [''dishes''] ?b sample_app =
              Some ([Dish_Response (Json 201 (The_Dish ?d))],
                    sample_app\<lparr>app_dishes := \<lparr>dishes = [?d], dish_seq = 1\<rparr>\<rparr>)"
    by (simp add: serve_def route_of_def run_chain_def dish_create_mws_def chain_simps body_data_def
                  with_default_def obj_lookup_def dish_create_def dish_fields_def Let_def)
  have h2: "Dish_Response (Json 201 (The_Dish ?d)) \<in> set [Dish_Response (Json 201 (The_Dish ?d))]" by simp
  from serve_statuses[OF h1 h2] show ?thesis by simp
qed

end
